theory Spec2Isabelle
  imports Main "HOL-Library.Sublist" "HOL-Library.Word"
begin

section \<open>Common types\<close>

text \<open>The node kinds of \<^verbatim>\<open>svn_node_kind_t\<close> and the error codes raised by the three source files.
  \<open>ABORTED\<close> stands for the process ending in \<^verbatim>\<open>abort ()\<close>; \<open>SVN_ERR_IO s\<close> stands for a
  failure reported by a storage or disk routine that the files call.\<close>

datatype svn_node_kind = svn_node_none | svn_node_file | svn_node_dir | svn_node_unknown

datatype svn_err =
    SVN_ERR_FS_NOT_DIRECTORY
  | SVN_ERR_FS_NOT_FILE
  | SVN_ERR_FS_NOT_MUTABLE
  | SVN_ERR_FS_ALREADY_EXISTS
  | SVN_ERR_FS_NOT_FOUND
  | SVN_ERR_FS_NOT_SINGLE_PATH_COMPONENT
  | SVN_ERR_WC_OBSTRUCTED_UPDATE
  | SVN_ERR_UNSUPPORTED_FEATURE
  | SVN_ERR_ENTRY_NOT_FOUND
  | SVN_ERR_IO string
  | ABORTED

section \<open>libsvn\_fs\_fs/dag.c: identifiers and node revisions\<close>

text \<open>A node-revision id is the triple (node key, copy key, transaction-or-revision key).
  It carries either a transaction or a revision, never both.\<close>

datatype txn_or_rev = Txn string | Rev nat

record svn_fs_id =
  node_id :: nat
  copy_id :: string
  txn_rev :: txn_or_rev

text \<open>Modelled from the spec: \<^verbatim>\<open>svn_fs__id_txn_id\<close> (id.h): the transaction component of an
  id, absent for the id of a committed node revision.\<close>

definition svn_fs__id_txn_id :: "svn_fs_id \<Rightarrow> string option" where
  "svn_fs__id_txn_id i = (case txn_rev i of Txn t \<Rightarrow> Some t | Rev _ \<Rightarrow> None)"

text \<open>Modelled from the spec: \<^verbatim>\<open>svn_fs__id_copy_id\<close> (id.h): the copy key of an id.\<close>

definition svn_fs__id_copy_id :: "svn_fs_id \<Rightarrow> string" where
  "svn_fs__id_copy_id i = copy_id i"

text \<open>Modelled from the spec: \<^verbatim>\<open>svn_fs__id_eq\<close> (id.h): \<open>same(a, b)\<close> holds when all three
  components match.\<close>

definition svn_fs__id_eq :: "svn_fs_id \<Rightarrow> svn_fs_id \<Rightarrow> bool" where
  "svn_fs__id_eq a b = (a = b)"

text \<open>Modelled from the spec: \<^verbatim>\<open>svn_fs_check_related\<close> (svn\_fs.h): \<open>related(a, b)\<close> holds
  when the node keys match.\<close>

definition svn_fs_check_related :: "svn_fs_id \<Rightarrow> svn_fs_id \<Rightarrow> bool" where
  "svn_fs_check_related a b = (node_id a = node_id b)"

record svn_fs_dirent =
  dirent_id :: svn_fs_id
  dirent_kind :: svn_node_kind

text \<open>The node revision. \<open>data_rep\<close> of a directory resolves to its entries; \<open>nr_id\<close> is
  the id under which the storage layer keeps the node revision. \<open>predecessor_count\<close> is a
  C \<^verbatim>\<open>int\<close>: a 32-bit word read as a signed number by \<open>sint\<close>, on which \<^verbatim>\<open>++\<close> wraps round
  from 2147483647 to -2147483648.\<close>

record node_revision =
  nr_id :: svn_fs_id
  kind :: svn_node_kind
  predecessor_id :: "svn_fs_id option"
  predecessor_count :: "32 word"
  copyfrom_path :: "string option"
  copyfrom_rev :: int
  copyroot :: "svn_fs_id option"
  data_rep :: "(string \<rightharpoonup> svn_fs_dirent) option"
  prop_rep :: "nat option"
  edit_key :: "string option"
  created_path :: "string option"

record svn_fs =
  nodes :: "svn_fs_id \<rightharpoonup> node_revision"
  next_key :: nat

record dag_node =
  dn_id :: svn_fs_id
  dn_kind :: svn_node_kind
  dn_node_revision :: "node_revision option"
  dn_created_path :: "string option"

subsection \<open>Storage layer used by dag.c\<close>

text \<open>Modelled from the spec: \<^verbatim>\<open>svn_fs__fs_get_node_revision\<close> (fs\_fs.c is not part of the
  sources). \<open>get(fs, id)\<close> returns the node revision stored under the id; an id with no node
  revision is a storage failure.\<close>

definition svn_fs__fs_get_node_revision :: "svn_fs \<Rightarrow> svn_fs_id \<Rightarrow> svn_err + node_revision" where
  "svn_fs__fs_get_node_revision fs i =
     (case nodes fs i of None \<Rightarrow> Inl (SVN_ERR_IO ''no such node revision'') | Some nr \<Rightarrow> Inr nr)"

text \<open>Modelled from the spec: \<^verbatim>\<open>svn_fs__fs_rep_contents_dir\<close>, \<open>rep_contents_dir(fs, dir_nr)\<close>:
  the entries that the directory's \<open>data_rep\<close> resolves to, \<open>None\<close> when it has no
  representation yet.\<close>

definition svn_fs__fs_rep_contents_dir ::
  "svn_fs \<Rightarrow> node_revision \<Rightarrow> svn_err + (string \<rightharpoonup> svn_fs_dirent) option" where
  "svn_fs__fs_rep_contents_dir fs noderev = Inr (data_rep noderev)"

text \<open>Modelled from the spec: \<^verbatim>\<open>svn_fs__fs_set_entry\<close>,
  \<open>set_entry(fs, txn, dir_nr, name, child_id, kind)\<close>: the entry \<open>name\<close> of the directory
  now points at \<open>child_id\<close>; the node revision is written back under its own id. The C
  routine works through the pointer it is given, so the changed node revision is returned
  as well.\<close>

definition svn_fs__fs_set_entry ::
  "svn_fs \<Rightarrow> string \<Rightarrow> node_revision \<Rightarrow> string \<Rightarrow> svn_fs_id \<Rightarrow> svn_node_kind
     \<Rightarrow> svn_err + (node_revision \<times> svn_fs)" where
  "svn_fs__fs_set_entry fs txn_id parent_noderev name i k =
     (let old = (case data_rep parent_noderev of None \<Rightarrow> Map.empty | Some es \<Rightarrow> es);
          nr = parent_noderev\<lparr>data_rep := Some (old(name \<mapsto> \<lparr>dirent_id = i, dirent_kind = k\<rparr>))\<rparr>
      in Inr (nr, fs\<lparr>nodes := (nodes fs)(nr_id nr \<mapsto> nr)\<rparr>))"

text \<open>Modelled from the spec: \<^verbatim>\<open>svn_fs__fs_create_node\<close>,
  \<open>create(fs, template, parent-copy-id, txn) \<rightarrow> id\<close>: a fresh node key, the given copy id and
  the transaction make the new id, under which the template is stored.\<close>

definition svn_fs__fs_create_node ::
  "svn_fs \<Rightarrow> node_revision \<Rightarrow> string \<Rightarrow> string \<Rightarrow> svn_err + (svn_fs_id \<times> svn_fs)" where
  "svn_fs__fs_create_node fs noderev cid txn_id =
     (let i = \<lparr>node_id = next_key fs, copy_id = cid, txn_rev = Txn txn_id\<rparr>
      in Inr (i, fs\<lparr>nodes := (nodes fs)(i \<mapsto> noderev\<lparr>nr_id := i\<rparr>), next_key := Suc (next_key fs)\<rparr>))"

text \<open>Modelled from the spec: \<^verbatim>\<open>svn_fs__fs_create_successor\<close>,
  \<open>create_successor(fs, old_id, template, copy_id, txn) \<rightarrow> new_id\<close>: it copies the given
  template, sets its predecessor to \<open>old_id\<close>, increments its predecessor count when that is
  at least 0, and stores it under a new id that shares the node key of \<open>old_id\<close> and takes
  the supplied copy and transaction components.\<close>

definition svn_fs__fs_create_successor ::
  "svn_fs \<Rightarrow> svn_fs_id \<Rightarrow> node_revision \<Rightarrow> string \<Rightarrow> string \<Rightarrow> svn_err + (svn_fs_id \<times> svn_fs)" where
  "svn_fs__fs_create_successor fs old_id new_noderev cid txn_id =
     (let i = \<lparr>node_id = node_id old_id, copy_id = cid, txn_rev = Txn txn_id\<rparr>;
          nr = new_noderev\<lparr>nr_id := i, predecessor_id := Some old_id,
                 predecessor_count := (if 0 \<le> sint (predecessor_count new_noderev)
                                       then predecessor_count new_noderev + 1
                                       else predecessor_count new_noderev)\<rparr>
      in Inr (i, fs\<lparr>nodes := (nodes fs)(i \<mapsto> nr)\<rparr>))"

text \<open>Modelled from the spec: \<^verbatim>\<open>svn_path_is_single_path_component\<close> (svn\_path.h): a
  directory entry name has no slash and is neither \<^verbatim>\<open>.\<close> nor \<^verbatim>\<open>..\<close>.\<close>

definition svn_path_is_single_path_component :: "string \<Rightarrow> bool" where
  "svn_path_is_single_path_component name =
     (CHR ''/'' \<notin> set name \<and> name \<noteq> ''.'' \<and> name \<noteq> ''..'')"

text \<open>Modelled from the spec: \<^verbatim>\<open>svn_path_join\<close>, the path \<open>parent_path \<oplus> name\<close>.\<close>

definition svn_path_join :: "string \<Rightarrow> string \<Rightarrow> string" where
  "svn_path_join base component =
     (if base = [] then component
      else if component = [] then base
      else if last base = CHR ''/'' then base @ component
      else base @ ''/'' @ component)"

subsection \<open>dag.c\<close>

text \<open>\<^verbatim>\<open>get_node_revision\<close>: the cached node revision of the handle, read from the store the
  first time. The handle is returned with its cache filled.\<close>

definition get_node_revision :: "dag_node \<Rightarrow> svn_fs \<Rightarrow> svn_err + (node_revision \<times> dag_node)" where
  "get_node_revision node fs =
     (case dn_node_revision node of
        Some noderev \<Rightarrow> Inr (noderev, node)
      | None \<Rightarrow>
         (case svn_fs__fs_get_node_revision fs (dn_id node) of
            Inl e \<Rightarrow> Inl e
          | Inr noderev \<Rightarrow> Inr (noderev, node\<lparr>dn_node_revision := Some noderev\<rparr>)))"

text \<open>\<^verbatim>\<open>svn_fs__dag_check_mutable\<close>: the transaction argument is not looked at.\<close>

definition svn_fs__dag_check_mutable :: "dag_node \<Rightarrow> string \<Rightarrow> bool" where
  "svn_fs__dag_check_mutable node txn_id = (svn_fs__id_txn_id (dn_id node) \<noteq> None)"

definition svn_fs__dag_get_node :: "svn_fs \<Rightarrow> svn_fs_id \<Rightarrow> svn_err + dag_node" where
  "svn_fs__dag_get_node fs i =
     (let new_node = \<lparr>dn_id = i, dn_kind = svn_node_none, dn_node_revision = None,
                      dn_created_path = None\<rparr>
      in case get_node_revision new_node fs of
           Inl e \<Rightarrow> Inl e
         | Inr (noderev, new_node) \<Rightarrow>
             Inr (new_node\<lparr>dn_kind := kind noderev, dn_created_path := created_path noderev\<rparr>))"

definition svn_fs__dag_get_predecessor_id ::
  "dag_node \<Rightarrow> svn_fs \<Rightarrow> svn_err + (svn_fs_id option \<times> dag_node)" where
  "svn_fs__dag_get_predecessor_id node fs =
     (case get_node_revision node fs of
        Inl e \<Rightarrow> Inl e
      | Inr (noderev, node) \<Rightarrow> Inr (predecessor_id noderev, node))"

definition svn_fs__dag_get_predecessor_count ::
  "dag_node \<Rightarrow> svn_fs \<Rightarrow> svn_err + (32 word \<times> dag_node)" where
  "svn_fs__dag_get_predecessor_count node fs =
     (case get_node_revision node fs of
        Inl e \<Rightarrow> Inl e
      | Inr (noderev, node) \<Rightarrow> Inr (predecessor_count noderev, node))"

text \<open>\<^verbatim>\<open>get_dir_entries\<close>, \<^verbatim>\<open>svn_fs__dag_dir_entries\<close> and \<^verbatim>\<open>dir_entry_id_from_node\<close>.\<close>

definition get_dir_entries ::
  "svn_fs \<Rightarrow> node_revision \<Rightarrow> svn_err + (string \<rightharpoonup> svn_fs_dirent) option" where
  "get_dir_entries fs noderev =
     (if kind noderev \<noteq> svn_node_dir then Inl SVN_ERR_FS_NOT_DIRECTORY
      else svn_fs__fs_rep_contents_dir fs noderev)"

definition svn_fs__dag_dir_entries ::
  "dag_node \<Rightarrow> svn_fs \<Rightarrow> svn_err + ((string \<rightharpoonup> svn_fs_dirent) option \<times> dag_node)" where
  "svn_fs__dag_dir_entries node fs =
     (case get_node_revision node fs of
        Inl e \<Rightarrow> Inl e
      | Inr (noderev, node) \<Rightarrow>
          (case get_dir_entries fs noderev of
             Inl e \<Rightarrow> Inl e
           | Inr entries \<Rightarrow> Inr (entries, node)))"

definition dir_entry_id_from_node ::
  "dag_node \<Rightarrow> string \<Rightarrow> svn_fs \<Rightarrow> svn_err + (svn_fs_id option \<times> dag_node)" where
  "dir_entry_id_from_node parent name fs =
     (case svn_fs__dag_dir_entries parent fs of
        Inl e \<Rightarrow> Inl e
      | Inr (entries, parent) \<Rightarrow>
          (let dirent = (case entries of Some es \<Rightarrow> es name | None \<Rightarrow> None)
           in Inr (map_option dirent_id dirent, parent)))"

text \<open>\<^verbatim>\<open>set_entry\<close> (static): no check of its own; the parent's cached node revision is the
  one the storage layer changes.\<close>

definition set_entry ::
  "dag_node \<Rightarrow> string \<Rightarrow> svn_fs_id \<Rightarrow> svn_node_kind \<Rightarrow> string \<Rightarrow> svn_fs
     \<Rightarrow> svn_err + (dag_node \<times> svn_fs)" where
  "set_entry parent name i k txn_id fs =
     (case get_node_revision parent fs of
        Inl e \<Rightarrow> Inl e
      | Inr (parent_noderev, parent) \<Rightarrow>
          (case svn_fs__fs_set_entry fs txn_id parent_noderev name i k of
             Inl e \<Rightarrow> Inl e
           | Inr (nr, fs) \<Rightarrow> Inr (parent\<lparr>dn_node_revision := Some nr\<rparr>, fs)))"

text \<open>The all-zero node revision of \<^verbatim>\<open>memset (&new_noderev, 0, ...)\<close>. Its \<open>nr_id\<close> is set by
  the storage layer when the node is created.\<close>

definition zero_noderev :: "svn_fs_id \<Rightarrow> node_revision" where
  "zero_noderev i =
     \<lparr>nr_id = i, kind = svn_node_none, predecessor_id = None, predecessor_count = 0,
      copyfrom_path = None, copyfrom_rev = 0, copyroot = None, data_rep = None,
      prop_rep = None, edit_key = None, created_path = None\<rparr>"

text \<open>\<^verbatim>\<open>make_entry\<close>: returns the child, the parent handle and the store.\<close>

definition make_entry ::
  "dag_node \<Rightarrow> string \<Rightarrow> string \<Rightarrow> bool \<Rightarrow> string \<Rightarrow> svn_fs
     \<Rightarrow> svn_err + (dag_node \<times> dag_node \<times> svn_fs)" where
  "make_entry parent parent_path name is_dir txn_id fs =
     (if \<not> svn_path_is_single_path_component name then Inl SVN_ERR_FS_NOT_SINGLE_PATH_COMPONENT
      else if dn_kind parent \<noteq> svn_node_dir then Inl SVN_ERR_FS_NOT_DIRECTORY
      else if \<not> svn_fs__dag_check_mutable parent txn_id then Inl SVN_ERR_FS_NOT_MUTABLE
      else case dir_entry_id_from_node parent name fs of
        Inl e \<Rightarrow> Inl e
      | Inr (new_node_id, parent) \<Rightarrow>
          (if new_node_id \<noteq> None then Inl SVN_ERR_FS_ALREADY_EXISTS
           else
             let new_noderev = (zero_noderev (dn_id parent))
                   \<lparr>kind := (if is_dir then svn_node_dir else svn_node_file),
                    created_path := Some (svn_path_join parent_path name)\<rparr>
             in case svn_fs__fs_create_node fs new_noderev
                       (svn_fs__id_copy_id (dn_id parent)) txn_id of
                  Inl e \<Rightarrow> Inl e
                | Inr (new_node_id, fs) \<Rightarrow>
                    (case svn_fs__dag_get_node fs new_node_id of
                       Inl e \<Rightarrow> Inl e
                     | Inr child \<Rightarrow>
                         (case set_entry parent name (dn_id child) (kind new_noderev) txn_id fs of
                            Inl e \<Rightarrow> Inl e
                          | Inr (parent, fs) \<Rightarrow> Inr (child, parent, fs)))))"

definition svn_fs__dag_make_file ::
  "dag_node \<Rightarrow> string \<Rightarrow> string \<Rightarrow> string \<Rightarrow> svn_fs \<Rightarrow> svn_err + (dag_node \<times> dag_node \<times> svn_fs)" where
  "svn_fs__dag_make_file parent parent_path name txn_id fs =
     make_entry parent parent_path name False txn_id fs"

definition svn_fs__dag_make_dir ::
  "dag_node \<Rightarrow> string \<Rightarrow> string \<Rightarrow> string \<Rightarrow> svn_fs \<Rightarrow> svn_err + (dag_node \<times> dag_node \<times> svn_fs)" where
  "svn_fs__dag_make_dir parent parent_path name txn_id fs =
     make_entry parent parent_path name True txn_id fs"

text \<open>\<^verbatim>\<open>svn_fs__dag_set_entry\<close>: the immutable case reports
  \<^verbatim>\<open>SVN_ERR_FS_NOT_DIRECTORY\<close>, as the source does.\<close>

definition svn_fs__dag_set_entry ::
  "dag_node \<Rightarrow> string \<Rightarrow> svn_fs_id \<Rightarrow> string \<Rightarrow> svn_fs \<Rightarrow> svn_err + (dag_node \<times> svn_fs)" where
  "svn_fs__dag_set_entry node entry_name i txn_id fs =
     (if dn_kind node \<noteq> svn_node_dir then Inl SVN_ERR_FS_NOT_DIRECTORY
      else if \<not> svn_fs__dag_check_mutable node txn_id then Inl SVN_ERR_FS_NOT_DIRECTORY
      else set_entry node entry_name i (dn_kind node) txn_id fs)"

text \<open>\<^verbatim>\<open>svn_fs__dag_open\<close>: the entry is looked up before the name is checked.\<close>

definition svn_fs__dag_open ::
  "dag_node \<Rightarrow> string \<Rightarrow> svn_fs \<Rightarrow> svn_err + (dag_node \<times> dag_node)" where
  "svn_fs__dag_open parent name fs =
     (case dir_entry_id_from_node parent name fs of
        Inl e \<Rightarrow> Inl e
      | Inr (node_id_opt, parent) \<Rightarrow>
          (case node_id_opt of
             None \<Rightarrow> Inl SVN_ERR_FS_NOT_FOUND
           | Some nid \<Rightarrow>
               if \<not> svn_path_is_single_path_component name
               then Inl SVN_ERR_FS_NOT_SINGLE_PATH_COMPONENT
               else (case svn_fs__dag_get_node fs nid of
                       Inl e \<Rightarrow> Inl e
                     | Inr child \<Rightarrow> Inr (child, parent))))"

text \<open>\<^verbatim>\<open>svn_fs__dag_clone_child\<close>: returns the child, the parent handle and the store. The
  \<^verbatim>\<open>++\<close> on the predecessor count is the addition of 32-bit words.\<close>

definition svn_fs__dag_clone_child ::
  "dag_node \<Rightarrow> string \<Rightarrow> string \<Rightarrow> string \<Rightarrow> string \<Rightarrow> svn_fs
     \<Rightarrow> svn_err + (dag_node \<times> dag_node \<times> svn_fs)" where
  "svn_fs__dag_clone_child parent parent_path name cid txn_id fs =
     (if \<not> svn_fs__dag_check_mutable parent txn_id then Inl SVN_ERR_FS_NOT_MUTABLE
      else if \<not> svn_path_is_single_path_component name
      then Inl SVN_ERR_FS_NOT_SINGLE_PATH_COMPONENT
      else case svn_fs__dag_open parent name fs of
        Inl e \<Rightarrow> Inl e
      | Inr (cur_entry, parent) \<Rightarrow>
          if svn_fs__dag_check_mutable cur_entry txn_id
          then (case svn_fs__dag_get_node fs (dn_id cur_entry) of
                  Inl e \<Rightarrow> Inl e
                | Inr child \<Rightarrow> Inr (child, parent, fs))
          else
            (case get_node_revision cur_entry fs of
               Inl e \<Rightarrow> Inl e
             | Inr (noderev, cur_entry) \<Rightarrow>
                 let noderev = noderev\<lparr>predecessor_id := Some (dn_id cur_entry)\<rparr>;
                     noderev = (if predecessor_count noderev \<noteq> - 1
                                then noderev\<lparr>predecessor_count := predecessor_count noderev + 1\<rparr>
                                else noderev);
                     noderev = noderev\<lparr>created_path := Some (svn_path_join parent_path name)\<rparr>
                 in case svn_fs__fs_create_successor fs (dn_id cur_entry) noderev cid txn_id of
                      Inl e \<Rightarrow> Inl e
                    | Inr (new_node_id, fs) \<Rightarrow>
                        (case set_entry parent name new_node_id (kind noderev) txn_id fs of
                           Inl e \<Rightarrow> Inl e
                         | Inr (parent, fs) \<Rightarrow>
                             (case svn_fs__dag_get_node fs new_node_id of
                                Inl e \<Rightarrow> Inl e
                              | Inr child \<Rightarrow> Inr (child, parent, fs)))))"

text \<open>Modelled from the spec: \<^verbatim>\<open>svn_fs__fs_set_contents\<close>, \<open>set_contents(fs, file_nr) \<rightarrow> writer\<close>:
  the node revision's \<open>edit_key\<close> is set while the writer is open. The writer is
  represented by its key.\<close>

definition svn_fs__fs_set_contents ::
  "svn_fs \<Rightarrow> node_revision \<Rightarrow> svn_err + (string \<times> node_revision \<times> svn_fs)" where
  "svn_fs__fs_set_contents fs noderev =
     (let ws = ''edit'';
          nr = noderev\<lparr>edit_key := Some ws\<rparr>
      in Inr (ws, nr, fs\<lparr>nodes := (nodes fs)(nr_id nr \<mapsto> nr)\<rparr>))"

definition svn_fs__dag_get_edit_stream ::
  "dag_node \<Rightarrow> string \<Rightarrow> svn_fs \<Rightarrow> svn_err + (string \<times> dag_node \<times> svn_fs)" where
  "svn_fs__dag_get_edit_stream file txn_id fs =
     (if dn_kind file \<noteq> svn_node_file then Inl SVN_ERR_FS_NOT_FILE
      else if \<not> svn_fs__dag_check_mutable file txn_id then Inl SVN_ERR_FS_NOT_MUTABLE
      else case get_node_revision file fs of
        Inl e \<Rightarrow> Inl e
      | Inr (noderev, file) \<Rightarrow>
          (case svn_fs__fs_set_contents fs noderev of
             Inl e \<Rightarrow> Inl e
           | Inr (ws, nr, fs) \<Rightarrow> Inr (ws, file\<lparr>dn_node_revision := Some nr\<rparr>, fs)))"

text \<open>\<^verbatim>\<open>svn_fs__dag_finalize_edits\<close>: a node with an edit key reaches \<^verbatim>\<open>abort ()\<close>.\<close>

definition svn_fs__dag_finalize_edits ::
  "dag_node \<Rightarrow> string \<Rightarrow> string \<Rightarrow> svn_fs \<Rightarrow> svn_err + (dag_node \<times> svn_fs)" where
  "svn_fs__dag_finalize_edits file checksum txn_id fs =
     (if dn_kind file \<noteq> svn_node_file then Inl SVN_ERR_FS_NOT_FILE
      else if \<not> svn_fs__dag_check_mutable file txn_id then Inl SVN_ERR_FS_NOT_MUTABLE
      else case get_node_revision file fs of
        Inl e \<Rightarrow> Inl e
      | Inr (noderev, file) \<Rightarrow>
          if edit_key noderev = None then Inr (file, fs) else Inl ABORTED)"

subsection \<open>Predecessor walk and ancestry\<close>

text \<open>The outcome of \<^verbatim>\<open>svn_fs__dag_walk_predecessors\<close>: the error it returned, if any, the
  baton as the callbacks left it, and the arguments of the callback invocations in order
  (a record of the calls, kept to count them).\<close>

record 'b walk_result =
  wr_err :: "svn_err option"
  wr_baton :: 'b
  wr_calls :: "dag_node option list"

type_synonym 'b pred_func = "'b \<Rightarrow> dag_node option \<Rightarrow> svn_err + ('b \<times> bool)"

text \<open>The loop \<^verbatim>\<open>while ((! done) && this_node)\<close>. A callback returns the baton and the value
  it leaves in \<^verbatim>\<open>*done\<close>, which is \<^verbatim>\<open>FALSE\<close> when it is called. The predecessor chain of a
  store need not end, so the result is optional: \<open>None\<close> is a walk that never returns.\<close>

partial_function (option) walk_loop ::
  "'b pred_func option \<Rightarrow> svn_fs \<Rightarrow> bool \<Rightarrow> dag_node option \<Rightarrow> 'b \<Rightarrow> dag_node option list
     \<Rightarrow> 'b walk_result option" where
  "walk_loop callback fs done this_node baton calls =
     (case this_node of
        None \<Rightarrow> Some \<lparr>wr_err = None, wr_baton = baton, wr_calls = calls\<rparr>
      | Some tn \<Rightarrow>
          if done then Some \<lparr>wr_err = None, wr_baton = baton, wr_calls = calls\<rparr>
          else
            (case get_node_revision tn fs of
               Inl e \<Rightarrow> Some \<lparr>wr_err = Some e, wr_baton = baton, wr_calls = calls\<rparr>
             | Inr (noderev, _) \<Rightarrow>
                 (case (case predecessor_id noderev of
                          Some p \<Rightarrow> map_sum id Some (svn_fs__dag_get_node fs p)
                        | None \<Rightarrow> Inr None) of
                    Inl e \<Rightarrow> Some \<lparr>wr_err = Some e, wr_baton = baton, wr_calls = calls\<rparr>
                  | Inr this_node \<Rightarrow>
                      (case callback of
                         None \<Rightarrow> walk_loop callback fs done this_node baton calls
                       | Some cb \<Rightarrow>
                           (case cb baton this_node of
                              Inl e \<Rightarrow> Some \<lparr>wr_err = Some e, wr_baton = baton,
                                               wr_calls = calls @ [this_node]\<rparr>
                            | Inr (baton, done) \<Rightarrow>
                                walk_loop callback fs done this_node baton
                                  (calls @ [this_node]))))))"

definition svn_fs__dag_walk_predecessors ::
  "dag_node \<Rightarrow> 'b pred_func option \<Rightarrow> 'b \<Rightarrow> svn_fs \<Rightarrow> 'b walk_result option" where
  "svn_fs__dag_walk_predecessors node callback baton fs =
     walk_loop callback fs False (Some node) baton []"

record is_ancestor_baton =
  node1_id :: svn_fs_id
  is_ancestor :: bool
  need_parent :: bool

definition is_ancestor_callback :: "is_ancestor_baton pred_func" where
  "is_ancestor_callback b node =
     (case node of
        None \<Rightarrow> Inr (b, False)
      | Some n \<Rightarrow>
          (let b = (if svn_fs__id_eq (node1_id b) (dn_id n) then b\<lparr>is_ancestor := True\<rparr> else b)
           in Inr (b, need_parent b)))"

text \<open>\<^verbatim>\<open>svn_fs__dag_is_ancestor\<close> and \<^verbatim>\<open>svn_fs__dag_is_parent\<close>: \<open>None\<close> when the walk does not
  return, else the error or the answer.\<close>

definition svn_fs__dag_is_ancestor :: "dag_node \<Rightarrow> dag_node \<Rightarrow> svn_fs \<Rightarrow> (svn_err + bool) option" where
  "svn_fs__dag_is_ancestor node1 node2 fs =
     (let id1 = dn_id node1; id2 = dn_id node2
      in if \<not> svn_fs_check_related id1 id2 then Some (Inr False)
         else
           let baton = \<lparr>node1_id = id1, is_ancestor = False, need_parent = False\<rparr>
           in case svn_fs__dag_walk_predecessors node2 (Some is_ancestor_callback) baton fs of
                None \<Rightarrow> None
              | Some r \<Rightarrow>
                  (case wr_err r of
                     Some e \<Rightarrow> Some (Inl e)
                   | None \<Rightarrow> Some (Inr (is_ancestor (wr_baton r)))))"

definition svn_fs__dag_is_parent :: "dag_node \<Rightarrow> dag_node \<Rightarrow> svn_fs \<Rightarrow> (svn_err + bool) option" where
  "svn_fs__dag_is_parent node1 node2 fs =
     (let id1 = dn_id node1; id2 = dn_id node2
      in if \<not> svn_fs_check_related id1 id2 then Some (Inr False)
         else
           let baton = \<lparr>node1_id = id1, is_ancestor = False, need_parent = True\<rparr>
           in case svn_fs__dag_walk_predecessors node2 (Some is_ancestor_callback) baton fs of
                None \<Rightarrow> None
              | Some r \<Rightarrow>
                  (case wr_err r of
                     Some e \<Rightarrow> Some (Inl e)
                   | None \<Rightarrow> Some (Inr (is_ancestor (wr_baton r)))))"

subsection \<open>Well-formed stores\<close>

text \<open>Every node revision is stored under its own id, and the node keys in use lie below
  the next key to be handed out.\<close>

definition fs_wf :: "svn_fs \<Rightarrow> bool" where
  "fs_wf fs = (\<forall>i nr. nodes fs i = Some nr \<longrightarrow> nr_id nr = i \<and> node_id i < next_key fs)"

text \<open>A node revision whose predecessor count is known (not negative) and which has a
  predecessor finds it in the store, with a known count that is smaller.\<close>

definition counts_ok :: "svn_fs \<Rightarrow> bool" where
  "counts_ok fs =
     (\<forall>i nr p. nodes fs i = Some nr \<and> 0 \<le> sint (predecessor_count nr)
               \<and> predecessor_id nr = Some p \<longrightarrow>
        (\<exists>pnr. nodes fs p = Some pnr \<and> 0 \<le> sint (predecessor_count pnr)
               \<and> sint (predecessor_count pnr) < sint (predecessor_count nr)))"

text \<open>The ids met by following \<open>predecessor_id\<close> from an id, at most \<open>k\<close> of them.\<close>

fun pred_ids :: "svn_fs \<Rightarrow> nat \<Rightarrow> svn_fs_id \<Rightarrow> svn_fs_id list" where
  "pred_ids fs 0 i = []"
| "pred_ids fs (Suc k) i =
     (case nodes fs i of
        None \<Rightarrow> []
      | Some nr \<Rightarrow> (case predecessor_id nr of None \<Rightarrow> [] | Some p \<Rightarrow> p # pred_ids fs k p))"

text \<open>The predecessor chain of an id ends within \<open>k\<close> steps and every id on it is in the
  store.\<close>

fun chain_resolves :: "svn_fs \<Rightarrow> nat \<Rightarrow> svn_fs_id \<Rightarrow> bool" where
  "chain_resolves fs 0 i = False"
| "chain_resolves fs (Suc k) i =
     (case nodes fs i of
        None \<Rightarrow> False
      | Some nr \<Rightarrow> (case predecessor_id nr of None \<Rightarrow> True | Some p \<Rightarrow> chain_resolves fs k p))"

text \<open>The arguments that the walk from an id hands to the callback, at most \<open>k\<close> of them:
  the handles of the successive predecessors, as \<^verbatim>\<open>svn_fs__dag_get_node\<close> makes them, and
  nil after the node revision that has no predecessor.\<close>

fun pred_args :: "svn_fs \<Rightarrow> nat \<Rightarrow> svn_fs_id \<Rightarrow> dag_node option list" where
  "pred_args fs 0 i = []"
| "pred_args fs (Suc k) i =
     (case nodes fs i of
        None \<Rightarrow> []
      | Some nr \<Rightarrow>
          (case predecessor_id nr of
             None \<Rightarrow> [None]
           | Some p \<Rightarrow>
               (case svn_fs__dag_get_node fs p of
                  Inl e \<Rightarrow> []
                | Inr n \<Rightarrow> Some n # pred_args fs k p)))"

text \<open>The walk as the specification words it, on a list of arguments: the callback is
  invoked on each argument in turn, and the walk ends with the first invocation that
  fails or sets \<^verbatim>\<open>done\<close>, or with the last argument.\<close>

fun walk_predecessors_spec :: "'b pred_func \<Rightarrow> 'b \<Rightarrow> dag_node option list \<Rightarrow> 'b walk_result" where
  "walk_predecessors_spec cb baton [] = \<lparr>wr_err = None, wr_baton = baton, wr_calls = []\<rparr>"
| "walk_predecessors_spec cb baton (x # xs) =
     (case cb baton x of
        Inl e \<Rightarrow> \<lparr>wr_err = Some e, wr_baton = baton, wr_calls = [x]\<rparr>
      | Inr (baton', done) \<Rightarrow>
          if done then \<lparr>wr_err = None, wr_baton = baton', wr_calls = [x]\<rparr>
          else (let r = walk_predecessors_spec cb baton' xs
                in r\<lparr>wr_calls := x # wr_calls r\<rparr>))"
section \<open>libsvn\_wc: the working copy\<close>

subsection \<open>Paths, entries and the state on disk\<close>

text \<open>Modelled from the spec: \<^verbatim>\<open>svn_path_last_component\<close> (svn\_path.h): the basename, what
  follows the last slash of a path.\<close>

definition svn_path_last_component :: "string \<Rightarrow> string" where
  "svn_path_last_component path = rev (takeWhile (\<lambda>c. c \<noteq> CHR ''/'') (rev path))"

text \<open>Modelled from the spec: \<^verbatim>\<open>svn_path_remove_component\<close> (svn\_path.h): the parent
  directory, what precedes the last slash of a path.\<close>

definition svn_path_remove_component :: "string \<Rightarrow> string" where
  "svn_path_remove_component path = rev (drop 1 (dropWhile (\<lambda>c. c \<noteq> CHR ''/'') (rev path)))"

text \<open>Modelled from the spec: \<^verbatim>\<open>svn_path_split\<close> (svn\_path.h): a path splits into
  \<open>(parent_dir, basename)\<close>. \<^verbatim>\<open>svn_path_add_component\<close> is \<open>svn_path_join\<close>.\<close>

definition svn_path_split :: "string \<Rightarrow> string \<times> string" where
  "svn_path_split path = (svn_path_remove_component path, svn_path_last_component path)"

datatype svn_wc_schedule =
  svn_wc_schedule_normal | svn_wc_schedule_add | svn_wc_schedule_delete | svn_wc_schedule_replace

text \<open>The entry record of spec 3.4. The two reject-file fields are the sibling fields of
  \<open>conflicted\<close>; \<open>attributes\<close> holds the entry's attributes by name.\<close>

record svn_wc_entry =
  entry_kind :: svn_node_kind
  url :: string
  revision :: int
  schedule :: svn_wc_schedule
  conflicted :: bool
  text_reject_file :: "string option"
  prop_reject_file :: "string option"
  attributes :: "string \<rightharpoonup> string"

text \<open>Modelled from the spec: \<^verbatim>\<open>SVN_WC_ENTRY_THIS_DIR\<close> (svn\_wc.h): the reserved entry name
  that carries the directory's own attributes.\<close>

definition SVN_WC_ENTRY_THIS_DIR :: string where
  "SVN_WC_ENTRY_THIS_DIR = ''<this-dir>''"

text \<open>Modelled from the spec: \<^verbatim>\<open>SVN_INVALID_REVNUM\<close> (svn\_types.h): the distinguished
  invalid revision number.\<close>

definition SVN_INVALID_REVNUM :: int where
  "SVN_INVALID_REVNUM = - 1"

text \<open>Modelled from the spec: \<^verbatim>\<open>SVN_IS_VALID_REVNUM\<close> (svn\_types.h): revision numbers are
  the non-negative integers.\<close>

definition SVN_IS_VALID_REVNUM :: "int \<Rightarrow> bool" where
  "SVN_IS_VALID_REVNUM n = (0 \<le> n)"

text \<open>What the working-copy routines see: the objects on disk by path, the entries file
  of every directory that has one, the wc-props kept for each path, and the directories
  that \<^verbatim>\<open>svn_wc_check_wc\<close> takes for working copies.\<close>

record wc_state =
  disk :: "string \<rightharpoonup> svn_node_kind"
  entries_of :: "string \<rightharpoonup> (string \<rightharpoonup> svn_wc_entry)"
  wcprops :: "string \<Rightarrow> (string \<rightharpoonup> string)"
  is_wc_dir :: "string \<Rightarrow> bool"

text \<open>Modelled from the spec: \<^verbatim>\<open>svn_io_check_path\<close> (svn\_io.h): the kind of the object at
  a path, \<open>svn_node_none\<close> when there is none.\<close>

definition svn_io_check_path :: "wc_state \<Rightarrow> string \<Rightarrow> svn_err + svn_node_kind" where
  "svn_io_check_path wc path =
     (case disk wc path of None \<Rightarrow> Inr svn_node_none | Some k \<Rightarrow> Inr k)"

text \<open>Modelled from the spec: \<^verbatim>\<open>svn_io_get_dirents\<close> (svn\_io.h): the names present in a
  directory on disk.\<close>

definition svn_io_get_dirents :: "wc_state \<Rightarrow> string \<Rightarrow> svn_err + (string \<Rightarrow> bool)" where
  "svn_io_get_dirents wc path =
     (if disk wc path = Some svn_node_dir
      then Inr (\<lambda>name. disk wc (svn_path_join path name) \<noteq> None)
      else Inl (SVN_ERR_IO ''cannot read directory''))"

text \<open>Modelled from the spec: \<^verbatim>\<open>svn_wc_check_wc\<close> (questions.c) answers whether a directory
  is a working copy. The specification does not say how one is recognised, so the answer
  is a component of the state of its own, \<open>is_wc_dir\<close>: it does not follow from the entries
  file being readable, nor the other way round.\<close>

definition svn_wc_check_wc :: "wc_state \<Rightarrow> string \<Rightarrow> svn_err + bool" where
  "svn_wc_check_wc wc path = Inr (is_wc_dir wc path)"

text \<open>Modelled from the spec: \<^verbatim>\<open>svn_wc_entries_read\<close> (entries.c), \<open>entries_read(dir)\<close>: the
  parsed entries file of a working-copy directory.\<close>

definition svn_wc_entries_read ::
  "wc_state \<Rightarrow> string \<Rightarrow> svn_err + (string \<rightharpoonup> svn_wc_entry)" where
  "svn_wc_entries_read wc path =
     (case entries_of wc path of
        None \<Rightarrow> Inl (SVN_ERR_IO ''not a working copy directory'')
      | Some es \<Rightarrow> Inr es)"

text \<open>Modelled from the spec: \<^verbatim>\<open>svn_wc_entry\<close> (entries.c): the entry of a path is the
  directory's own record when the path is a working-copy directory, else the record under
  its basename in the parent directory.\<close>

definition svn_wc_entry :: "wc_state \<Rightarrow> string \<Rightarrow> svn_err + svn_wc_entry option" where
  "svn_wc_entry wc path =
     (case entries_of wc path of
        Some es \<Rightarrow> Inr (es SVN_WC_ENTRY_THIS_DIR)
      | None \<Rightarrow>
          (case entries_of wc (svn_path_remove_component path) of
             None \<Rightarrow> Inl (SVN_ERR_IO ''not a working copy directory'')
           | Some es \<Rightarrow> Inr (es (svn_path_last_component path))))"

text \<open>The fields that \<^verbatim>\<open>svn_wc__entry_modify\<close> is asked to change in these sources.\<close>

datatype entry_modify_flag =
  SVN_WC__ENTRY_MODIFY_REVISION | SVN_WC__ENTRY_MODIFY_KIND | SVN_WC__ENTRY_MODIFY_ATTRIBUTES

text \<open>An entry record with nothing set.\<close>

definition blank_entry :: svn_wc_entry where
  "blank_entry = \<lparr>entry_kind = svn_node_none, url = [], revision = SVN_INVALID_REVNUM,
                  schedule = svn_wc_schedule_normal, conflicted = False,
                  text_reject_file = None, prop_reject_file = None, attributes = Map.empty\<rparr>"

text \<open>Modelled from the spec: \<^verbatim>\<open>svn_wc__entry_modify\<close> (entries.c),
  \<open>entry_modify(dir, name, fieldset, ...)\<close>: a masked update of one entry record, the
  directory's own when no name is given. A record that does not exist yet is created.\<close>

definition svn_wc__entry_modify ::
  "wc_state \<Rightarrow> string \<Rightarrow> string option \<Rightarrow> entry_modify_flag set \<Rightarrow> int \<Rightarrow> svn_node_kind
     \<Rightarrow> (string \<rightharpoonup> string) \<Rightarrow> svn_err + wc_state" where
  "svn_wc__entry_modify wc path name flags new_rev k atts =
     (case entries_of wc path of
        None \<Rightarrow> Inl (SVN_ERR_IO ''not a working copy directory'')
      | Some es \<Rightarrow>
          let key = (case name of None \<Rightarrow> SVN_WC_ENTRY_THIS_DIR | Some n \<Rightarrow> n);
              e0 = (case es key of None \<Rightarrow> blank_entry | Some e \<Rightarrow> e);
              e1 = (if SVN_WC__ENTRY_MODIFY_REVISION \<in> flags then e0\<lparr>revision := new_rev\<rparr> else e0);
              e2 = (if SVN_WC__ENTRY_MODIFY_KIND \<in> flags then e1\<lparr>entry_kind := k\<rparr> else e1);
              e3 = (if SVN_WC__ENTRY_MODIFY_ATTRIBUTES \<in> flags
                    then e2\<lparr>attributes := attributes e2 ++ atts\<rparr> else e2)
          in Inr (wc\<lparr>entries_of := (entries_of wc)(path \<mapsto> es(key \<mapsto> e3))\<rparr>))"

text \<open>Modelled from the spec: \<^verbatim>\<open>SVN_PROP_WC_PREFIX\<close> (svn\_props.h): the namespace \<^verbatim>\<open>svn:wc:\<close>
  of the wc-props (spec section 6).\<close>

definition SVN_PROP_WC_PREFIX :: string where
  "SVN_PROP_WC_PREFIX = ''svn:wc:''"

text \<open>Modelled from the spec: \<^verbatim>\<open>SVN_PROP_ENTRY_PREFIX\<close> (svn\_props.h): the namespace
  \<^verbatim>\<open>svn:entry:\<close> of the entry-props (spec section 6).\<close>

definition SVN_PROP_ENTRY_PREFIX :: string where
  "SVN_PROP_ENTRY_PREFIX = ''svn:entry:''"

text \<open>A string starts with a prefix.\<close>

definition has_prefix :: "string \<Rightarrow> string \<Rightarrow> bool" where
  "has_prefix p s = (take (length p) s = p)"

text \<open>Modelled from the spec: \<^verbatim>\<open>svn_wc_is_wc_prop\<close> (props.c): the name is in the wc-prop
  namespace.\<close>

definition svn_wc_is_wc_prop :: "string \<Rightarrow> bool" where
  "svn_wc_is_wc_prop name = has_prefix SVN_PROP_WC_PREFIX name"

text \<open>Modelled from the spec: \<^verbatim>\<open>svn_wc_is_entry_prop\<close> (props.c): the name is in the
  entry-prop namespace.\<close>

definition svn_wc_is_entry_prop :: "string \<Rightarrow> bool" where
  "svn_wc_is_entry_prop name = has_prefix SVN_PROP_ENTRY_PREFIX name"

text \<open>Modelled from the spec: \<^verbatim>\<open>svn_wc__strip_entry_prefix\<close> (props.c): the entry-prop prefix
  is dropped from a name that has it.\<close>

definition svn_wc__strip_entry_prefix :: "string \<Rightarrow> string" where
  "svn_wc__strip_entry_prefix name =
     (if has_prefix SVN_PROP_ENTRY_PREFIX name then drop (length SVN_PROP_ENTRY_PREFIX) name
      else name)"

subsection \<open>status.c\<close>

datatype svn_wc_status_kind =
    svn_wc_status_none
  | svn_wc_status_added
  | svn_wc_status_deleted
  | svn_wc_status_replaced
  | svn_wc_status_modified
  | svn_wc_status_conflicted

record svn_wc_status =
  st_entry :: "svn_wc_entry option"
  repos_rev :: int
  text_status :: svn_wc_status_kind
  prop_status :: svn_wc_status_kind

text \<open>The content comparisons that the working-copy library makes on files are not part of
  the sources; their answers are parameters. Each takes the path of the working file.\<close>

record wc_questions =
  svn_wc_props_modified_p :: "string \<Rightarrow> svn_err + bool"
  svn_wc_text_modified_p :: "string \<Rightarrow> svn_err + bool"
  svn_wc_has_binary_prop :: "string \<Rightarrow> svn_err + bool"

text \<open>Modelled from the spec: \<^verbatim>\<open>svn_wc__prop_path\<close>, the property file \<^verbatim>\<open>adm/props/<name>\<close> of
  spec 3.5.\<close>

definition svn_wc__prop_path :: "string \<Rightarrow> svn_err + string" where
  "svn_wc__prop_path path =
     Inr (svn_path_join (svn_path_join (svn_path_remove_component path) ''adm/props'')
            (svn_path_last_component path))"

text \<open>Modelled from the spec: \<^verbatim>\<open>svn_wc_conflicted_p\<close>: a component is in conflict when the
  entry names a reject file for it and that file still exists in the directory.\<close>

definition svn_wc_conflicted_p ::
  "wc_state \<Rightarrow> string \<Rightarrow> svn_wc_entry \<Rightarrow> svn_err + (bool \<times> bool)" where
  "svn_wc_conflicted_p wc dir_path entry =
     Inr ((case text_reject_file entry of
             None \<Rightarrow> False
           | Some f \<Rightarrow> disk wc (svn_path_join dir_path f) = Some svn_node_file),
          (case prop_reject_file entry of
             None \<Rightarrow> False
           | Some f \<Rightarrow> disk wc (svn_path_join dir_path f) = Some svn_node_file))"

text \<open>\<^verbatim>\<open>assemble_status\<close>. For an entry that is neither a file nor a directory the source
  passes an uninitialised \<^verbatim>\<open>parent_dir\<close> on; that read is reported as \<open>ABORTED\<close>.\<close>

definition assemble_status ::
  "wc_questions \<Rightarrow> wc_state \<Rightarrow> string \<Rightarrow> svn_wc_entry option \<Rightarrow> svn_err + svn_wc_status" where
  "assemble_status q wc path entry =
     (let status = \<lparr>st_entry = entry, repos_rev = SVN_INVALID_REVNUM,
                     text_status = svn_wc_status_none, prop_status = svn_wc_status_none\<rparr>
      in case entry of
           None \<Rightarrow> Inr status
         | Some entry \<Rightarrow>
            (case svn_wc__prop_path path of
               Inl e \<Rightarrow> Inl e
             | Inr prop_path \<Rightarrow>
            (case svn_io_check_path wc prop_path of
               Inl e \<Rightarrow> Inl e
             | Inr prop_kind \<Rightarrow>
            (let prop_exists = (prop_kind = svn_node_file)
             in case (if prop_exists then svn_wc_props_modified_p q path else Inr False) of
               Inl e \<Rightarrow> Inl e
             | Inr prop_modified_p \<Rightarrow>
            (case (if entry_kind entry = svn_node_file then svn_wc_text_modified_p q path
                   else Inr False) of
               Inl e \<Rightarrow> Inl e
             | Inr text_modified_p \<Rightarrow>
            (let status = (if text_modified_p
                           then status\<lparr>text_status := svn_wc_status_modified\<rparr> else status);
                 status = (if prop_modified_p
                           then status\<lparr>prop_status := svn_wc_status_modified\<rparr> else status);
                 status =
                   (if schedule entry = svn_wc_schedule_add
                    then (let status = status\<lparr>text_status := svn_wc_status_added\<rparr>
                          in if prop_exists
                             then status\<lparr>prop_status := svn_wc_status_added\<rparr> else status)
                    else if schedule entry = svn_wc_schedule_replace
                    then (let status = status\<lparr>text_status := svn_wc_status_replaced\<rparr>
                          in if prop_exists
                             then status\<lparr>prop_status := svn_wc_status_replaced\<rparr> else status)
                    else if schedule entry = svn_wc_schedule_delete
                    then (let status = status\<lparr>text_status := svn_wc_status_deleted\<rparr>
                          in if prop_exists
                             then status\<lparr>prop_status := svn_wc_status_deleted\<rparr> else status)
                    else status)
             in if conflicted entry
                then
                  (case (if entry_kind entry = svn_node_file
                         then Inr (svn_path_remove_component path)
                         else if entry_kind entry = svn_node_dir then Inr path
                         else Inl ABORTED) of
                     Inl e \<Rightarrow> Inl e
                   | Inr parent_dir \<Rightarrow>
                       (case svn_wc_conflicted_p wc parent_dir entry of
                          Inl e \<Rightarrow> Inl e
                        | Inr (text_conflict_p, prop_conflict_p) \<Rightarrow>
                            (let status = (if text_conflict_p
                                           then status\<lparr>text_status := svn_wc_status_conflicted\<rparr>
                                           else status);
                                 status = (if prop_conflict_p
                                           then status\<lparr>prop_status := svn_wc_status_conflicted\<rparr>
                                           else status)
                             in Inr status)))
                else Inr status))))))"

subsection \<open>update\_editor.c: batons\<close>

record svn_prop =
  prop_name :: string
  prop_value :: "string option"

record edit_baton =
  anchor :: string
  target :: "string option"
  target_revision :: int
  recurse :: bool
  is_checkout :: bool
  ancestor_url :: string
  is_switch :: bool
  switch_url :: string

text \<open>A directory baton. The pointer to the parent baton is an address in the editor's
  table of directory batons; the pointer to the edit baton is the one edit baton of the
  editor.\<close>

record dir_baton =
  db_path :: string
  db_name :: "string option"
  db_URL :: string
  db_disjoint_url :: bool
  ref_count :: int
  parent_baton :: "nat option"
  db_prop_changed :: bool
  added :: bool
  db_propchanges :: "svn_prop list"

record file_baton =
  fb_dir_baton :: nat
  fb_name :: string
  fb_path :: string
  fb_URL :: string
  fb_disjoint_url :: bool
  text_changed :: bool
  fb_prop_changed :: bool
  fb_propchanges :: "svn_prop list"

record editor =
  eb :: edit_baton
  dir_batons :: "nat \<rightharpoonup> dir_baton"
  next_baton :: nat
  ed_wc :: wc_state

text \<open>\<^verbatim>\<open>make_dir_baton\<close>. The parent, when there is one, is given by its address and has
  its reference count raised. A missing name adds no path component.\<close>

definition make_dir_baton ::
  "string option \<Rightarrow> nat option \<Rightarrow> bool \<Rightarrow> editor \<Rightarrow> nat \<times> editor" where
  "make_dir_baton name parent_addr is_added ed =
     (let parent = (case parent_addr of None \<Rightarrow> None | Some a \<Rightarrow> dir_batons ed a);
          nm = (case name of None \<Rightarrow> [] | Some n \<Rightarrow> n);
          path0 = (case parent of Some p \<Rightarrow> db_path p | None \<Rightarrow> anchor (eb ed));
          path = (case name of Some n \<Rightarrow> svn_path_join path0 n | None \<Rightarrow> path0);
          (URL, disjoint) =
            (if is_checkout (eb ed)
             then ((case parent of
                      Some p \<Rightarrow> svn_path_join (db_URL p) nm
                    | None \<Rightarrow> ancestor_url (eb ed)), False)
             else
               (let URL = (case svn_wc_entry (ed_wc ed) path of
                             Inl e \<Rightarrow> []
                           | Inr None \<Rightarrow> []
                           | Inr (Some entry) \<Rightarrow> url entry)
                in (URL, (case parent of
                            Some p \<Rightarrow> db_disjoint_url p \<or> svn_path_join (db_URL p) nm \<noteq> URL
                          | None \<Rightarrow> False))));
          d = \<lparr>db_path = path, db_name = name, db_URL = URL, db_disjoint_url = disjoint,
               ref_count = 1, parent_baton = parent_addr, db_prop_changed = False,
               added = is_added, db_propchanges = []\<rparr>;
          a = next_baton ed;
          batons = (dir_batons ed)(a \<mapsto> d);
          batons = (case (parent_addr, parent) of
                      (Some pa, Some p) \<Rightarrow> batons(pa \<mapsto> p\<lparr>ref_count := ref_count p + 1\<rparr>)
                    | _ \<Rightarrow> batons)
      in (a, ed\<lparr>dir_batons := batons, next_baton := Suc a\<rparr>))"

text \<open>\<^verbatim>\<open>make_file_baton\<close>: the parent directory baton has its reference count raised.\<close>

definition make_file_baton :: "nat \<Rightarrow> dir_baton \<Rightarrow> string \<Rightarrow> editor \<Rightarrow> file_baton \<times> editor" where
  "make_file_baton pa parent_dir_baton name ed =
     (let path = svn_path_join (db_path parent_dir_baton) name;
          (URL, disjoint) =
            (if is_checkout (eb ed)
             then (svn_path_join (db_URL parent_dir_baton) name, False)
             else
               (let URL = (case svn_wc_entry (ed_wc ed) path of
                             Inl e \<Rightarrow> []
                           | Inr None \<Rightarrow> []
                           | Inr (Some entry) \<Rightarrow> url entry)
                in (URL, db_disjoint_url parent_dir_baton
                         \<or> svn_path_join (db_URL parent_dir_baton) name \<noteq> URL)));
          f = \<lparr>fb_dir_baton = pa, fb_name = name, fb_path = path, fb_URL = URL,
               fb_disjoint_url = disjoint, text_changed = False, fb_prop_changed = False,
               fb_propchanges = []\<rparr>
      in (f, ed\<lparr>dir_batons := (dir_batons ed)
                  (pa \<mapsto> parent_dir_baton\<lparr>ref_count := ref_count parent_dir_baton + 1\<rparr>)\<rparr>))"

subsection \<open>update\_editor.c: directories\<close>

text \<open>Modelled from the spec: \<^verbatim>\<open>svn_wc__ensure_directory\<close> (adm\_files.c): the directory is
  created when it is missing.\<close>

definition svn_wc__ensure_directory :: "wc_state \<Rightarrow> string \<Rightarrow> svn_err + wc_state" where
  "svn_wc__ensure_directory w path =
     (case disk w path of
        None \<Rightarrow> Inr (w\<lparr>disk := (disk w)(path \<mapsto> svn_node_dir)\<rparr>)
      | Some k \<Rightarrow> if k = svn_node_dir then Inr w
                  else Inl (SVN_ERR_IO ''not a directory''))"

text \<open>Modelled from the spec: \<^verbatim>\<open>svn_wc__ensure_wc\<close> (adm\_files.c): the directory is seeded
  as a working copy of the URL at the revision, or checked to be one for that URL already.\<close>

definition svn_wc__ensure_wc :: "wc_state \<Rightarrow> string \<Rightarrow> string \<Rightarrow> int \<Rightarrow> svn_err + wc_state" where
  "svn_wc__ensure_wc w path ancestor_path ancestor_revision =
     (case entries_of w path of
        None \<Rightarrow>
          Inr (w\<lparr>entries_of := (entries_of w)(path \<mapsto>
                 [SVN_WC_ENTRY_THIS_DIR \<mapsto>
                    blank_entry\<lparr>entry_kind := svn_node_dir, url := ancestor_path,
                                 revision := ancestor_revision\<rparr>]),
                 is_wc_dir := (is_wc_dir w)(path := True)\<rparr>)
      | Some es \<Rightarrow>
          (case es SVN_WC_ENTRY_THIS_DIR of
             None \<Rightarrow> Inl SVN_ERR_WC_OBSTRUCTED_UPDATE
           | Some e \<Rightarrow> if url e = ancestor_path then Inr w
                       else Inl SVN_ERR_WC_OBSTRUCTED_UPDATE))"

definition prep_directory ::
  "wc_state \<Rightarrow> string \<Rightarrow> string \<Rightarrow> int \<Rightarrow> bool \<Rightarrow> svn_err + wc_state" where
  "prep_directory w path anc_url ancestor_revision force =
     (case (if force then svn_wc__ensure_directory w path else Inr w) of
        Inl e \<Rightarrow> Inl e
      | Inr w \<Rightarrow> svn_wc__ensure_wc w path anc_url ancestor_revision)"

text \<open>\<^verbatim>\<open>add_directory\<close>: the result is the address of the new baton and the editor. A parent
  address with no baton, or a parent directory with no entry of its own, is a pointer the
  source follows without a check; both are reported as \<open>ABORTED\<close>, as is the \<^verbatim>\<open>abort ()\<close> on
  a half-given copyfrom pair.\<close>

definition add_directory ::
  "string \<Rightarrow> nat \<Rightarrow> string option \<Rightarrow> int \<Rightarrow> editor \<Rightarrow> svn_err + (nat \<times> editor)" where
  "add_directory name pa cf_path cf_revision ed =
     (case dir_batons ed pa of
        None \<Rightarrow> Inl ABORTED
      | Some parent_dir_baton \<Rightarrow>
         (let (this_addr, ed) = make_dir_baton (Some name) (Some pa) True ed
          in case dir_batons ed this_addr of
               None \<Rightarrow> Inl ABORTED
             | Some this_dir_baton \<Rightarrow>
          if (cf_path \<noteq> None \<and> \<not> SVN_IS_VALID_REVNUM cf_revision)
             \<or> (cf_path = None \<and> SVN_IS_VALID_REVNUM cf_revision)
          then Inl ABORTED
          else case svn_io_check_path (ed_wc ed) (db_path this_dir_baton) of
            Inl e \<Rightarrow> Inl e
          | Inr k \<Rightarrow>
              if k \<noteq> svn_node_none then Inl SVN_ERR_WC_OBSTRUCTED_UPDATE
              else if cf_path \<noteq> None \<or> SVN_IS_VALID_REVNUM cf_revision
              then Inl SVN_ERR_UNSUPPORTED_FEATURE
              else
                (case svn_wc_entry (ed_wc ed) (db_path parent_dir_baton) of
                   Inl e \<Rightarrow> Inl e
                 | Inr None \<Rightarrow> Inl ABORTED
                 | Inr (Some parent_entry) \<Rightarrow>
                     (let new_URL = svn_path_join (url parent_entry) name;
                          cf_path = new_URL;
                          cf_revision = target_revision (eb ed)
                      in case prep_directory (ed_wc ed) (db_path this_dir_baton) cf_path
                                cf_revision True of
                           Inl e \<Rightarrow> Inl e
                         | Inr w \<Rightarrow> Inr (this_addr, ed\<lparr>ed_wc := w\<rparr>)))))"

text \<open>Modelled from the spec: \<^verbatim>\<open>svn_wc__wcprop_set\<close>: a wc-prop is stored out of band, for
  the path; no value removes it.\<close>

definition svn_wc__wcprop_set ::
  "wc_state \<Rightarrow> string \<Rightarrow> string option \<Rightarrow> string \<Rightarrow> svn_err + wc_state" where
  "svn_wc__wcprop_set w name val path =
     Inr (w\<lparr>wcprops := (wcprops w)(path := (wcprops w path)(name := val))\<rparr>)"

text \<open>\<^verbatim>\<open>change_dir_prop\<close>.\<close>

definition change_dir_prop ::
  "nat \<Rightarrow> string \<Rightarrow> string option \<Rightarrow> editor \<Rightarrow> svn_err + editor" where
  "change_dir_prop da name val ed =
     (case dir_batons ed da of
        None \<Rightarrow> Inl ABORTED
      | Some db \<Rightarrow>
          let local_name = name; local_value = val
          in if svn_wc_is_wc_prop name
             then (case svn_wc__wcprop_set (ed_wc ed) name local_value (db_path db) of
                     Inl e \<Rightarrow> Inl e
                   | Inr w \<Rightarrow> Inr (ed\<lparr>ed_wc := w\<rparr>))
             else if svn_wc_is_entry_prop name
             then
               (let local_name = svn_wc__strip_entry_prefix local_name;
                    att_hash = (case local_value of
                                  Some v \<Rightarrow> [local_name \<mapsto> v]
                                | None \<Rightarrow> [local_name \<mapsto> []])
                in case svn_wc__entry_modify (ed_wc ed) (db_path db) None
                          {SVN_WC__ENTRY_MODIFY_ATTRIBUTES} SVN_INVALID_REVNUM svn_node_none
                          att_hash of
                     Inl e \<Rightarrow> Inl e
                   | Inr w \<Rightarrow> Inr (ed\<lparr>ed_wc := w\<rparr>))
             else
               (let propchange = \<lparr>prop_name = local_name, prop_value = local_value\<rparr>;
                    db = db\<lparr>db_propchanges := db_propchanges db @ [propchange],
                            db_prop_changed := True\<rparr>
                in Inr (ed\<lparr>dir_batons := (dir_batons ed)(da \<mapsto> db)\<rparr>)))"

subsection \<open>update\_editor.c: files\<close>

text \<open>\<^verbatim>\<open>add_or_open_file\<close>, \<^verbatim>\<open>add_file\<close> and \<^verbatim>\<open>open_file\<close>.\<close>

definition add_or_open_file ::
  "string \<Rightarrow> nat \<Rightarrow> string option \<Rightarrow> int \<Rightarrow> bool \<Rightarrow> editor \<Rightarrow> svn_err + (file_baton \<times> editor)" where
  "add_or_open_file name pa anc_url ancestor_revision adding ed =
     (case dir_batons ed pa of
        None \<Rightarrow> Inl ABORTED
      | Some parent_dir_baton \<Rightarrow>
         (let (fb, ed) = make_file_baton pa parent_dir_baton name ed
          in case svn_io_get_dirents (ed_wc ed) (db_path parent_dir_baton) of
               Inl e \<Rightarrow> Inl e
             | Inr dirents \<Rightarrow>
                 (case svn_wc_entries_read (ed_wc ed) (db_path parent_dir_baton) of
                    Inl e \<Rightarrow> Inl e
                  | Inr entries \<Rightarrow>
                      (let entry = entries name
                       in if adding \<and> dirents name then Inl SVN_ERR_WC_OBSTRUCTED_UPDATE
                          else if \<not> adding \<and> entry = None then Inl SVN_ERR_ENTRY_NOT_FOUND
                          else case svn_wc_check_wc (ed_wc ed) (db_path parent_dir_baton) of
                                 Inl e \<Rightarrow> Inl e
                               | Inr is_wc \<Rightarrow>
                                   if \<not> is_wc then Inl SVN_ERR_WC_OBSTRUCTED_UPDATE
                                   else Inr (fb, ed)))))"

definition add_file ::
  "string \<Rightarrow> nat \<Rightarrow> string option \<Rightarrow> int \<Rightarrow> editor \<Rightarrow> svn_err + (file_baton \<times> editor)" where
  "add_file name pa cf_path cf_revision ed =
     add_or_open_file name pa cf_path cf_revision True ed"

definition open_file :: "string \<Rightarrow> nat \<Rightarrow> int \<Rightarrow> editor \<Rightarrow> svn_err + (file_baton \<times> editor)" where
  "open_file name pa base_revision ed =
     add_or_open_file name pa None base_revision False ed"

subsection \<open>update\_editor.c: the log and its commands\<close>

text \<open>A log command is a tag with attributes. The tags are those of the grammar in spec
  4.3.\<close>

datatype log_tag =
    SVN_WC__LOG_MODIFY_ENTRY
  | SVN_WC__LOG_DELETE_ENTRY
  | SVN_WC__LOG_CP
  | SVN_WC__LOG_MV
  | SVN_WC__LOG_RM
  | SVN_WC__LOG_READONLY
  | SVN_WC__LOG_RUN_CMD
  | SVN_WC__LOG_DETECT_CONFLICT

datatype log_cmd = LogCmd (log_tag: log_tag) (log_attrs: "(string \<times> string) list")

text \<open>The attribute names and values of the log commands, the entry fields and the file
  extensions are macros of headers that are not part of the sources. Each is given below the
  word that the spec uses for it.\<close>

text \<open>Modelled from the spec: \<^verbatim>\<open>SVN_WC__LOG_ATTR_NAME\<close> (wc.h): the \<^verbatim>\<open>name\<close> attribute of a log command.\<close>

definition SVN_WC__LOG_ATTR_NAME :: string where
  "SVN_WC__LOG_ATTR_NAME = ''name''"

text \<open>Modelled from the spec: \<^verbatim>\<open>SVN_WC__LOG_ATTR_DEST\<close> (wc.h): the destination attribute of a \<^verbatim>\<open>CP\<close> or \<^verbatim>\<open>MV\<close> command.\<close>

definition SVN_WC__LOG_ATTR_DEST :: string where
  "SVN_WC__LOG_ATTR_DEST = ''dest''"

text \<open>Modelled from the spec: \<^verbatim>\<open>SVN_WC__LOG_ATTR_EOL_STR\<close> (wc.h): the \<^verbatim>\<open>eol\<close> attribute of a \<^verbatim>\<open>CP\<close> command.\<close>

definition SVN_WC__LOG_ATTR_EOL_STR :: string where
  "SVN_WC__LOG_ATTR_EOL_STR = ''eol''"

text \<open>Modelled from the spec: \<^verbatim>\<open>SVN_WC__LOG_ATTR_REPAIR\<close> (wc.h): the \<^verbatim>\<open>repair\<close> attribute of a \<^verbatim>\<open>CP\<close> command.\<close>

definition SVN_WC__LOG_ATTR_REPAIR :: string where
  "SVN_WC__LOG_ATTR_REPAIR = ''repair''"

text \<open>Modelled from the spec: \<^verbatim>\<open>SVN_WC__LOG_ATTR_REVISION\<close> (wc.h): the keyword revision attribute of a \<^verbatim>\<open>CP\<close> command.\<close>

definition SVN_WC__LOG_ATTR_REVISION :: string where
  "SVN_WC__LOG_ATTR_REVISION = ''revision''"

text \<open>Modelled from the spec: \<^verbatim>\<open>SVN_WC__LOG_ATTR_DATE\<close> (wc.h): the keyword date attribute of a \<^verbatim>\<open>CP\<close> command.\<close>

definition SVN_WC__LOG_ATTR_DATE :: string where
  "SVN_WC__LOG_ATTR_DATE = ''date''"

text \<open>Modelled from the spec: \<^verbatim>\<open>SVN_WC__LOG_ATTR_AUTHOR\<close> (wc.h): the keyword author attribute of a \<^verbatim>\<open>CP\<close> command.\<close>

definition SVN_WC__LOG_ATTR_AUTHOR :: string where
  "SVN_WC__LOG_ATTR_AUTHOR = ''author''"

text \<open>Modelled from the spec: \<^verbatim>\<open>SVN_WC__LOG_ATTR_URL\<close> (wc.h): the keyword url attribute of a \<^verbatim>\<open>CP\<close> command.\<close>

definition SVN_WC__LOG_ATTR_URL :: string where
  "SVN_WC__LOG_ATTR_URL = ''url''"

text \<open>Modelled from the spec: \<^verbatim>\<open>SVN_WC__LOG_ATTR_EXPAND\<close> (wc.h): the \<^verbatim>\<open>expand\<close> attribute of a \<^verbatim>\<open>CP\<close> command.\<close>

definition SVN_WC__LOG_ATTR_EXPAND :: string where
  "SVN_WC__LOG_ATTR_EXPAND = ''expand''"

text \<open>Modelled from the spec: \<^verbatim>\<open>SVN_WC__LOG_ATTR_INFILE\<close> (wc.h): the \<^verbatim>\<open>infile\<close> attribute of a \<^verbatim>\<open>RUN_CMD\<close> command.\<close>

definition SVN_WC__LOG_ATTR_INFILE :: string where
  "SVN_WC__LOG_ATTR_INFILE = ''infile''"

text \<open>Modelled from the spec: \<^verbatim>\<open>SVN_WC__LOG_ATTR_ARG_1\<close> (wc.h): argument 1 of a \<^verbatim>\<open>RUN_CMD\<close> command.\<close>

definition SVN_WC__LOG_ATTR_ARG_1 :: string where
  "SVN_WC__LOG_ATTR_ARG_1 = ''arg1''"

text \<open>Modelled from the spec: \<^verbatim>\<open>SVN_WC__LOG_ATTR_ARG_2\<close> (wc.h): argument 2 of a \<^verbatim>\<open>RUN_CMD\<close> command.\<close>

definition SVN_WC__LOG_ATTR_ARG_2 :: string where
  "SVN_WC__LOG_ATTR_ARG_2 = ''arg2''"

text \<open>Modelled from the spec: \<^verbatim>\<open>SVN_WC__LOG_ATTR_ARG_3\<close> (wc.h): argument 3 of a \<^verbatim>\<open>RUN_CMD\<close> command.\<close>

definition SVN_WC__LOG_ATTR_ARG_3 :: string where
  "SVN_WC__LOG_ATTR_ARG_3 = ''arg3''"

text \<open>Modelled from the spec: \<^verbatim>\<open>SVN_WC__LOG_ATTR_ARG_4\<close> (wc.h): argument 4 of a \<^verbatim>\<open>RUN_CMD\<close> command.\<close>

definition SVN_WC__LOG_ATTR_ARG_4 :: string where
  "SVN_WC__LOG_ATTR_ARG_4 = ''arg4''"

text \<open>Modelled from the spec: \<^verbatim>\<open>SVN_WC__LOG_ATTR_ARG_5\<close> (wc.h): argument 5 of a \<^verbatim>\<open>RUN_CMD\<close> command.\<close>

definition SVN_WC__LOG_ATTR_ARG_5 :: string where
  "SVN_WC__LOG_ATTR_ARG_5 = ''arg5''"

text \<open>Modelled from the spec: \<^verbatim>\<open>SVN_WC__LOG_ATTR_ARG_6\<close> (wc.h): argument 6 of a \<^verbatim>\<open>RUN_CMD\<close> command.\<close>

definition SVN_WC__LOG_ATTR_ARG_6 :: string where
  "SVN_WC__LOG_ATTR_ARG_6 = ''arg6''"

text \<open>Modelled from the spec: \<^verbatim>\<open>SVN_WC_ENTRY_ATTR_KIND\<close> (svn\_wc.h): the entry field \<^verbatim>\<open>kind\<close>.\<close>

definition SVN_WC_ENTRY_ATTR_KIND :: string where
  "SVN_WC_ENTRY_ATTR_KIND = ''kind''"

text \<open>Modelled from the spec: \<^verbatim>\<open>SVN_WC_ENTRY_ATTR_REVISION\<close> (svn\_wc.h): the entry field \<^verbatim>\<open>revision\<close>.\<close>

definition SVN_WC_ENTRY_ATTR_REVISION :: string where
  "SVN_WC_ENTRY_ATTR_REVISION = ''revision''"

text \<open>Modelled from the spec: \<^verbatim>\<open>SVN_WC_ENTRY_ATTR_TEXT_TIME\<close> (svn\_wc.h): the entry field \<^verbatim>\<open>text_time\<close>.\<close>

definition SVN_WC_ENTRY_ATTR_TEXT_TIME :: string where
  "SVN_WC_ENTRY_ATTR_TEXT_TIME = ''text_time''"

text \<open>Modelled from the spec: \<^verbatim>\<open>SVN_WC_ENTRY_ATTR_PROP_TIME\<close> (svn\_wc.h): the entry field \<^verbatim>\<open>prop_time\<close>.\<close>

definition SVN_WC_ENTRY_ATTR_PROP_TIME :: string where
  "SVN_WC_ENTRY_ATTR_PROP_TIME = ''prop_time''"

text \<open>Modelled from the spec: \<^verbatim>\<open>SVN_WC_ENTRY_ATTR_URL\<close> (svn\_wc.h): the entry field \<^verbatim>\<open>url\<close>.\<close>

definition SVN_WC_ENTRY_ATTR_URL :: string where
  "SVN_WC_ENTRY_ATTR_URL = ''url''"

text \<open>Modelled from the spec: \<^verbatim>\<open>SVN_WC_ENTRY_ATTR_REJFILE\<close> (svn\_wc.h): the \<^verbatim>\<open>reject\<close> attribute of a \<^verbatim>\<open>DETECT_CONFLICT\<close> command.\<close>

definition SVN_WC_ENTRY_ATTR_REJFILE :: string where
  "SVN_WC_ENTRY_ATTR_REJFILE = ''reject''"

text \<open>Modelled from the spec: \<^verbatim>\<open>SVN_WC__ENTRIES_ATTR_FILE_STR\<close> (wc.h): the value \<^verbatim>\<open>file\<close> of the field \<^verbatim>\<open>kind\<close>.\<close>

definition SVN_WC__ENTRIES_ATTR_FILE_STR :: string where
  "SVN_WC__ENTRIES_ATTR_FILE_STR = ''file''"

text \<open>Modelled from the spec: \<^verbatim>\<open>SVN_WC_TIMESTAMP_WC\<close> (svn\_wc.h): the value \<^verbatim>\<open>WC\<close> of a time field, the time of the working file at replay.\<close>

definition SVN_WC_TIMESTAMP_WC :: string where
  "SVN_WC_TIMESTAMP_WC = ''WC''"

text \<open>Modelled from the spec: \<^verbatim>\<open>SVN_ENTRY_ATTR_COMMITTED_REV\<close> (svn\_props.h): the entry field \<^verbatim>\<open>committed_rev\<close>.\<close>

definition SVN_ENTRY_ATTR_COMMITTED_REV :: string where
  "SVN_ENTRY_ATTR_COMMITTED_REV = ''committed_rev''"

text \<open>Modelled from the spec: \<^verbatim>\<open>SVN_ENTRY_ATTR_COMMITTED_DATE\<close> (svn\_props.h): the entry field \<^verbatim>\<open>committed_date\<close>.\<close>

definition SVN_ENTRY_ATTR_COMMITTED_DATE :: string where
  "SVN_ENTRY_ATTR_COMMITTED_DATE = ''committed_date''"

text \<open>Modelled from the spec: \<^verbatim>\<open>SVN_ENTRY_ATTR_LAST_AUTHOR\<close> (svn\_props.h): the entry field \<^verbatim>\<open>last_author\<close>.\<close>

definition SVN_ENTRY_ATTR_LAST_AUTHOR :: string where
  "SVN_ENTRY_ATTR_LAST_AUTHOR = ''last_author''"

text \<open>Modelled from the spec: \<^verbatim>\<open>SVN_PROP_EOL_STYLE\<close> (svn\_props.h): the well-known property \<^verbatim>\<open>svn:eol-style\<close>.\<close>

definition SVN_PROP_EOL_STYLE :: string where
  "SVN_PROP_EOL_STYLE = ''svn:eol-style''"

text \<open>Modelled from the spec: \<^verbatim>\<open>SVN_PROP_KEYWORDS\<close> (svn\_props.h): the well-known property \<^verbatim>\<open>svn:keywords\<close>.\<close>

definition SVN_PROP_KEYWORDS :: string where
  "SVN_PROP_KEYWORDS = ''svn:keywords''"

text \<open>Modelled from the spec: \<^verbatim>\<open>SVN_CLIENT_PATCH\<close> (svn\_private\_config.h): the external program \<^verbatim>\<open>patch\<close>.\<close>

definition SVN_CLIENT_PATCH :: string where
  "SVN_CLIENT_PATCH = ''patch''"

text \<open>Modelled from the spec: \<^verbatim>\<open>SVN_WC__DIFF_EXT\<close> (wc.h): the extension of a patch file (a name chosen here).\<close>

definition SVN_WC__DIFF_EXT :: string where
  "SVN_WC__DIFF_EXT = ''.diff''"

text \<open>Modelled from the spec: \<^verbatim>\<open>SVN_WC__BASE_EXT\<close> (wc.h): the extension \<^verbatim>\<open>.base\<close> of a text-base file.\<close>

definition SVN_WC__BASE_EXT :: string where
  "SVN_WC__BASE_EXT = ''.base''"

text \<open>Modelled from the spec: \<^verbatim>\<open>SVN_WC__TMP_EXT\<close> (wc.h): the extension of a scratch file (a name chosen here).\<close>

definition SVN_WC__TMP_EXT :: string where
  "SVN_WC__TMP_EXT = ''.tmp''"

text \<open>Modelled from the spec: \<^verbatim>\<open>SVN_WC__TEXT_REJ_EXT\<close> (wc.h): the extension of a reject file (a name chosen here).\<close>

definition SVN_WC__TEXT_REJ_EXT :: string where
  "SVN_WC__TEXT_REJ_EXT = ''.rej''"

text \<open>The attributes that a hash keeps of a list of name/value pairs: a name given twice
  keeps its last value.\<close>

fun attr_hash :: "(string \<times> string) list \<Rightarrow> (string \<times> string) list" where
  "attr_hash [] = []"
| "attr_hash ((k, v) # ps) =
     (if k \<in> fst ` set ps then attr_hash ps else (k, v) # attr_hash ps)"

text \<open>Modelled from the spec: \<^verbatim>\<open>svn_xml_make_open_tag_hash\<close> (svn\_xml.h): one self-closing
  record, a command of the grammar of spec 4.3, is appended to the log text.\<close>

definition svn_xml_make_open_tag_hash ::
  "log_cmd list \<Rightarrow> log_tag \<Rightarrow> (string \<times> string) list \<Rightarrow> log_cmd list" where
  "svn_xml_make_open_tag_hash entry_accum tagname hash = entry_accum @ [LogCmd tagname hash]"

text \<open>Modelled from the spec: \<^verbatim>\<open>svn_xml_make_open_tag\<close> (svn\_xml.h): the same, with the
  name/value pairs of the argument list put into a hash first.\<close>

definition svn_xml_make_open_tag ::
  "log_cmd list \<Rightarrow> log_tag \<Rightarrow> (string \<times> string) list \<Rightarrow> log_cmd list" where
  "svn_xml_make_open_tag entry_accum tagname pairs =
     svn_xml_make_open_tag_hash entry_accum tagname (attr_hash pairs)"

text \<open>The \<^verbatim>\<open>%ld\<close> of \<^verbatim>\<open>apr_psprintf\<close>: a revision number in decimal.\<close>

fun nat_digits :: "nat \<Rightarrow> string" where
  "nat_digits n =
     (if n < 10 then [char_of (48 + n)]
      else nat_digits (n div 10) @ [char_of (48 + n mod 10)])"

definition ld_string :: "int \<Rightarrow> string" where
  "ld_string i = (if i < 0 then CHR ''-'' # nat_digits (nat (- i)) else nat_digits (nat i))"

record svn_wc_keywords =
  kw_revision :: "string option"
  kw_date :: "string option"
  kw_author :: "string option"
  kw_url :: "string option"

datatype svn_wc__eol_style =
  svn_wc__eol_style_unknown | svn_wc__eol_style_none | svn_wc__eol_style_native
  | svn_wc__eol_style_fixed

text \<open>The sequencing of \<^verbatim>\<open>SVN_ERR\<close>: the first error ends the function.\<close>

definition svn_bind :: "svn_err + 'a \<Rightarrow> ('a \<Rightarrow> svn_err + 'b) \<Rightarrow> svn_err + 'b" where
  "svn_bind r f = (case r of Inl e \<Rightarrow> Inl e | Inr x \<Rightarrow> f x)"

definition svn_check :: "svn_err option \<Rightarrow> svn_err + 'b \<Rightarrow> svn_err + 'b" where
  "svn_check r k = (case r of Some e \<Rightarrow> Inl e | None \<Rightarrow> k)"

text \<open>The routines of the library and of the runtime that \<^verbatim>\<open>svn_wc_install_file\<close> calls and
  that are not part of the sources: their results are parameters. Each takes the arguments
  of the call that matter. \<^verbatim>\<open>svn_io_open_unique_file\<close> takes the number of the call site as
  well, since two calls with the same arguments give two names; \<^verbatim>\<open>svn_wc__merge_prop_diffs\<close>
  gives the commands it appends to the log and the names of the properties in conflict.\<close>

record install_io =
  svn_wc__lock :: "string \<Rightarrow> svn_err option"
  svn_wc__unlock :: "string \<Rightarrow> svn_err option"
  svn_wc__open_adm_file :: "string \<Rightarrow> svn_err option"
  svn_wc__close_adm_file :: "string \<Rightarrow> svn_err option"
  apr_file_write_full :: "log_cmd list \<Rightarrow> svn_err option"
  svn_wc__run_log :: "string \<Rightarrow> log_cmd list \<Rightarrow> wc_state \<Rightarrow> svn_err + wc_state"
  svn_wc__prop_base_path :: "string \<Rightarrow> svn_err + string"
  svn_wc__load_prop_file :: "string \<Rightarrow> svn_err + (string \<times> string) list"
  svn_wc__get_local_propchanges ::
    "(string \<times> string) list \<Rightarrow> (string \<times> string) list \<Rightarrow> svn_err + svn_prop list"
  svn_wc__merge_prop_diffs ::
    "string \<Rightarrow> string \<Rightarrow> svn_prop list \<Rightarrow> svn_err + (log_cmd list \<times> (string \<Rightarrow> bool))"
  svn_wc__get_eol_style :: "string \<Rightarrow> svn_err + (svn_wc__eol_style \<times> string option)"
  svn_wc__eol_style_from_value :: "string \<Rightarrow> svn_wc__eol_style \<times> string option"
  svn_wc__eol_value_from_string :: "string option \<Rightarrow> string option"
  svn_wc__get_keywords :: "string \<Rightarrow> string option \<Rightarrow> svn_err + svn_wc_keywords option"
  svn_wc__text_base_path :: "string \<Rightarrow> bool \<Rightarrow> string"
  svn_wc__adm_path :: "string \<Rightarrow> bool \<Rightarrow> string \<Rightarrow> string"
  apr_file_rename :: "string \<Rightarrow> string \<Rightarrow> svn_err option"
  apr_file_close :: "string \<Rightarrow> svn_err option"
  svn_io_open_unique_file :: "nat \<Rightarrow> string \<Rightarrow> string \<Rightarrow> svn_err + string"
  svn_wc_copy_and_translate :: "string \<Rightarrow> string \<Rightarrow> svn_err option"
  svn_io_run_diff :: "string \<Rightarrow> string \<Rightarrow> string \<Rightarrow> svn_err option"

subsection \<open>update\_editor.c: installing a file\<close>

text \<open>\<^verbatim>\<open>make_translation_open_tag\<close>: the attributes are put into a hash, each name once.\<close>

definition make_translation_open_tag ::
  "log_cmd list \<Rightarrow> log_tag \<Rightarrow> string \<Rightarrow> string \<Rightarrow> string option \<Rightarrow> bool
     \<Rightarrow> svn_wc_keywords option \<Rightarrow> bool \<Rightarrow> log_cmd list" where
  "make_translation_open_tag entry_accum tagname name dest eol_str repair keywords expand =
     (let hash = [(SVN_WC__LOG_ATTR_NAME, name), (SVN_WC__LOG_ATTR_DEST, dest)];
          hash = (case eol_str of Some s \<Rightarrow> hash @ [(SVN_WC__LOG_ATTR_EOL_STR, s)] | None \<Rightarrow> hash);
          hash = (if repair then hash @ [(SVN_WC__LOG_ATTR_REPAIR, ''true'')] else hash);
          hash = (case keywords of
                    None \<Rightarrow> hash
                  | Some kw \<Rightarrow>
                      hash
                      @ (case kw_revision kw of Some v \<Rightarrow> [(SVN_WC__LOG_ATTR_REVISION, v)]
                         | None \<Rightarrow> [])
                      @ (case kw_date kw of Some v \<Rightarrow> [(SVN_WC__LOG_ATTR_DATE, v)] | None \<Rightarrow> [])
                      @ (case kw_author kw of Some v \<Rightarrow> [(SVN_WC__LOG_ATTR_AUTHOR, v)]
                         | None \<Rightarrow> [])
                      @ (case kw_url kw of Some v \<Rightarrow> [(SVN_WC__LOG_ATTR_URL, v)] | None \<Rightarrow> []));
          hash = (if expand then hash @ [(SVN_WC__LOG_ATTR_EXPAND, ''true'')] else hash)
      in svn_xml_make_open_tag_hash entry_accum tagname (attr_hash hash))"

text \<open>\<^verbatim>\<open>make_patch_open_tag\<close>: \<^verbatim>\<open>SVN_WC__LOG_ATTR_ARG_4\<close> is given twice; the hash keeps the
  second value. A path without a slash has no directory part.\<close>

definition make_patch_open_tag ::
  "log_cmd list \<Rightarrow> string \<Rightarrow> string \<Rightarrow> string \<Rightarrow> log_cmd list" where
  "make_patch_open_tag entry_accum path reject_file patch_file =
     (let backup_prefix =
            (if CHR ''/'' \<in> set path
             then ''-B'' @ svn_path_join (svn_path_remove_component path) ''.#''
             else ''-B'' @ ''.#'')
      in svn_xml_make_open_tag entry_accum SVN_WC__LOG_RUN_CMD
           [(SVN_WC__LOG_ATTR_NAME, SVN_CLIENT_PATCH),
            (SVN_WC__LOG_ATTR_ARG_1, ''-r''),
            (SVN_WC__LOG_ATTR_ARG_2, reject_file),
            (SVN_WC__LOG_ATTR_ARG_3, backup_prefix),
            (SVN_WC__LOG_ATTR_ARG_4, ''-f''),
            (SVN_WC__LOG_ATTR_ARG_4, ''--silent''),
            (SVN_WC__LOG_ATTR_ARG_5, ''--''),
            (SVN_WC__LOG_ATTR_ARG_6, path),
            (SVN_WC__LOG_ATTR_INFILE, patch_file)])"

text \<open>\<^verbatim>\<open>latest_keyword_data\<close>: the loop over the entry-props.\<close>

fun latest_keyword_loop :: "svn_prop list \<Rightarrow> svn_wc_keywords \<Rightarrow> svn_wc_keywords" where
  "latest_keyword_loop [] keywords = keywords"
| "latest_keyword_loop (prop # props) keywords =
     (let propname = svn_wc__strip_entry_prefix (prop_name prop);
          keywords = (if kw_revision keywords \<noteq> None \<and> propname = SVN_ENTRY_ATTR_COMMITTED_REV
                      then keywords\<lparr>kw_revision := prop_value prop\<rparr> else keywords);
          keywords = (if kw_date keywords \<noteq> None \<and> propname = SVN_ENTRY_ATTR_COMMITTED_DATE
                      then keywords\<lparr>kw_date := prop_value prop\<rparr> else keywords);
          keywords = (if kw_author keywords \<noteq> None \<and> propname = SVN_ENTRY_ATTR_LAST_AUTHOR
                      then keywords\<lparr>kw_author := prop_value prop\<rparr> else keywords)
      in latest_keyword_loop props keywords)"

definition latest_keyword_data ::
  "svn_prop list option \<Rightarrow> svn_wc_keywords option \<Rightarrow> svn_wc_keywords option" where
  "latest_keyword_data props keywords =
     (case (props, keywords) of
        (Some ps, Some kw) \<Rightarrow> Some (latest_keyword_loop ps kw)
      | _ \<Rightarrow> keywords)"

text \<open>Modelled from the spec: \<^verbatim>\<open>svn_categorize_props\<close> (svn\_props.h): the properties are
  partitioned by prefix into entry-props, wc-props and regular props.\<close>

definition svn_categorize_props ::
  "svn_prop list \<Rightarrow> svn_err + (svn_prop list \<times> svn_prop list \<times> svn_prop list)" where
  "svn_categorize_props props =
     Inr (filter (\<lambda>p. svn_wc_is_entry_prop (prop_name p)) props,
          filter (\<lambda>p. svn_wc_is_wc_prop (prop_name p)) props,
          filter (\<lambda>p. \<not> svn_wc_is_entry_prop (prop_name p) \<and> \<not> svn_wc_is_wc_prop (prop_name p))
            props)"

text \<open>Modelled from the spec: \<^verbatim>\<open>svn_property_kind\<close> (svn\_props.h), its \<^verbatim>\<open>prefix_len\<close>
  result: the length of the namespace prefix of the name.\<close>

definition svn_property_kind_prefix_len :: "string \<Rightarrow> nat" where
  "svn_property_kind_prefix_len name =
     (if svn_wc_is_entry_prop name then length SVN_PROP_ENTRY_PREFIX
      else if svn_wc_is_wc_prop name then length SVN_PROP_WC_PREFIX
      else 0)"

text \<open>\<^verbatim>\<open>svn_stringbuf_create_from_string\<close> reads through its argument; a property with no
  value makes it read through a null pointer, reported as \<open>ABORTED\<close>.\<close>

definition svn_stringbuf_create_from_string :: "string option \<Rightarrow> svn_err + string" where
  "svn_stringbuf_create_from_string v = (case v of None \<Rightarrow> Inl ABORTED | Some s \<Rightarrow> Inr s)"

text \<open>Lines 1461-1471: the regular props as a hash of new pristine props.\<close>

fun new_pristine_loop ::
  "svn_prop list \<Rightarrow> (string \<times> string) list \<Rightarrow> svn_err + (string \<times> string) list" where
  "new_pristine_loop [] hash = Inr (attr_hash hash)"
| "new_pristine_loop (prop # props) hash =
     svn_bind (svn_stringbuf_create_from_string (prop_value prop))
       (\<lambda>value_buf. new_pristine_loop props (hash @ [(prop_name prop, value_buf)]))"

text \<open>Lines 1504-1542: one \<^verbatim>\<open>MODIFY_ENTRY\<close> command for each entry-prop.\<close>

fun entry_props_loop :: "svn_prop list \<Rightarrow> string \<Rightarrow> log_cmd list \<Rightarrow> log_cmd list" where
  "entry_props_loop [] basename entry_accum = entry_accum"
| "entry_props_loop (prop # props) basename entry_accum =
     (let propname = prop_name prop;
          prefix_len = svn_property_kind_prefix_len (prop_name prop);
          propval = (case prop_value prop of Some v \<Rightarrow> v | None \<Rightarrow> [])
      in entry_props_loop props basename
           (svn_xml_make_open_tag entry_accum SVN_WC__LOG_MODIFY_ENTRY
              [(SVN_WC__LOG_ATTR_NAME, basename), (drop prefix_len propname, propval)]))"

text \<open>Lines 1577-1585 and 1635-1643: the value of the last regular prop of a given name.\<close>

fun fresh_value_loop ::
  "svn_prop list \<Rightarrow> string \<Rightarrow> string option \<Rightarrow> svn_err + string option" where
  "fresh_value_loop [] name fresh = Inr fresh"
| "fresh_value_loop (prop # props) name fresh =
     (if prop_name prop = name
      then svn_bind (svn_stringbuf_create_from_string (prop_value prop))
             (\<lambda>v. fresh_value_loop props name (Some v))
      else fresh_value_loop props name fresh)"

text \<open>\<^verbatim>\<open>svn_wc_install_file\<close>, lines 1432-1494: the properties are sorted and the regular ones
  merged. The result is the three sorted lists, the log so far and the conflicts.\<close>

definition install_props ::
  "install_io \<Rightarrow> string \<Rightarrow> string \<Rightarrow> string \<Rightarrow> svn_prop list option \<Rightarrow> bool \<Rightarrow> log_cmd list
     \<Rightarrow> svn_err + (svn_prop list option \<times> svn_prop list option \<times> svn_prop list option
                   \<times> log_cmd list \<times> (string \<Rightarrow> bool))" where
  "install_props io file_path parent_dir basename props is_full_proplist entry_accum =
     svn_bind (case props of
                 None \<Rightarrow> Inr (None, None, None)
               | Some ps \<Rightarrow> svn_bind (svn_categorize_props ps)
                             (\<lambda>(e, w, r). Inr (Some e, Some w, Some r)))
       (\<lambda>(entry_props, wc_props, regular_props).
          case regular_props of
            None \<Rightarrow> Inr (entry_props, wc_props, regular_props, entry_accum, (\<lambda>n. False))
          | Some rp \<Rightarrow>
              svn_bind
                (if is_full_proplist
                 then svn_bind (svn_wc__prop_base_path io file_path) (\<lambda>pristine_prop_path.
                      svn_bind (svn_wc__load_prop_file io pristine_prop_path)
                        (\<lambda>old_pristine_props.
                      svn_bind (new_pristine_loop rp []) (\<lambda>new_pristine_props.
                      svn_wc__get_local_propchanges io new_pristine_props old_pristine_props)))
                 else Inr rp)
                (\<lambda>propchanges.
                   svn_bind (svn_wc__merge_prop_diffs io parent_dir basename propchanges)
                     (\<lambda>(cmds, prop_conflicts).
                        Inr (entry_props, wc_props, regular_props, entry_accum @ cmds,
                             prop_conflicts))))"

text \<open>Lines 1569-1625: the eol style to use.\<close>

definition install_eol_style ::
  "install_io \<Rightarrow> string \<Rightarrow> svn_prop list option \<Rightarrow> (string \<Rightarrow> bool)
     \<Rightarrow> svn_err + (svn_wc__eol_style \<times> string option)" where
  "install_eol_style io file_path regular_props prop_conflicts =
     svn_bind (case regular_props of
                 None \<Rightarrow> Inr None
               | Some rp \<Rightarrow> fresh_value_loop rp SVN_PROP_EOL_STYLE None)
       (\<lambda>fresh_eol_style.
          svn_bind (case fresh_eol_style of
                      None \<Rightarrow> svn_wc__get_eol_style io file_path
                    | Some v \<Rightarrow>
                        if prop_conflicts SVN_PROP_EOL_STYLE
                        then svn_wc__get_eol_style io file_path
                        else Inr (svn_wc__eol_style_from_value io v))
            (\<lambda>(eol_style, eol_str).
               Inr (eol_style, svn_wc__eol_value_from_string io eol_str)))"

text \<open>Lines 1627-1711: the keywords to use, with the values of the entry-props just
  received and the URL.\<close>

definition install_keywords ::
  "install_io \<Rightarrow> wc_state \<Rightarrow> string \<Rightarrow> string \<Rightarrow> string \<Rightarrow> svn_prop list option
     \<Rightarrow> svn_prop list option \<Rightarrow> (string \<Rightarrow> bool) \<Rightarrow> string option
     \<Rightarrow> svn_err + svn_wc_keywords option" where
  "install_keywords io w file_path parent_dir basename regular_props entry_props
       prop_conflicts new_URL =
     svn_bind (case regular_props of
                 None \<Rightarrow> Inr None
               | Some rp \<Rightarrow> fresh_value_loop rp SVN_PROP_KEYWORDS None)
       (\<lambda>fresh_keywords_value.
          svn_bind (case fresh_keywords_value of
                      None \<Rightarrow> svn_wc__get_keywords io file_path None
                    | Some v \<Rightarrow>
                        if prop_conflicts SVN_PROP_KEYWORDS
                        then svn_wc__get_keywords io file_path None
                        else svn_wc__get_keywords io file_path (Some v))
            (\<lambda>keywords.
               case latest_keyword_data entry_props keywords of
                 None \<Rightarrow> Inr None
               | Some kw \<Rightarrow>
                   if kw_url kw = None then Inr (Some kw)
                   else (case new_URL of
                           Some u \<Rightarrow> Inr (Some (kw\<lparr>kw_url := Some u\<rparr>))
                         | None \<Rightarrow>
                             svn_bind (svn_wc_entry w parent_dir)
                               (\<lambda>parent_entry.
                                  case parent_entry of
                                    None \<Rightarrow> Inr (Some kw)
                                  | Some pe \<Rightarrow>
                                      Inr (Some (kw\<lparr>kw_url :=
                                             Some (svn_path_join (url pe) basename)\<rparr>))))))"

text \<open>Lines 1806-2058: the working file exists and has local changes; the patch is made
  now and the commands that apply it are logged.\<close>

definition install_merge_text ::
  "install_io \<Rightarrow> string \<Rightarrow> string \<Rightarrow> string \<Rightarrow> svn_wc__eol_style \<Rightarrow> string option
     \<Rightarrow> svn_wc_keywords option \<Rightarrow> log_cmd list \<Rightarrow> svn_err + log_cmd list" where
  "install_merge_text io file_path parent_dir basename eol_style eol_str keywords entry_accum =
     (let rel = (\<lambda>p. drop (length parent_dir + 1) p);
          tmp_loc = svn_wc__adm_path io parent_dir True basename
      in svn_bind (svn_io_open_unique_file io 0 tmp_loc SVN_WC__DIFF_EXT)
           (\<lambda>received_diff_filename.
         let tmp_txtb_full_path = svn_wc__text_base_path io file_path True;
             txtb_full_path = svn_wc__text_base_path io file_path False
         in svn_bind (svn_io_open_unique_file io 1 tmp_loc SVN_WC__BASE_EXT) (\<lambda>tr_txtb.
            svn_bind (svn_io_open_unique_file io 2 tmp_loc SVN_WC__BASE_EXT) (\<lambda>tr_tmp_txtb.
            svn_check (svn_wc_copy_and_translate io txtb_full_path tr_txtb)
           (svn_check (svn_wc_copy_and_translate io tmp_txtb_full_path tr_tmp_txtb)
           (svn_check (svn_io_run_diff io tr_txtb tr_tmp_txtb received_diff_filename)
           (let tr_txtb = rel tr_txtb;
                tr_tmp_txtb = rel tr_tmp_txtb;
                entry_accum = svn_xml_make_open_tag entry_accum SVN_WC__LOG_RM
                                [(SVN_WC__LOG_ATTR_NAME, tr_txtb)];
                entry_accum = svn_xml_make_open_tag entry_accum SVN_WC__LOG_RM
                                [(SVN_WC__LOG_ATTR_NAME, tr_tmp_txtb)]
            in svn_bind (svn_io_open_unique_file io 3 file_path SVN_WC__TEXT_REJ_EXT)
                 (\<lambda>reject_filename.
               svn_check (apr_file_close io reject_filename)
              (let reject_filename = rel reject_filename;
                   received_diff_filename = rel received_diff_filename
               in svn_bind
                    (if eol_style = svn_wc__eol_style_none \<and> keywords = None
                     then Inr (make_patch_open_tag entry_accum basename reject_filename
                                 received_diff_filename)
                     else
                       svn_bind (svn_io_open_unique_file io 4 tmp_loc SVN_WC__TMP_EXT)
                         (\<lambda>tmp_working.
                            let tmp_working = rel tmp_working;
                                entry_accum = make_translation_open_tag entry_accum
                                  SVN_WC__LOG_CP basename tmp_working (Some ''LF'') True
                                  keywords False;
                                entry_accum = make_patch_open_tag entry_accum tmp_working
                                  reject_filename received_diff_filename;
                                entry_accum = make_translation_open_tag entry_accum
                                  SVN_WC__LOG_CP tmp_working basename eol_str False
                                  keywords True
                            in Inr (svn_xml_make_open_tag entry_accum SVN_WC__LOG_RM
                                      [(SVN_WC__LOG_ATTR_NAME, tmp_working)])))
                    (\<lambda>entry_accum.
                       let entry_accum = svn_xml_make_open_tag entry_accum SVN_WC__LOG_RM
                                           [(SVN_WC__LOG_ATTR_NAME, received_diff_filename)]
                       in Inr (svn_xml_make_open_tag entry_accum SVN_WC__LOG_DETECT_CONFLICT
                                 [(SVN_WC__LOG_ATTR_NAME, basename),
                                  (SVN_WC_ENTRY_ATTR_REJFILE, reject_filename)])))))))))))"

text \<open>Lines 1558-2114: the text section, entered when a new text is given. The result is
  the log so far and whether the working file has local changes.\<close>

definition install_text ::
  "install_io \<Rightarrow> wc_questions \<Rightarrow> wc_state \<Rightarrow> string \<Rightarrow> string \<Rightarrow> string \<Rightarrow> string
     \<Rightarrow> svn_prop list option \<Rightarrow> svn_prop list option \<Rightarrow> (string \<Rightarrow> bool) \<Rightarrow> string option
     \<Rightarrow> log_cmd list \<Rightarrow> svn_err + (log_cmd list \<times> bool)" where
  "install_text io q w file_path parent_dir basename new_text_path regular_props entry_props
       prop_conflicts new_URL entry_accum =
     svn_bind (svn_wc_has_binary_prop q file_path) (\<lambda>has_binary_prop.
     svn_bind (svn_wc_text_modified_p q file_path) (\<lambda>is_locally_modified.
     svn_bind (install_eol_style io file_path regular_props prop_conflicts)
       (\<lambda>(eol_style, eol_str).
     svn_bind (install_keywords io w file_path parent_dir basename regular_props entry_props
                 prop_conflicts new_URL) (\<lambda>keywords.
     let final_location = svn_wc__text_base_path io file_path True
     in svn_check (if final_location \<noteq> new_text_path
                   then apr_file_rename io new_text_path final_location else None)
       (let txtb = svn_wc__text_base_path io basename False;
            tmp_txtb = svn_wc__text_base_path io basename True;
            entry_accum = svn_xml_make_open_tag entry_accum SVN_WC__LOG_MV
                            [(SVN_WC__LOG_ATTR_NAME, tmp_txtb), (SVN_WC__LOG_ATTR_DEST, txtb)]
        in svn_bind
             (if \<not> is_locally_modified
              then Inr (make_translation_open_tag entry_accum SVN_WC__LOG_CP txtb basename
                          eol_str False keywords True)
              else if \<not> has_binary_prop
              then svn_bind (svn_io_check_path w file_path) (\<lambda>wfile_kind.
                     if wfile_kind = svn_node_none
                     then Inr (make_translation_open_tag entry_accum SVN_WC__LOG_CP txtb
                                 basename eol_str False keywords True)
                     else install_merge_text io file_path parent_dir basename eol_style
                            eol_str keywords entry_accum)
              else svn_bind (svn_io_open_unique_file io 5 file_path ''.orig'')
                     (\<lambda>renamed_path.
                   svn_check (apr_file_close io renamed_path)
                  (let renamed_basename = svn_path_last_component renamed_path;
                       entry_accum = svn_xml_make_open_tag entry_accum SVN_WC__LOG_CP
                         [(SVN_WC__LOG_ATTR_NAME, basename),
                          (SVN_WC__LOG_ATTR_DEST, renamed_basename)]
                   in Inr (svn_xml_make_open_tag entry_accum SVN_WC__LOG_CP
                             [(SVN_WC__LOG_ATTR_NAME, txtb),
                              (SVN_WC__LOG_ATTR_DEST, basename)]))))
             (\<lambda>entry_accum.
                Inr (svn_xml_make_open_tag entry_accum SVN_WC__LOG_READONLY
                       [(SVN_WC__LOG_ATTR_NAME, txtb)], is_locally_modified)))))))"

text \<open>Lines 1429-2192: everything that is accumulated in \<^verbatim>\<open>entry_accum\<close> before the log file
  is written. The result is the log text and the wc-props that were sorted out.\<close>

definition install_log ::
  "install_io \<Rightarrow> wc_questions \<Rightarrow> wc_state \<Rightarrow> string \<Rightarrow> string \<Rightarrow> string \<Rightarrow> int
     \<Rightarrow> string option \<Rightarrow> svn_prop list option \<Rightarrow> bool \<Rightarrow> string option
     \<Rightarrow> svn_err + (log_cmd list \<times> svn_prop list option)" where
  "install_log io q w file_path parent_dir basename new_revision new_text_path props
       is_full_proplist new_URL =
     svn_bind (install_props io file_path parent_dir basename props is_full_proplist [])
       (\<lambda>(entry_props, wc_props, regular_props, entry_accum, prop_conflicts).
     let entry_accum = (case entry_props of
                          None \<Rightarrow> entry_accum
                        | Some eps \<Rightarrow> entry_props_loop eps basename entry_accum)
     in svn_bind (case new_text_path of
                    None \<Rightarrow> Inr (entry_accum, False)
                  | Some ntp \<Rightarrow>
                      install_text io q w file_path parent_dir basename ntp regular_props
                        entry_props prop_conflicts new_URL entry_accum)
       (\<lambda>(entry_accum, is_locally_modified).
     let revision_str = ld_string new_revision;
         entry_accum = svn_xml_make_open_tag entry_accum SVN_WC__LOG_MODIFY_ENTRY
                         [(SVN_WC__LOG_ATTR_NAME, basename),
                          (SVN_WC_ENTRY_ATTR_KIND, SVN_WC__ENTRIES_ATTR_FILE_STR),
                          (SVN_WC_ENTRY_ATTR_REVISION, revision_str)];
         entry_accum = (if new_text_path \<noteq> None \<and> \<not> is_locally_modified
                        then svn_xml_make_open_tag entry_accum SVN_WC__LOG_MODIFY_ENTRY
                               [(SVN_WC__LOG_ATTR_NAME, basename),
                                (SVN_WC_ENTRY_ATTR_TEXT_TIME, SVN_WC_TIMESTAMP_WC)]
                        else entry_accum)
     in svn_bind (if props \<noteq> None
                  then svn_bind (svn_wc_props_modified_p q file_path) (\<lambda>prop_modified.
                         if \<not> prop_modified
                         then Inr (svn_xml_make_open_tag entry_accum SVN_WC__LOG_MODIFY_ENTRY
                                     [(SVN_WC__LOG_ATTR_NAME, basename),
                                      (SVN_WC_ENTRY_ATTR_PROP_TIME, SVN_WC_TIMESTAMP_WC)])
                         else Inr entry_accum)
                  else Inr entry_accum)
       (\<lambda>entry_accum.
     let entry_accum = (case new_URL of
                          Some u \<Rightarrow> svn_xml_make_open_tag entry_accum SVN_WC__LOG_MODIFY_ENTRY
                                     [(SVN_WC__LOG_ATTR_NAME, basename),
                                      (SVN_WC_ENTRY_ATTR_URL, u)]
                        | None \<Rightarrow> entry_accum)
     in Inr (entry_accum, wc_props))))"

text \<open>Lines 2212-2223: the wc-props are stored once the log has run.\<close>

fun wc_props_loop :: "svn_prop list \<Rightarrow> string \<Rightarrow> wc_state \<Rightarrow> svn_err + wc_state" where
  "wc_props_loop [] file_path w = Inr w"
| "wc_props_loop (prop # props) file_path w =
     svn_bind (svn_wc__wcprop_set w (prop_name prop) (prop_value prop) file_path)
       (\<lambda>w. wc_props_loop props file_path w)"

text \<open>The outcome of \<^verbatim>\<open>svn_wc_install_file\<close>: the error it returned, if any; the text it wrote
  to the log file, if it came to write it; and the working copy.\<close>

record install_result =
  ir_err :: "svn_err option"
  ir_log :: "log_cmd list option"
  ir_wc :: wc_state

definition svn_wc_install_file ::
  "install_io \<Rightarrow> wc_questions \<Rightarrow> wc_state \<Rightarrow> string \<Rightarrow> int \<Rightarrow> string option
     \<Rightarrow> svn_prop list option \<Rightarrow> bool \<Rightarrow> string option \<Rightarrow> install_result" where
  "svn_wc_install_file io q w file_path new_revision new_text_path props is_full_proplist
       new_URL =
     (let (parent_dir, basename) = svn_path_split file_path
      in case svn_wc__lock io parent_dir of
           Some e \<Rightarrow> \<lparr>ir_err = Some e, ir_log = None, ir_wc = w\<rparr>
         | None \<Rightarrow>
      (case svn_wc__open_adm_file io parent_dir of
           Some e \<Rightarrow> \<lparr>ir_err = Some e, ir_log = None, ir_wc = w\<rparr>
         | None \<Rightarrow>
      (case install_log io q w file_path parent_dir basename new_revision new_text_path
              props is_full_proplist new_URL of
           Inl e \<Rightarrow> \<lparr>ir_err = Some e, ir_log = None, ir_wc = w\<rparr>
         | Inr (entry_accum, wc_props) \<Rightarrow>
      (case apr_file_write_full io entry_accum of
           Some e \<Rightarrow> \<lparr>ir_err = Some e, ir_log = None, ir_wc = w\<rparr>
         | None \<Rightarrow>
      (case svn_wc__close_adm_file io parent_dir of
           Some e \<Rightarrow> \<lparr>ir_err = Some e, ir_log = Some entry_accum, ir_wc = w\<rparr>
         | None \<Rightarrow>
      (case svn_wc__run_log io parent_dir entry_accum w of
           Inl e \<Rightarrow> \<lparr>ir_err = Some e, ir_log = Some entry_accum, ir_wc = w\<rparr>
         | Inr w \<Rightarrow>
      (case (case wc_props of None \<Rightarrow> Inr w | Some wps \<Rightarrow> wc_props_loop wps file_path w) of
           Inl e \<Rightarrow> \<lparr>ir_err = Some e, ir_log = Some entry_accum, ir_wc = w\<rparr>
         | Inr w \<Rightarrow>
             \<lparr>ir_err = svn_wc__unlock io parent_dir, ir_log = Some entry_accum,
              ir_wc = w\<rparr>)))))))"

section \<open>A small repository used in the examples\<close>

text \<open>Revision 1 holds the root directory with one subdirectory \<^verbatim>\<open>a\<close>. Transaction \<^verbatim>\<open>t1\<close>
  has cloned the root and created a file.\<close>

definition ex_r0 :: svn_fs_id where
  "ex_r0 = \<lparr>node_id = 0, copy_id = ''0'', txn_rev = Rev 1\<rparr>"

definition ex_a0 :: svn_fs_id where
  "ex_a0 = \<lparr>node_id = 1, copy_id = ''0'', txn_rev = Rev 1\<rparr>"

definition ex_rt :: svn_fs_id where
  "ex_rt = \<lparr>node_id = 0, copy_id = ''0'', txn_rev = Txn ''t1''\<rparr>"

definition ex_f :: svn_fs_id where
  "ex_f = \<lparr>node_id = 2, copy_id = ''0'', txn_rev = Txn ''t1''\<rparr>"

definition ex_entries :: "string \<rightharpoonup> svn_fs_dirent" where
  "ex_entries = [''a'' \<mapsto> \<lparr>dirent_id = ex_a0, dirent_kind = svn_node_dir\<rparr>]"

definition ex_rt_nr :: node_revision where
  "ex_rt_nr = (zero_noderev ex_rt)\<lparr>kind := svn_node_dir,
                   data_rep := Some (ex_entries(''f'' \<mapsto>
                                 \<lparr>dirent_id = ex_f, dirent_kind = svn_node_file\<rparr>)),
                   predecessor_id := Some ex_r0, predecessor_count := 1,
                   created_path := Some ''/''\<rparr>"

definition ex_a0_nr :: node_revision where
  "ex_a0_nr = (zero_noderev ex_a0)\<lparr>kind := svn_node_dir, created_path := Some ''/a''\<rparr>"

definition ex_f_nr :: node_revision where
  "ex_f_nr = (zero_noderev ex_f)\<lparr>kind := svn_node_file, created_path := Some ''/f''\<rparr>"

definition ex_fs :: svn_fs where
  "ex_fs = \<lparr>nodes =
      [ex_r0 \<mapsto> (zero_noderev ex_r0)\<lparr>kind := svn_node_dir, data_rep := Some ex_entries,
                   created_path := Some ''/''\<rparr>,
       ex_a0 \<mapsto> ex_a0_nr,
       ex_rt \<mapsto> ex_rt_nr,
       ex_f \<mapsto> ex_f_nr],
     next_key = 3\<rparr>"

definition ex_node :: "svn_fs_id \<Rightarrow> svn_node_kind \<Rightarrow> dag_node" where
  "ex_node i k = \<lparr>dn_id = i, dn_kind = k, dn_node_revision = None, dn_created_path = None\<rparr>"

text \<open>The handle that \<^verbatim>\<open>svn_fs__dag_get_node\<close> gives for the transaction root.\<close>

definition ex_root :: dag_node where
  "ex_root = \<lparr>dn_id = ex_rt, dn_kind = svn_node_dir, dn_node_revision = Some ex_rt_nr,
              dn_created_path = Some ''/''\<rparr>"

text \<open>The handles that opening \<^verbatim>\<open>a\<close> and \<^verbatim>\<open>f\<close> in the transaction root gives.\<close>

definition ex_a_node :: dag_node where
  "ex_a_node = \<lparr>dn_id = ex_a0, dn_kind = svn_node_dir, dn_node_revision = Some ex_a0_nr,
                dn_created_path = Some ''/a''\<rparr>"

definition ex_f_node :: dag_node where
  "ex_f_node = \<lparr>dn_id = ex_f, dn_kind = svn_node_file, dn_node_revision = Some ex_f_nr,
                dn_created_path = Some ''/f''\<rparr>"

text \<open>The store after revision 2 has committed a file \<^verbatim>\<open>g\<close> and a new root, and
  transaction \<^verbatim>\<open>t3\<close> has cloned that root: the root of \<^verbatim>\<open>t3\<close> has two predecessors.\<close>

definition ex_g1 :: svn_fs_id where
  "ex_g1 = \<lparr>node_id = 3, copy_id = ''0'', txn_rev = Rev 2\<rparr>"

definition ex_r1 :: svn_fs_id where
  "ex_r1 = \<lparr>node_id = 0, copy_id = ''0'', txn_rev = Rev 2\<rparr>"

definition ex_rt3 :: svn_fs_id where
  "ex_rt3 = \<lparr>node_id = 0, copy_id = ''0'', txn_rev = Txn ''t3''\<rparr>"

definition ex_entries1 :: "string \<rightharpoonup> svn_fs_dirent" where
  "ex_entries1 = ex_entries(''g'' \<mapsto> \<lparr>dirent_id = ex_g1, dirent_kind = svn_node_file\<rparr>)"

definition ex_g1_nr :: node_revision where
  "ex_g1_nr = (zero_noderev ex_g1)\<lparr>kind := svn_node_file, created_path := Some ''/g''\<rparr>"

definition ex_r1_nr :: node_revision where
  "ex_r1_nr = (zero_noderev ex_r1)\<lparr>kind := svn_node_dir, data_rep := Some ex_entries1,
                   predecessor_id := Some ex_r0, predecessor_count := 1,
                   created_path := Some ''/''\<rparr>"

definition ex_rt3_nr :: node_revision where
  "ex_rt3_nr = (zero_noderev ex_rt3)\<lparr>kind := svn_node_dir, data_rep := Some ex_entries1,
                   predecessor_id := Some ex_r1, predecessor_count := 2,
                   created_path := Some ''/''\<rparr>"

definition ex_fs3 :: svn_fs where
  "ex_fs3 = ex_fs\<lparr>nodes := (nodes ex_fs)(ex_g1 \<mapsto> ex_g1_nr, ex_r1 \<mapsto> ex_r1_nr,
                                          ex_rt3 \<mapsto> ex_rt3_nr),
                   next_key := 4\<rparr>"

text \<open>The handles that \<^verbatim>\<open>svn_fs__dag_get_node\<close> gives for the committed file, the two
  committed roots and the root of \<^verbatim>\<open>t3\<close>.\<close>

definition ex_g_node :: dag_node where
  "ex_g_node = \<lparr>dn_id = ex_g1, dn_kind = svn_node_file, dn_node_revision = Some ex_g1_nr,
                dn_created_path = Some ''/g''\<rparr>"

definition ex_r0_node :: dag_node where
  "ex_r0_node = \<lparr>dn_id = ex_r0, dn_kind = svn_node_dir,
                 dn_node_revision = Some ((zero_noderev ex_r0)\<lparr>kind := svn_node_dir,
                     data_rep := Some ex_entries, created_path := Some ''/''\<rparr>),
                 dn_created_path = Some ''/''\<rparr>"

definition ex_r1_node :: dag_node where
  "ex_r1_node = \<lparr>dn_id = ex_r1, dn_kind = svn_node_dir, dn_node_revision = Some ex_r1_nr,
                 dn_created_path = Some ''/''\<rparr>"

definition ex_root3 :: dag_node where
  "ex_root3 = \<lparr>dn_id = ex_rt3, dn_kind = svn_node_dir, dn_node_revision = Some ex_rt3_nr,
               dn_created_path = Some ''/''\<rparr>"


text \<open>A second store: the root of transaction \<^verbatim>\<open>t2\<close> has an entry \<^verbatim>\<open>f\<close> that points at
  the file created in transaction \<^verbatim>\<open>t1\<close>.\<close>

definition ex_rt2 :: svn_fs_id where
  "ex_rt2 = \<lparr>node_id = 0, copy_id = ''0'', txn_rev = Txn ''t2''\<rparr>"

definition ex_fs2 :: svn_fs where
  "ex_fs2 = ex_fs\<lparr>nodes := (nodes ex_fs)(ex_rt2 \<mapsto> ex_rt_nr\<lparr>nr_id := ex_rt2\<rparr>)\<rparr>"

definition ex_root2 :: dag_node where
  "ex_root2 = \<lparr>dn_id = ex_rt2, dn_kind = svn_node_dir,
               dn_node_revision = Some (ex_rt_nr\<lparr>nr_id := ex_rt2\<rparr>),
               dn_created_path = Some ''/''\<rparr>"

section \<open>A small working copy used in the examples\<close>

text \<open>The directory \<^verbatim>\<open>wc\<close> is a working copy of \<^verbatim>\<open>http://host/repo\<close>. Its file \<^verbatim>\<open>foo\<close> is
  in conflict, with the reject file \<^verbatim>\<open>foo.rej\<close> beside it, and is locally modified; the
  entry \<^verbatim>\<open>gone\<close> has no file on disk; the file \<^verbatim>\<open>stray\<close> has no entry.\<close>

definition ex_foo_entry :: svn_wc_entry where
  "ex_foo_entry = blank_entry\<lparr>entry_kind := svn_node_file, url := ''http://host/repo/foo'',
                    revision := 5, conflicted := True, text_reject_file := Some ''foo.rej''\<rparr>"

definition ex_dir_entry :: svn_wc_entry where
  "ex_dir_entry = blank_entry\<lparr>entry_kind := svn_node_dir, url := ''http://host/repo'',
                    revision := 5\<rparr>"

definition ex_wc_entries :: "string \<rightharpoonup> svn_wc_entry" where
  "ex_wc_entries = [SVN_WC_ENTRY_THIS_DIR \<mapsto> ex_dir_entry,
                    ''foo'' \<mapsto> ex_foo_entry,
                    ''gone'' \<mapsto> blank_entry\<lparr>entry_kind := svn_node_file\<rparr>]"

definition ex_wc :: wc_state where
  "ex_wc = \<lparr>disk = [''wc'' \<mapsto> svn_node_dir, ''wc/foo'' \<mapsto> svn_node_file,
                    ''wc/foo.rej'' \<mapsto> svn_node_file, ''wc/stray'' \<mapsto> svn_node_file],
            entries_of = [''wc'' \<mapsto> ex_wc_entries],
            wcprops = (\<lambda>p. Map.empty),
            is_wc_dir = (\<lambda>p. p = ''wc'')\<rparr>"

definition ex_questions :: wc_questions where
  "ex_questions = \<lparr>svn_wc_props_modified_p = (\<lambda>p. Inr False),
                   svn_wc_text_modified_p = (\<lambda>p. Inr True),
                   svn_wc_has_binary_prop = (\<lambda>p. Inr False)\<rparr>"

text \<open>The same directory with readable entries, but not taken for a working copy.\<close>

definition ex_wc_broken :: wc_state where
  "ex_wc_broken = ex_wc\<lparr>is_wc_dir := (\<lambda>p. False)\<rparr>"

text \<open>An update editor anchored at \<^verbatim>\<open>wc\<close> with target revision 7, after \<^verbatim>\<open>open_root\<close>:
  baton 0 is the root directory baton.\<close>

definition ex_eb :: edit_baton where
  "ex_eb = \<lparr>anchor = ''wc'', target = None, target_revision = 7, recurse = True,
            is_checkout = False, ancestor_url = [], is_switch = False, switch_url = []\<rparr>"

definition ex_root_baton :: dir_baton where
  "ex_root_baton = \<lparr>db_path = ''wc'', db_name = None, db_URL = ''http://host/repo'',
                    db_disjoint_url = False, ref_count = 1, parent_baton = None,
                    db_prop_changed = False, added = False, db_propchanges = []\<rparr>"

definition ex_ed :: editor where
  "ex_ed = \<lparr>eb = ex_eb, dir_batons = [0 \<mapsto> ex_root_baton], next_baton = 1, ed_wc = ex_wc\<rparr>"

definition ex_ed_broken :: editor where
  "ex_ed_broken = ex_ed\<lparr>ed_wc := ex_wc_broken\<rparr>"

text \<open>Library routines that all succeed: no property conflicts, no eol style, no keywords.\<close>

definition ex_io :: install_io where
  "ex_io = \<lparr>svn_wc__lock = (\<lambda>d. None), svn_wc__unlock = (\<lambda>d. None),
            svn_wc__open_adm_file = (\<lambda>d. None), svn_wc__close_adm_file = (\<lambda>d. None),
            apr_file_write_full = (\<lambda>l. None),
            svn_wc__run_log = (\<lambda>d l w. Inr w),
            svn_wc__prop_base_path = (\<lambda>p. Inr (p @ ''.prop-base'')),
            svn_wc__load_prop_file = (\<lambda>p. Inr []),
            svn_wc__get_local_propchanges = (\<lambda>new old. Inr []),
            svn_wc__merge_prop_diffs = (\<lambda>d b pc. Inr ([], (\<lambda>n. False))),
            svn_wc__get_eol_style = (\<lambda>p. Inr (svn_wc__eol_style_none, None)),
            svn_wc__eol_style_from_value = (\<lambda>v. (svn_wc__eol_style_native, Some v)),
            svn_wc__eol_value_from_string = (\<lambda>s. s),
            svn_wc__get_keywords = (\<lambda>p v. Inr None),
            svn_wc__text_base_path =
              (\<lambda>p tmp. svn_path_join (svn_path_remove_component p)
                          ((if tmp then ''adm/tmp/text-base/'' else ''adm/text-base/'')
                           @ svn_path_last_component p @ ''.base'')),
            svn_wc__adm_path = (\<lambda>d tmp n. svn_path_join d (''adm/tmp/'' @ n)),
            apr_file_rename = (\<lambda>a b. None),
            apr_file_close = (\<lambda>p. None),
            svn_io_open_unique_file = (\<lambda>n p ext. Inr (p @ (if n = 2 then ''.2'' else []) @ ext)),
            svn_wc_copy_and_translate = (\<lambda>a b. None),
            svn_io_run_diff = (\<lambda>a b c. None)\<rparr>"

text \<open>The same questions as before, but with the working file unmodified.\<close>

definition ex_questions_clean :: wc_questions where
  "ex_questions_clean = ex_questions\<lparr>svn_wc_text_modified_p := (\<lambda>p. Inr False)\<rparr>"

section \<open>Facts about handles\<close>

lemmas ex_defs = ex_r0_def ex_a0_def ex_rt_def ex_f_def ex_entries_def ex_fs_def ex_node_def
  zero_noderev_def ex_rt_nr_def ex_root_def ex_a0_nr_def ex_f_nr_def ex_a_node_def ex_f_node_def
  ex_rt2_def ex_fs2_def ex_root2_def

lemmas ex3_defs = ex_g1_def ex_r1_def ex_rt3_def ex_entries1_def ex_g1_nr_def ex_r1_nr_def
  ex_rt3_nr_def ex_fs3_def ex_g_node_def ex_r0_node_def ex_r1_node_def ex_root3_def

lemma get_node_Inr:
  "svn_fs__dag_get_node fs i = Inr D \<Longrightarrow>
     \<exists>nr. nodes fs i = Some nr \<and>
       D = \<lparr>dn_id = i, dn_kind = kind nr, dn_node_revision = Some nr,
            dn_created_path = created_path nr\<rparr>"
  by (auto simp: svn_fs__dag_get_node_def get_node_revision_def svn_fs__fs_get_node_revision_def
      split: option.splits sum.splits)

lemma get_node_Some:
  "nodes fs i = Some nr \<Longrightarrow>
     svn_fs__dag_get_node fs i =
       Inr \<lparr>dn_id = i, dn_kind = kind nr, dn_node_revision = Some nr,
            dn_created_path = created_path nr\<rparr>"
  by (simp add: svn_fs__dag_get_node_def get_node_revision_def svn_fs__fs_get_node_revision_def)



lemma open_Inr:
  assumes "svn_fs__dag_open D name fs = Inr (cur, D1)"
    and "D = \<lparr>dn_id = pid, dn_kind = k, dn_node_revision = Some nr, dn_created_path = cp\<rparr>"
  shows "D1 = D \<and> kind nr = svn_node_dir \<and> svn_path_is_single_path_component name
       \<and> (\<exists>es d cnr. data_rep nr = Some es \<and> es name = Some d
            \<and> nodes fs (dirent_id d) = Some cnr
            \<and> cur = \<lparr>dn_id = dirent_id d, dn_kind = kind cnr, dn_node_revision = Some cnr,
                      dn_created_path = created_path cnr\<rparr>)"
  using assms
  by (auto simp: svn_fs__dag_open_def dir_entry_id_from_node_def svn_fs__dag_dir_entries_def
      get_node_revision_def get_dir_entries_def svn_fs__fs_rep_contents_dir_def Let_def
      dest!: get_node_Inr split: sum.splits option.splits if_splits)



section \<open>Facts about the increment of a C int\<close>

lemma sint_succ:
  fixes c :: "32 word"
  shows "sint c \<noteq> 2147483647 \<Longrightarrow> sint (c + 1) = sint c + 1"
    and "sint c = 2147483647 \<Longrightarrow> sint (c + 1) = - 2147483648"
proof -
  have r: "- 2147483648 \<le> sint c" "sint c < 2147483648"
    using sint_ge [of c] sint_lt [of c] by simp_all
  have e: "sint (c + 1) = signed_take_bit 31 (sint c + 1)"
    by (simp add: sint_word_ariths)
  show "sint (c + 1) = sint c + 1" if "sint c \<noteq> 2147483647"
    using r that unfolding e by (intro signed_take_bit_int_eq_self) simp_all
  show "sint (c + 1) = - 2147483648" if "sint c = 2147483647"
    unfolding e that by simp
qed

lemma bump_twice:
  fixes c :: "32 word"
  assumes c1_def: "c1 = (if c \<noteq> - 1 then c + 1 else c)"
    and new_def: "new = (if 0 \<le> sint c1 then c1 + 1 else c1)"
  shows "0 \<le> sint new \<Longrightarrow> 0 \<le> sint c \<and> sint c < sint new"
    and "0 \<le> sint c \<Longrightarrow> sint c < 2147483646 \<Longrightarrow> sint new = sint c + 2"
    and "c = - 1 \<Longrightarrow> new = - 1"
    and "sint c = 2147483646 \<or> sint c = 2147483647 \<Longrightarrow> sint new = - 2147483648"
    and "sint c < - 1 \<Longrightarrow> sint new = sint c + 1"
proof -
  have m1: "c = - 1" if "sint c = - 1"
  proof (rule signed_word_eqI)
    from that show "sint c = sint (- 1 :: 32 word)" by simp
  qed
  have s: "sint c1 = sint c + 1" if "c \<noteq> - 1" "sint c \<noteq> 2147483647"
    using that sint_succ(1) [of c] by (simp add: c1_def)
  have s': "sint c1 = - 2147483648" if "sint c = 2147483647"
    using that sint_succ(2) [of c] by (auto simp: c1_def)
  show "0 \<le> sint c \<and> sint c < sint new" if h: "0 \<le> sint new"
  proof (cases "c = - 1")
    case True
    with h show ?thesis by (simp add: c1_def new_def)
  next
    case False
    show ?thesis
    proof (cases "sint c = 2147483647")
      case True
      from s' [OF True] h show ?thesis by (simp add: new_def)
    next
      case F2: False
      note e = s [OF False F2]
      show ?thesis
      proof (cases "0 \<le> sint c1")
        case True
        show ?thesis
        proof (cases "sint c1 = 2147483647")
          case True
          with sint_succ(2) [of c1] h e show ?thesis by (simp add: new_def)
        next
          case F3: False
          from sint_succ(1) [OF F3] True have "sint new = sint c + 2" by (simp add: new_def e)
          moreover from True e m1 False have "0 \<le> sint c" by (cases "sint c = - 1") auto
          ultimately show ?thesis by simp
        qed
      next
        case F4: False
        with h show ?thesis by (simp add: new_def)
      qed
    qed
  qed
  show "sint new = sint c + 2" if "0 \<le> sint c" "sint c < 2147483646"
  proof -
    from that have "c \<noteq> - 1" by auto
    from s [OF this] that have e: "sint c1 = sint c + 1" by simp
    with that sint_succ(1) [of c1] show ?thesis by (simp add: new_def)
  qed
  show "new = - 1" if "c = - 1" using that by (simp add: c1_def new_def)
  show "sint new = - 2147483648" if "sint c = 2147483646 \<or> sint c = 2147483647"
  proof (cases "sint c = 2147483647")
    case True
    from s' [OF True] show ?thesis by (simp add: new_def)
  next
    case False
    with that have v: "sint c = 2147483646" by simp
    then have "c \<noteq> - 1" by auto
    from s [OF this False] v have "sint c1 = 2147483647" by simp
    with sint_succ(2) [of c1] show ?thesis by (simp add: new_def)
  qed
  show "sint new = sint c + 1" if "sint c < - 1"
  proof -
    from that have "c \<noteq> - 1" by auto
    from s [OF this] that have "sint c1 = sint c + 1" by simp
    with that show ?thesis by (simp add: new_def)
  qed
qed

section \<open>Facts about the predecessor walk\<close>

lemma walk_loop_done:
  "walk_loop cb fs True tn b calls = Some \<lparr>wr_err = None, wr_baton = b, wr_calls = calls\<rparr>"
  by (subst walk_loop.simps) (simp split: option.splits)

lemma walk_loop_nil:
  "walk_loop cb fs d None b calls = Some \<lparr>wr_err = None, wr_baton = b, wr_calls = calls\<rparr>"
  by (subst walk_loop.simps) simp

lemma anc_cb_simps:
  "is_ancestor_callback b None = Inr (b, False)"
  "is_ancestor_callback b (Some n) =
     Inr (if node1_id b = dn_id n then b\<lparr>is_ancestor := True\<rparr> else b, need_parent b)"
  by (simp_all add: is_ancestor_callback_def svn_fs__id_eq_def Let_def)

lemma walk_anc_total:
  "chain_resolves fs k (dn_id tn) \<Longrightarrow> dn_node_revision tn = Some nr \<Longrightarrow>
   nodes fs (dn_id tn) = Some nr \<Longrightarrow> is_ancestor b \<Longrightarrow> \<not> need_parent b \<Longrightarrow>
   \<exists>r. walk_loop (Some is_ancestor_callback) fs False (Some tn) b calls = Some r
      \<and> wr_err r = None \<and> is_ancestor (wr_baton r)"
proof (induction k arbitrary: tn nr b calls)
  case 0
  then show ?case by simp
next
  case (Suc k)
  show ?case
  proof (cases "predecessor_id nr")
    case None
    show ?thesis
      apply (subst walk_loop.simps)
      using Suc.prems None
      by (simp add: get_node_revision_def anc_cb_simps walk_loop_nil)
  next
    case (Some p)
    with Suc.prems have cr: "chain_resolves fs k p" by simp
    then obtain pnr where pnr: "nodes fs p = Some pnr"
      by (cases k) (auto split: option.splits)
    let ?nd = "\<lparr>dn_id = p, dn_kind = kind pnr, dn_node_revision = Some pnr,
            dn_created_path = created_path pnr\<rparr>"
    let ?b = "if node1_id b = p then b\<lparr>is_ancestor := True\<rparr> else b"
    have "\<exists>r. walk_loop (Some is_ancestor_callback) fs False (Some ?nd) ?b (calls @ [Some ?nd]) = Some r
      \<and> wr_err r = None \<and> is_ancestor (wr_baton r)"
      by (rule Suc.IH [of ?nd pnr]) (use cr pnr Suc.prems in simp_all)
    then show ?thesis
      apply (subst walk_loop.simps)
      using Suc.prems Some pnr
      by (simp add: get_node_revision_def anc_cb_simps get_node_Some)
  qed
qed

lemma is_parent_True:
  assumes "svn_fs__dag_is_parent node1 node2 fs = Some (Inr True)"
  shows "svn_fs_check_related (dn_id node1) (dn_id node2)
       \<and> (\<exists>nr2 n2' pnr. get_node_revision node2 fs = Inr (nr2, n2')
            \<and> predecessor_id nr2 = Some (dn_id node1) \<and> nodes fs (dn_id node1) = Some pnr)"
proof -
  from assms have rel: "svn_fs_check_related (dn_id node1) (dn_id node2)"
    by (auto simp: svn_fs__dag_is_parent_def Let_def split: if_splits)
  show ?thesis
  proof (cases "get_node_revision node2 fs")
    case (Inl e)
    with assms rel show ?thesis
      apply (simp add: svn_fs__dag_is_parent_def Let_def svn_fs__dag_walk_predecessors_def)
      apply (subst (asm) walk_loop.simps)
      apply simp
      done
  next
    case (Inr res)
    obtain nr2 n2' where res: "res = (nr2, n2')" by (cases res)
    show ?thesis
    proof (cases "predecessor_id nr2")
      case None
      with assms rel Inr res show ?thesis
        apply (simp add: svn_fs__dag_is_parent_def Let_def svn_fs__dag_walk_predecessors_def)
        apply (subst (asm) walk_loop.simps)
        apply (simp add: anc_cb_simps walk_loop_nil)
        done
    next
      case (Some p)
      show ?thesis
      proof (cases "nodes fs p")
        case None
        with assms rel Inr res Some show ?thesis
          apply (simp add: svn_fs__dag_is_parent_def Let_def svn_fs__dag_walk_predecessors_def)
          apply (subst (asm) walk_loop.simps)
          apply (simp add: svn_fs__dag_get_node_def get_node_revision_def
              svn_fs__fs_get_node_revision_def)
          done
      next
        case (Some pnr)
        with assms rel Inr res \<open>predecessor_id nr2 = Some p\<close> show ?thesis
          apply (simp add: svn_fs__dag_is_parent_def Let_def svn_fs__dag_walk_predecessors_def)
          apply (subst (asm) walk_loop.simps)
          apply (simp add: get_node_Some anc_cb_simps walk_loop_done split: if_splits)
          done
      qed
    qed
  qed
qed

lemma anc_cb_mono:
  "is_ancestor_callback b x = Inr (b', d) \<Longrightarrow> is_ancestor b \<Longrightarrow> is_ancestor b'"
  by (cases x) (auto simp: anc_cb_simps split: if_splits)

lemma walk_anc_mono:
  assumes "walk_loop cbo fs d tn b calls = Some r"
  shows "cbo = Some is_ancestor_callback \<longrightarrow> is_ancestor b \<longrightarrow> is_ancestor (wr_baton r)"
proof (rule walk_loop.raw_induct [where P = "\<lambda>cbo fs d tn b calls r.
           cbo = Some is_ancestor_callback \<longrightarrow> is_ancestor b \<longrightarrow> is_ancestor (wr_baton r)",
         OF _ assms], goal_cases)
  case (1 wl callback fs dn this_node baton calls r)
  show ?case
  proof (intro impI)
    assume cb: "callback = Some is_ancestor_callback" and fl: "is_ancestor baton"
    from 1(2) cb fl show "is_ancestor (wr_baton r)"
      by (auto simp: anc_cb_simps split: option.splits if_splits sum.splits prod.splits
          dest!: 1(1) dest: anc_cb_mono)
  qed
qed

lemma counts_chain_resolves:
  assumes ok: "counts_ok fs"
  shows "nodes fs i = Some nr \<Longrightarrow> 0 \<le> sint (predecessor_count nr) \<Longrightarrow>
         nat (sint (predecessor_count nr)) \<le> n \<Longrightarrow> chain_resolves fs (Suc n) i"
proof (induction n arbitrary: i nr)
  case 0
  show ?case
  proof (cases "predecessor_id nr")
    case None
    with 0 show ?thesis by simp
  next
    case (Some p)
    with ok 0 obtain pnr where "nodes fs p = Some pnr" "0 \<le> sint (predecessor_count pnr)"
      "sint (predecessor_count pnr) < sint (predecessor_count nr)"
      unfolding counts_ok_def by blast
    with 0 show ?thesis by simp
  qed
next
  case (Suc n)
  show ?case
  proof (cases "predecessor_id nr")
    case None
    with Suc.prems show ?thesis by simp
  next
    case (Some p)
    with ok Suc.prems obtain pnr where p: "nodes fs p = Some pnr" "0 \<le> sint (predecessor_count pnr)"
      "sint (predecessor_count pnr) < sint (predecessor_count nr)"
      unfolding counts_ok_def by blast
    with Suc.prems have "nat (sint (predecessor_count pnr)) \<le> n" by simp
    from Suc.IH [OF p(1) p(2) this] Suc.prems Some show ?thesis by simp
  qed
qed

lemma walk_loop_spec:
  "chain_resolves fs k (dn_id tn) \<Longrightarrow> nodes fs (dn_id tn) = Some nr \<Longrightarrow>
   dn_node_revision tn = Some nr \<Longrightarrow>
   walk_loop (Some cb) fs False (Some tn) b calls =
     Some ((walk_predecessors_spec cb b (pred_args fs k (dn_id tn)))
             \<lparr>wr_calls := calls @ wr_calls (walk_predecessors_spec cb b (pred_args fs k (dn_id tn)))\<rparr>)"
proof (induction k arbitrary: tn nr b calls)
  case 0
  then show ?case by simp
next
  case (Suc k)
  show ?case
  proof (cases "predecessor_id nr")
    case None
    show ?thesis
      apply (subst walk_loop.simps)
      using Suc.prems None
      by (simp add: get_node_revision_def walk_loop_nil split: sum.splits)
  next
    case (Some p)
    with Suc.prems have cr: "chain_resolves fs k p" by simp
    then obtain pnr where pnr: "nodes fs p = Some pnr"
      by (cases k) (auto split: option.splits)
    let ?nd = "\<lparr>dn_id = p, dn_kind = kind pnr, dn_node_revision = Some pnr,
            dn_created_path = created_path pnr\<rparr>"
    have gn: "svn_fs__dag_get_node fs p = Inr ?nd" using pnr by (simp add: get_node_Some)
    have pa: "pred_args fs (Suc k) (dn_id tn) = Some ?nd # pred_args fs k p"
      using Suc.prems Some gn by simp
    have ih: "walk_loop (Some cb) fs False (Some ?nd) b' cs =
       Some ((walk_predecessors_spec cb b' (pred_args fs k p))
             \<lparr>wr_calls := cs @ wr_calls (walk_predecessors_spec cb b' (pred_args fs k p))\<rparr>)"
      for b' cs
      using Suc.IH [of ?nd pnr b' cs] cr pnr by simp
    show ?thesis
      apply (subst walk_loop.simps)
      using Suc.prems Some gn
      by (simp add: pa get_node_revision_def walk_loop_done ih Let_def split: sum.splits)
  qed
qed

lemma pred_args_resolved:
  "chain_resolves fs k i \<Longrightarrow>
     pred_args fs k i \<noteq> [] \<and> last (pred_args fs k i) = None
   \<and> None \<notin> set (butlast (pred_args fs k i))
   \<and> length (pred_args fs k i) \<le> k
   \<and> map (map_option dn_id) (pred_args fs k i) = map Some (pred_ids fs (k - 1) i) @ [None]"
proof (induction k arbitrary: i)
  case 0
  then show ?case by simp
next
  case (Suc k)
  from Suc.prems obtain nr where nr: "nodes fs i = Some nr" by (auto split: option.splits)
  show ?case
  proof (cases "predecessor_id nr")
    case None
    with nr show ?thesis by (cases k) simp_all
  next
    case (Some p)
    with Suc.prems nr have cr: "chain_resolves fs k p" by simp
    then obtain pnr where pnr: "nodes fs p = Some pnr"
      by (cases k) (auto split: option.splits)
    from cr obtain k' where k: "k = Suc k'" by (cases k) auto
    from Suc.IH [OF cr] nr Some pnr show ?thesis
      by (simp add: get_node_Some k)
  qed
qed

lemma walk_spec_calls:
  "prefix (wr_calls (walk_predecessors_spec cb b args)) args
   \<and> (args \<noteq> [] \<longrightarrow> wr_calls (walk_predecessors_spec cb b args) \<noteq> [])"
  by (induction args arbitrary: b) (auto simp: Let_def split: sum.splits)

lemma walk_spec_done_on:
  "\<forall>b x. \<exists>b'. cb b x = Inr (b', P x) \<Longrightarrow>
     wr_err (walk_predecessors_spec cb b args) = None
   \<and> wr_calls (walk_predecessors_spec cb b args)
       = takeWhile (\<lambda>x. \<not> P x) args @ take 1 (dropWhile (\<lambda>x. \<not> P x) args)"
proof (induction args arbitrary: b)
  case Nil
  then show ?case by simp
next
  case (Cons x xs)
  from Cons.prems obtain b' where c: "cb b x = Inr (b', P x)" by blast
  from Cons.IH [OF Cons.prems, of b'] c show ?case by (simp add: Let_def)
qed

section \<open>Facts about the editor's batons\<close>

lemmas ex_wc_defs = ex_foo_entry_def ex_dir_entry_def ex_wc_def ex_questions_def blank_entry_def
  SVN_WC_ENTRY_THIS_DIR_def SVN_INVALID_REVNUM_def ex_wc_entries_def

lemmas ex_ed_defs = ex_eb_def ex_root_baton_def ex_ed_def

lemma make_dir_baton_facts:
  assumes "dir_batons ed pa = Some pb" "pa < next_baton ed"
    "make_dir_baton (Some name) (Some pa) a ed = (this, ed')"
  shows "ed_wc ed' = ed_wc ed" "eb ed' = eb ed"
    "\<exists>d. dir_batons ed' this = Some d \<and> db_path d = svn_path_join (db_path pb) name \<and> added d = a
         \<and> parent_baton d = Some pa"
  using assms
  by (auto simp: make_dir_baton_def Let_def split: prod.splits if_splits)

lemma entry_prop_not_wc_prop: "svn_wc_is_entry_prop name \<Longrightarrow> \<not> svn_wc_is_wc_prop name"
proof
  assume e: "svn_wc_is_entry_prop name" and w: "svn_wc_is_wc_prop name"
  from e have "take (length ''svn:entry:'') name = ''svn:entry:''"
    by (simp only: svn_wc_is_entry_prop_def has_prefix_def SVN_PROP_ENTRY_PREFIX_def)
  then have "name = ''svn:entry:'' @ drop (length ''svn:entry:'') name"
    by (metis append_take_drop_id)
  then obtain t where "name = ''svn:entry:'' @ t" ..
  with w show False
    by (simp add: svn_wc_is_wc_prop_def has_prefix_def SVN_PROP_WC_PREFIX_def)
qed

lemma ex_ed_root: "dir_batons ex_ed 0 = Some ex_root_baton"
  by (simp add: ex_ed_defs)

lemma ex_ed_entries: "entries_of (ed_wc ex_ed) (db_path ex_root_baton) = Some ex_wc_entries"
  by (simp add: ex_ed_defs ex_wc_def)

section \<open>Facts about the log of an installation\<close>

lemma svn_bind_Inr: "svn_bind r f = Inr y \<Longrightarrow> \<exists>x. r = Inr x \<and> f x = Inr y"
  by (cases r) (simp_all add: svn_bind_def)

lemma svn_check_Inr: "svn_check r k = Inr y \<Longrightarrow> r = None \<and> k = Inr y"
  by (cases r) (simp_all add: svn_check_def)

lemma install_text_modified:
  assumes "install_text io q w file_path parent_dir basename ntp regular_props entry_props
             prop_conflicts new_URL entry_accum = Inr (acc, ilm)"
  shows "svn_wc_text_modified_p q file_path = Inr ilm"
  using assms unfolding install_text_def
  by (auto dest!: svn_bind_Inr svn_check_Inr simp: Let_def split: prod.splits if_splits)

lemma tag3: "svn_xml_make_open_tag acc t [(SVN_WC__LOG_ATTR_NAME, b),
                          (SVN_WC_ENTRY_ATTR_KIND, SVN_WC__ENTRIES_ATTR_FILE_STR),
                          (SVN_WC_ENTRY_ATTR_REVISION, r)] = acc @ [LogCmd t [(SVN_WC__LOG_ATTR_NAME, b),
                          (SVN_WC_ENTRY_ATTR_KIND, SVN_WC__ENTRIES_ATTR_FILE_STR),
                          (SVN_WC_ENTRY_ATTR_REVISION, r)]]"
  by (simp add: svn_xml_make_open_tag_def svn_xml_make_open_tag_hash_def
      SVN_WC__LOG_ATTR_NAME_def SVN_WC_ENTRY_ATTR_KIND_def SVN_WC_ENTRY_ATTR_REVISION_def)

lemma tag2: "k \<noteq> SVN_WC__LOG_ATTR_NAME \<Longrightarrow>
   svn_xml_make_open_tag acc t [(SVN_WC__LOG_ATTR_NAME, b), (k, v)]
     = acc @ [LogCmd t [(SVN_WC__LOG_ATTR_NAME, b), (k, v)]]"
  by (auto simp add: svn_xml_make_open_tag_def svn_xml_make_open_tag_hash_def)

lemma install_log_tail:
  assumes "install_log io q w file_path parent_dir basename new_revision new_text_path props
             is_full_proplist new_URL = Inr (entry_accum, wc_props)"
  shows "\<exists>pre. entry_accum =
      pre
      @ [LogCmd SVN_WC__LOG_MODIFY_ENTRY
           [(SVN_WC__LOG_ATTR_NAME, basename),
            (SVN_WC_ENTRY_ATTR_KIND, SVN_WC__ENTRIES_ATTR_FILE_STR),
            (SVN_WC_ENTRY_ATTR_REVISION, ld_string new_revision)]]
      @ (if new_text_path \<noteq> None \<and> svn_wc_text_modified_p q file_path = Inr False
         then [LogCmd SVN_WC__LOG_MODIFY_ENTRY
                 [(SVN_WC__LOG_ATTR_NAME, basename),
                  (SVN_WC_ENTRY_ATTR_TEXT_TIME, SVN_WC_TIMESTAMP_WC)]]
         else [])
      @ (if props \<noteq> None \<and> svn_wc_props_modified_p q file_path = Inr False
         then [LogCmd SVN_WC__LOG_MODIFY_ENTRY
                 [(SVN_WC__LOG_ATTR_NAME, basename),
                  (SVN_WC_ENTRY_ATTR_PROP_TIME, SVN_WC_TIMESTAMP_WC)]]
         else [])
      @ (case new_URL of
           Some u \<Rightarrow> [LogCmd SVN_WC__LOG_MODIFY_ENTRY
                        [(SVN_WC__LOG_ATTR_NAME, basename), (SVN_WC_ENTRY_ATTR_URL, u)]]
         | None \<Rightarrow> [])"
proof -
  have n1: "SVN_WC_ENTRY_ATTR_TEXT_TIME \<noteq> SVN_WC__LOG_ATTR_NAME"
    and n2: "SVN_WC_ENTRY_ATTR_PROP_TIME \<noteq> SVN_WC__LOG_ATTR_NAME"
    and n3: "SVN_WC_ENTRY_ATTR_URL \<noteq> SVN_WC__LOG_ATTR_NAME"
    by (simp_all add: SVN_WC_ENTRY_ATTR_TEXT_TIME_def SVN_WC_ENTRY_ATTR_PROP_TIME_def
        SVN_WC_ENTRY_ATTR_URL_def SVN_WC__LOG_ATTR_NAME_def)
  show ?thesis
    using assms unfolding install_log_def
    by (auto dest!: svn_bind_Inr install_text_modified
        simp: Let_def tag3 tag2 [OF n1] tag2 [OF n2] tag2 [OF n3]
        split: prod.splits if_splits option.splits)
qed

lemmas install_defs = svn_wc_install_file_def install_log_def install_props_def install_text_def
  install_eol_style_def install_keywords_def install_merge_text_def svn_bind_def svn_check_def
  svn_path_split_def svn_path_remove_component_def svn_path_last_component_def
  latest_keyword_data_def svn_io_check_path_def Let_def

section \<open>The store invariants are kept by the operations\<close>

lemma make_entry_store:
  assumes D: "svn_fs__dag_get_node fs pid = Inr D"
    and wf: "fs_wf fs"
    and m: "make_entry D parent_path name is_dir txn_id fs = Inr (child, D', fs')"
  shows "\<exists>nr es new. nodes fs pid = Some nr \<and> new \<noteq> pid \<and> nodes fs new = None
      \<and> node_id new = next_key fs \<and> next_key fs' = Suc (next_key fs)
      \<and> nodes fs' = (nodes fs)
           (new \<mapsto> (zero_noderev pid)\<lparr>nr_id := new,
               kind := (if is_dir then svn_node_dir else svn_node_file),
               created_path := Some (svn_path_join parent_path name)\<rparr>,
            pid \<mapsto> nr\<lparr>data_rep := Some es\<rparr>)"
proof -
  from get_node_Inr [OF D] obtain nr where nr: "nodes fs pid = Some nr"
    and Deq: "D = \<lparr>dn_id = pid, dn_kind = kind nr, dn_node_revision = Some nr,
                   dn_created_path = created_path nr\<rparr>" by blast
  from wf nr have idn: "nr_id nr = pid" and lt: "node_id pid < next_key fs"
    by (auto simp: fs_wf_def)
  let ?new = "\<lparr>node_id = next_key fs, copy_id = copy_id pid, txn_rev = Txn txn_id\<rparr>"
  have ne: "?new \<noteq> pid" using lt by (cases pid) auto
  have fr: "nodes fs ?new = None"
  proof (cases "nodes fs ?new")
    case (Some x)
    with wf have "node_id ?new < next_key fs" unfolding fs_wf_def by blast
    then show ?thesis by simp
  qed simp
  let ?k = "if is_dir then svn_node_dir else svn_node_file"
  let ?es = "(case data_rep nr of None \<Rightarrow> Map.empty | Some e \<Rightarrow> e)
               (name \<mapsto> \<lparr>dirent_id = ?new, dirent_kind = ?k\<rparr>)"
  have "next_key fs' = Suc (next_key fs)
      \<and> nodes fs' = (nodes fs)
           (?new \<mapsto> (zero_noderev pid)\<lparr>nr_id := ?new, kind := ?k,
               created_path := Some (svn_path_join parent_path name)\<rparr>,
            pid \<mapsto> nr\<lparr>data_rep := Some ?es\<rparr>)"
    using m nr idn ne
    by (auto simp add: Deq make_entry_def dir_entry_id_from_node_def
        svn_fs__dag_dir_entries_def get_node_revision_def get_dir_entries_def
        svn_fs__fs_rep_contents_dir_def svn_fs__fs_create_node_def Let_def
        svn_fs__dag_get_node_def svn_fs__fs_get_node_revision_def set_entry_def
        svn_fs__fs_set_entry_def svn_fs__id_copy_id_def zero_noderev_def
        split: option.splits if_splits)
  with nr ne fr show ?thesis by (intro exI [of _ nr] exI [of _ ?es] exI [of _ ?new]) simp
qed

lemma make_entry_preserves:
  assumes D: "svn_fs__dag_get_node fs pid = Inr D"
    and wf: "fs_wf fs"
    and m: "make_entry D parent_path name is_dir txn_id fs = Inr (child, D', fs')"
  shows "fs_wf fs'" and "counts_ok fs \<Longrightarrow> counts_ok fs'"
proof -
  from make_entry_store [OF D wf m] obtain nr es new where
    nr: "nodes fs pid = Some nr" and ne: "new \<noteq> pid" and fr: "nodes fs new = None"
    and nk: "node_id new = next_key fs" "next_key fs' = Suc (next_key fs)"
    and st: "nodes fs' = (nodes fs)
           (new \<mapsto> (zero_noderev pid)\<lparr>nr_id := new,
               kind := (if is_dir then svn_node_dir else svn_node_file),
               created_path := Some (svn_path_join parent_path name)\<rparr>,
            pid \<mapsto> nr\<lparr>data_rep := Some es\<rparr>)" by blast
  from wf nr have idn: "nr_id nr = pid" and lt: "node_id pid < next_key fs"
    unfolding fs_wf_def by blast+
  have old: "\<And>i x. nodes fs i = Some x \<Longrightarrow> nr_id x = i \<and> node_id i < next_key fs"
    using wf unfolding fs_wf_def by blast
  show "fs_wf fs'"
    unfolding fs_wf_def
  proof (intro allI impI)
    fix i x assume a: "nodes fs' i = Some x"
    show "nr_id x = i \<and> node_id i < next_key fs'"
    proof (cases "i = pid")
      case True
      with a idn lt nk show ?thesis by (auto simp: st)
    next
      case False
      show ?thesis
      proof (cases "i = new")
        case True
        with a False nk show ?thesis by (auto simp: st)
      next
        case n: False
        with a False have "nodes fs i = Some x" by (simp add: st)
        from old [OF this] nk show ?thesis by simp
      qed
    qed
  qed
  show "counts_ok fs'" if ok: "counts_ok fs"
    unfolding counts_ok_def
  proof (intro allI impI, elim conjE)
    fix i x p
    assume a: "nodes fs' i = Some x" "0 \<le> sint (predecessor_count x)"
      "predecessor_id x = Some p"
    from a ne have inew: "i \<noteq> new" by (auto simp: st zero_noderev_def split: if_splits)
    from a inew obtain y where y: "nodes fs i = Some y" "predecessor_count y = predecessor_count x"
      "predecessor_id y = predecessor_id x"
      using nr by (auto simp: st split: if_splits)
    with ok a obtain py where py: "nodes fs p = Some py" "0 \<le> sint (predecessor_count py)"
      "sint (predecessor_count py) < sint (predecessor_count y)"
      unfolding counts_ok_def by metis
    from py fr have "p \<noteq> new" by auto
    with py y nr show "\<exists>pnr. nodes fs' p = Some pnr \<and> 0 \<le> sint (predecessor_count pnr)
        \<and> sint (predecessor_count pnr) < sint (predecessor_count x)"
      by (auto simp: st)
  qed
qed

lemma clone_child_store:
  assumes D: "svn_fs__dag_get_node fs pid = Inr D"
    and wf: "fs_wf fs"
    and c: "svn_fs__dag_clone_child D parent_path name cid txn_id fs = Inr (child, D', fs')"
  shows "fs' = fs \<or>
     (\<exists>nr es cid0 cnr new.
        nodes fs pid = Some nr \<and> nodes fs cid0 = Some cnr
      \<and> dn_id child = \<lparr>node_id = node_id cid0, copy_id = cid, txn_rev = Txn txn_id\<rparr>
      \<and> next_key fs' = next_key fs
      \<and> nr_id new = dn_id child \<and> predecessor_id new = Some cid0
      \<and> kind new = kind cnr
      \<and> (\<exists>c1. c1 = (if predecessor_count cnr \<noteq> - 1
                      then predecessor_count cnr + 1 else predecessor_count cnr)
             \<and> predecessor_count new = (if 0 \<le> sint c1 then c1 + 1 else c1))
      \<and> nodes fs' = (nodes fs)(dn_id child \<mapsto> new, pid \<mapsto> nr\<lparr>data_rep := Some es\<rparr>))"
proof -
  from get_node_Inr [OF D] obtain nr where nr: "nodes fs pid = Some nr"
    and Deq: "D = \<lparr>dn_id = pid, dn_kind = kind nr, dn_node_revision = Some nr,
                   dn_created_path = created_path nr\<rparr>" by blast
  from wf nr have idn: "nr_id nr = pid" unfolding fs_wf_def by blast
  from c obtain cur D1 where opn: "svn_fs__dag_open D name fs = Inr (cur, D1)"
    by (auto simp: svn_fs__dag_clone_child_def split: if_splits sum.splits)
  from open_Inr [OF opn Deq] obtain es d cnr where
    D1: "D1 = D" and es: "data_rep nr = Some es" and d: "es name = Some d"
    and cnr: "nodes fs (dirent_id d) = Some cnr"
    and cur: "cur = \<lparr>dn_id = dirent_id d, dn_kind = kind cnr, dn_node_revision = Some cnr,
                      dn_created_path = created_path cnr\<rparr>" by blast
  from wf cnr have idc: "nr_id cnr = dirent_id d" unfolding fs_wf_def by blast
  show ?thesis
  proof (cases "svn_fs__dag_check_mutable cur txn_id")
    case True
    with c opn show ?thesis
      by (auto simp: svn_fs__dag_clone_child_def split: if_splits sum.splits)
  next
    case False
    let ?new = "\<lparr>node_id = node_id (dirent_id d), copy_id = cid, txn_rev = Txn txn_id\<rparr>"
    let ?c1 = "if predecessor_count cnr \<noteq> - 1
               then predecessor_count cnr + 1 else predecessor_count cnr"
    let ?old = "cnr\<lparr>predecessor_id := Some (dirent_id d),
                  predecessor_count := (if 0 \<le> sint ?c1 then ?c1 + 1 else ?c1),
                  created_path := Some (svn_path_join parent_path name),
                  nr_id := ?new\<rparr>"
    let ?es = "es(name \<mapsto> \<lparr>dirent_id = ?new, dirent_kind = kind cnr\<rparr>)"
    have "dn_id child = ?new \<and> next_key fs' = next_key fs
        \<and> nodes fs' = (nodes fs)(?new \<mapsto> ?old, pid \<mapsto> nr\<lparr>data_rep := Some ?es\<rparr>)"
      using c opn False nr idn es d cnr
      by (auto simp: D1 Deq cur svn_fs__dag_clone_child_def svn_fs__dag_check_mutable_def
         get_node_revision_def Let_def svn_fs__fs_create_successor_def set_entry_def
         svn_fs__fs_set_entry_def dest!: get_node_Inr split: if_splits sum.splits)
    with nr cnr show ?thesis
      by (intro disjI2 exI [of _ nr] exI [of _ ?es] exI [of _ "dirent_id d"] exI [of _ cnr]
          exI [of _ ?old]) simp
  qed
qed


lemma clone_child_preserves:
  assumes D: "svn_fs__dag_get_node fs pid = Inr D"
    and wf: "fs_wf fs"
    and c: "svn_fs__dag_clone_child D parent_path name cid txn_id fs = Inr (child, D', fs')"
  shows "fs_wf fs'"
    and "counts_ok fs \<Longrightarrow> fs' = fs \<or> nodes fs (dn_id child) = None \<Longrightarrow> counts_ok fs'"
proof -
  have old: "\<And>i x. nodes fs i = Some x \<Longrightarrow> nr_id x = i \<and> node_id i < next_key fs"
    using wf unfolding fs_wf_def by blast
  show "fs_wf fs'"
  proof (cases "fs' = fs")
    case True
    with wf show ?thesis by simp
  next
    case False
    with clone_child_store [OF D wf c] obtain nr es cid0 cnr new where
      nr: "nodes fs pid = Some nr" and cnr: "nodes fs cid0 = Some cnr"
      and ci: "dn_id child = \<lparr>node_id = node_id cid0, copy_id = cid, txn_rev = Txn txn_id\<rparr>"
      and nk: "next_key fs' = next_key fs" and ni: "nr_id new = dn_id child"
      and st: "nodes fs' = (nodes fs)(dn_id child \<mapsto> new, pid \<mapsto> nr\<lparr>data_rep := Some es\<rparr>)"
      by blast
    show ?thesis
      unfolding fs_wf_def
    proof (intro allI impI)
      fix i x assume a: "nodes fs' i = Some x"
      show "nr_id x = i \<and> node_id i < next_key fs'"
      proof (cases "i = pid")
        case True
        with a st have "x = nr\<lparr>data_rep := Some es\<rparr>" by simp
        with old [OF nr] True nk show ?thesis by simp
      next
        case np: False
        show ?thesis
        proof (cases "i = dn_id child")
          case True
          with a np st have "x = new" by simp
          with old [OF cnr] True ni nk ci show ?thesis by simp
        next
          case False
          with a np st have "nodes fs i = Some x" by simp
          from old [OF this] nk show ?thesis by simp
        qed
      qed
    qed
  qed
  show "counts_ok fs'" if ok: "counts_ok fs" and fr: "fs' = fs \<or> nodes fs (dn_id child) = None"
  proof (cases "fs' = fs")
    case True
    with ok show ?thesis by simp
  next
    case False
    with clone_child_store [OF D wf c] fr obtain nr es cid0 cnr new where
      nr: "nodes fs pid = Some nr" and cnr: "nodes fs cid0 = Some cnr"
      and pn: "predecessor_id new = Some cid0"
      and pc: "\<exists>c1. c1 = (if predecessor_count cnr \<noteq> - 1
                      then predecessor_count cnr + 1 else predecessor_count cnr)
             \<and> predecessor_count new = (if 0 \<le> sint c1 then c1 + 1 else c1)"
      and st: "nodes fs' = (nodes fs)(dn_id child \<mapsto> new, pid \<mapsto> nr\<lparr>data_rep := Some es\<rparr>)"
      and fresh: "nodes fs (dn_id child) = None"
      by blast
    have keep: "\<exists>z. nodes fs' p = Some z \<and> predecessor_count z = predecessor_count y"
      if "nodes fs p = Some y" for p y
    proof (cases "p = pid")
      case True
      with that nr st show ?thesis by simp
    next
      case False
      from that fresh have "p \<noteq> dn_id child" by auto
      with False that st show ?thesis by simp
    qed
    show ?thesis
      unfolding counts_ok_def
    proof (intro allI impI, elim conjE)
      fix i x p
      assume a: "nodes fs' i = Some x" and a0: "0 \<le> sint (predecessor_count x)"
        and ap: "predecessor_id x = Some p"
      show "\<exists>pnr. nodes fs' p = Some pnr \<and> 0 \<le> sint (predecessor_count pnr)
          \<and> sint (predecessor_count pnr) < sint (predecessor_count x)"
      proof (cases "i = pid")
        case True
        with a st have x: "x = nr\<lparr>data_rep := Some es\<rparr>" by simp
        with a0 ap have "0 \<le> sint (predecessor_count nr)" "predecessor_id nr = Some p"
          by simp_all
        with ok nr obtain py where py: "nodes fs p = Some py" "0 \<le> sint (predecessor_count py)"
          "sint (predecessor_count py) < sint (predecessor_count nr)"
          unfolding counts_ok_def by blast
        from keep [OF py(1)] py x show ?thesis by auto
      next
        case np: False
        show ?thesis
        proof (cases "i = dn_id child")
          case True
          with a np st have x: "x = new" by simp
          with ap pn have p: "p = cid0" by simp
          from pc obtain c1 where
            c1: "c1 = (if predecessor_count cnr \<noteq> - 1
                       then predecessor_count cnr + 1 else predecessor_count cnr)"
            and nw: "predecessor_count new = (if 0 \<le> sint c1 then c1 + 1 else c1)" by blast
          from bump_twice(1) [OF c1 nw] a0 x have "0 \<le> sint (predecessor_count cnr)
              \<and> sint (predecessor_count cnr) < sint (predecessor_count x)"
            by simp
          with keep [OF cnr] p show ?thesis by auto
        next
          case False
          with a np st have y: "nodes fs i = Some x" by simp
          with ok a0 ap obtain py where py: "nodes fs p = Some py"
            "0 \<le> sint (predecessor_count py)"
            "sint (predecessor_count py) < sint (predecessor_count x)"
            unfolding counts_ok_def by blast
          from keep [OF py(1)] py show ?thesis by auto
        qed
      qed
    qed
  qed
qed

section \<open>Theorems: the mutability check\<close>

text \<open>Claim C1, as stated, fails twice on the code. A node whose id carries transaction
  \<^verbatim>\<open>t1\<close> passes the check of an operation run for transaction \<^verbatim>\<open>t2\<close>: the check does not
  compare transactions. And \<^verbatim>\<open>svn_fs__dag_set_entry\<close> on a directory of a committed revision
  fails with \<^verbatim>\<open>SVN_ERR_FS_NOT_DIRECTORY\<close>, not with the not-mutable error.\<close>

theorem check_mutable_same_txn_counterexample:
  "svn_fs__id_txn_id (dn_id (ex_node ex_f svn_node_file)) \<noteq> Some ''t2''
   \<and> svn_fs__dag_check_mutable (ex_node ex_f svn_node_file) ''t2''
   \<and> \<not> isl (svn_fs__dag_finalize_edits (ex_node ex_f svn_node_file) ''c'' ''t2'' ex_fs)
   \<and> \<not> isl (svn_fs__dag_get_edit_stream (ex_node ex_f svn_node_file) ''t2'' ex_fs)
   \<and> svn_fs__id_txn_id (dn_id (ex_node ex_r0 svn_node_dir)) = None
   \<and> svn_fs__dag_set_entry (ex_node ex_r0 svn_node_dir) ''b'' ex_f ''t1'' ex_fs
       = Inl SVN_ERR_FS_NOT_DIRECTORY"
  by (simp add: ex_defs svn_fs__id_txn_id_def svn_fs__dag_finalize_edits_def
      svn_fs__dag_get_edit_stream_def svn_fs__dag_check_mutable_def svn_fs__dag_set_entry_def
      get_node_revision_def svn_fs__fs_get_node_revision_def svn_fs__fs_set_contents_def
      Let_def)

text \<open>Claim C1, amended. The check that every mutating operation makes holds exactly when
  the node's id carries some transaction: the transaction of the call is not compared, so
  get\_edit\_stream and finalize\_edits give the same result for every transaction. On a
  node whose id carries a transaction, no operation fails with the not-mutable error,
  whatever the transaction of the call, and set\_entry on a directory goes on to change the
  entry. On a node whose id carries none, clone\_child fails with the not-mutable error;
  make\_file and make\_dir fail, with the not-mutable error once the name is a single path
  component and the parent is a directory; get\_edit\_stream and finalize\_edits fail,
  with the not-mutable error on a file; set\_entry fails.\<close>

theorem mutating_ops_check_mutable:
  "(svn_fs__dag_check_mutable node txn_id \<longleftrightarrow> svn_fs__id_txn_id (dn_id node) \<noteq> None)
   \<and> svn_fs__dag_get_edit_stream node txn_id fs = svn_fs__dag_get_edit_stream node txn_id2 fs
   \<and> svn_fs__dag_finalize_edits node checksum txn_id fs
       = svn_fs__dag_finalize_edits node checksum txn_id2 fs
   \<and> (svn_fs__id_txn_id (dn_id node) \<noteq> None \<longrightarrow>
          svn_fs__dag_clone_child node parent_path name cid txn_id fs \<noteq> Inl SVN_ERR_FS_NOT_MUTABLE
        \<and> svn_fs__dag_make_file node parent_path name txn_id fs \<noteq> Inl SVN_ERR_FS_NOT_MUTABLE
        \<and> svn_fs__dag_make_dir node parent_path name txn_id fs \<noteq> Inl SVN_ERR_FS_NOT_MUTABLE
        \<and> svn_fs__dag_get_edit_stream node txn_id fs \<noteq> Inl SVN_ERR_FS_NOT_MUTABLE
        \<and> svn_fs__dag_finalize_edits node checksum txn_id fs \<noteq> Inl SVN_ERR_FS_NOT_MUTABLE
        \<and> (dn_kind node = svn_node_dir \<longrightarrow>
              svn_fs__dag_set_entry node name i txn_id fs
                = set_entry node name i svn_node_dir txn_id fs))
   \<and> (svn_fs__id_txn_id (dn_id node) = None \<longrightarrow>
          svn_fs__dag_clone_child node parent_path name cid txn_id fs = Inl SVN_ERR_FS_NOT_MUTABLE
        \<and> (svn_path_is_single_path_component name \<and> dn_kind node = svn_node_dir \<longrightarrow>
              svn_fs__dag_make_file node parent_path name txn_id fs = Inl SVN_ERR_FS_NOT_MUTABLE
            \<and> svn_fs__dag_make_dir node parent_path name txn_id fs = Inl SVN_ERR_FS_NOT_MUTABLE)
        \<and> (dn_kind node = svn_node_file \<longrightarrow>
              svn_fs__dag_get_edit_stream node txn_id fs = Inl SVN_ERR_FS_NOT_MUTABLE
            \<and> svn_fs__dag_finalize_edits node checksum txn_id fs = Inl SVN_ERR_FS_NOT_MUTABLE)
        \<and> isl (svn_fs__dag_make_file node parent_path name txn_id fs)
        \<and> isl (svn_fs__dag_make_dir node parent_path name txn_id fs)
        \<and> isl (svn_fs__dag_set_entry node name i txn_id fs)
        \<and> isl (svn_fs__dag_get_edit_stream node txn_id fs)
        \<and> isl (svn_fs__dag_finalize_edits node checksum txn_id fs))"
proof -
  have cm: "svn_fs__dag_check_mutable node t \<longleftrightarrow> svn_fs__id_txn_id (dn_id node) \<noteq> None" for t
    by (simp add: svn_fs__dag_check_mutable_def)
  have e1: "svn_fs__dag_get_edit_stream node txn_id fs = svn_fs__dag_get_edit_stream node txn_id2 fs"
    and e2: "svn_fs__dag_finalize_edits node checksum txn_id fs
       = svn_fs__dag_finalize_edits node checksum txn_id2 fs"
    by (simp_all add: svn_fs__dag_get_edit_stream_def svn_fs__dag_finalize_edits_def cm)
  have gn: "get_node_revision n fs \<noteq> Inl SVN_ERR_FS_NOT_MUTABLE" for n fs
    by (simp add: get_node_revision_def svn_fs__fs_get_node_revision_def
        split: option.splits sum.splits)
  have gd: "svn_fs__dag_get_node fs j \<noteq> Inl SVN_ERR_FS_NOT_MUTABLE" for j fs
    by (simp add: svn_fs__dag_get_node_def get_node_revision_def svn_fs__fs_get_node_revision_def
        Let_def split: option.splits sum.splits)
  have se: "set_entry n nm j k t fs \<noteq> Inl SVN_ERR_FS_NOT_MUTABLE" for n nm j k t fs
    by (simp add: set_entry_def get_node_revision_def svn_fs__fs_get_node_revision_def
        svn_fs__fs_set_entry_def Let_def split: option.splits sum.splits)
  have de: "dir_entry_id_from_node n nm fs \<noteq> Inl SVN_ERR_FS_NOT_MUTABLE" for n nm fs
    by (simp add: dir_entry_id_from_node_def svn_fs__dag_dir_entries_def get_dir_entries_def
        svn_fs__fs_rep_contents_dir_def get_node_revision_def svn_fs__fs_get_node_revision_def
        Let_def split: option.splits sum.splits)
  have op: "svn_fs__dag_open n nm fs \<noteq> Inl SVN_ERR_FS_NOT_MUTABLE" for n nm fs
    using de [of n nm fs] gd
    by (auto simp: svn_fs__dag_open_def split: sum.splits option.splits)
  have me: "make_entry node parent_path name d txn_id fs \<noteq> Inl SVN_ERR_FS_NOT_MUTABLE"
    if "svn_fs__id_txn_id (dn_id node) \<noteq> None" for d
    using that de [of node name fs] gd se
    by (auto simp: make_entry_def cm svn_fs__fs_create_node_def Let_def
        split: sum.splits option.splits)
  have cc: "svn_fs__dag_clone_child node parent_path name cid txn_id fs \<noteq> Inl SVN_ERR_FS_NOT_MUTABLE"
    if "svn_fs__id_txn_id (dn_id node) \<noteq> None"
    using that op [of node name fs] gd gn se
    by (auto simp: svn_fs__dag_clone_child_def cm svn_fs__fs_create_successor_def Let_def
        split: sum.splits option.splits)
  have A: "svn_fs__dag_clone_child node parent_path name cid txn_id fs \<noteq> Inl SVN_ERR_FS_NOT_MUTABLE
        \<and> svn_fs__dag_make_file node parent_path name txn_id fs \<noteq> Inl SVN_ERR_FS_NOT_MUTABLE
        \<and> svn_fs__dag_make_dir node parent_path name txn_id fs \<noteq> Inl SVN_ERR_FS_NOT_MUTABLE
        \<and> svn_fs__dag_get_edit_stream node txn_id fs \<noteq> Inl SVN_ERR_FS_NOT_MUTABLE
        \<and> svn_fs__dag_finalize_edits node checksum txn_id fs \<noteq> Inl SVN_ERR_FS_NOT_MUTABLE
        \<and> (dn_kind node = svn_node_dir \<longrightarrow>
              svn_fs__dag_set_entry node name i txn_id fs
                = set_entry node name i svn_node_dir txn_id fs)"
    if m: "svn_fs__id_txn_id (dn_id node) \<noteq> None"
  proof -
    have g: "svn_fs__dag_get_edit_stream node txn_id fs \<noteq> Inl SVN_ERR_FS_NOT_MUTABLE"
      using m gn [of node]
      by (auto simp: svn_fs__dag_get_edit_stream_def cm svn_fs__fs_set_contents_def Let_def
          split: sum.splits)
    have f: "svn_fs__dag_finalize_edits node checksum txn_id fs \<noteq> Inl SVN_ERR_FS_NOT_MUTABLE"
      using m gn [of node]
      by (auto simp: svn_fs__dag_finalize_edits_def cm split: sum.splits)
    have s: "dn_kind node = svn_node_dir \<longrightarrow>
              svn_fs__dag_set_entry node name i txn_id fs
                = set_entry node name i svn_node_dir txn_id fs"
      using m by (simp add: svn_fs__dag_set_entry_def cm)
    from cc [OF m] me [OF m] g f s show ?thesis
      by (simp add: svn_fs__dag_make_file_def svn_fs__dag_make_dir_def)
  qed
  have B: "svn_fs__dag_clone_child node parent_path name cid txn_id fs = Inl SVN_ERR_FS_NOT_MUTABLE
        \<and> (svn_path_is_single_path_component name \<and> dn_kind node = svn_node_dir \<longrightarrow>
              svn_fs__dag_make_file node parent_path name txn_id fs = Inl SVN_ERR_FS_NOT_MUTABLE
            \<and> svn_fs__dag_make_dir node parent_path name txn_id fs = Inl SVN_ERR_FS_NOT_MUTABLE)
        \<and> (dn_kind node = svn_node_file \<longrightarrow>
              svn_fs__dag_get_edit_stream node txn_id fs = Inl SVN_ERR_FS_NOT_MUTABLE
            \<and> svn_fs__dag_finalize_edits node checksum txn_id fs = Inl SVN_ERR_FS_NOT_MUTABLE)
        \<and> isl (svn_fs__dag_make_file node parent_path name txn_id fs)
        \<and> isl (svn_fs__dag_make_dir node parent_path name txn_id fs)
        \<and> isl (svn_fs__dag_set_entry node name i txn_id fs)
        \<and> isl (svn_fs__dag_get_edit_stream node txn_id fs)
        \<and> isl (svn_fs__dag_finalize_edits node checksum txn_id fs)"
    if "svn_fs__id_txn_id (dn_id node) = None"
    using that
    by (simp add: cm svn_fs__dag_clone_child_def
      svn_fs__dag_make_file_def svn_fs__dag_make_dir_def make_entry_def
      svn_fs__dag_get_edit_stream_def svn_fs__dag_finalize_edits_def svn_fs__dag_set_entry_def)
  from cm [of txn_id] e1 e2 A B show ?thesis by blast
qed

theorem mutating_ops_check_mutable_witness:
  "svn_fs__dag_get_node ex_fs ex_f = Inr ex_f_node
   \<and> svn_fs__id_txn_id (dn_id ex_f_node) = Some ''t1''
   \<and> svn_fs__dag_check_mutable ex_f_node ''t2''
   \<and> svn_fs__dag_finalize_edits ex_f_node ''c'' ''t2'' ex_fs
       = svn_fs__dag_finalize_edits ex_f_node ''c'' ''t1'' ex_fs
   \<and> svn_fs__dag_get_edit_stream ex_f_node ''t2'' ex_fs
       = svn_fs__dag_get_edit_stream ex_f_node ''t1'' ex_fs
   \<and> svn_fs__dag_finalize_edits ex_f_node ''c'' ''t2'' ex_fs \<noteq> Inl SVN_ERR_FS_NOT_MUTABLE
   \<and> svn_fs__id_txn_id (dn_id ex_root) = Some ''t1''
   \<and> dn_kind ex_root = svn_node_dir
   \<and> svn_fs__dag_make_file ex_root ''/'' ''b'' ''t2'' ex_fs \<noteq> Inl SVN_ERR_FS_NOT_MUTABLE
   \<and> svn_fs__dag_clone_child ex_root ''/'' ''a'' ''0'' ''t2'' ex_fs \<noteq> Inl SVN_ERR_FS_NOT_MUTABLE
   \<and> svn_fs__dag_set_entry ex_root ''b'' ex_f ''t2'' ex_fs
       = set_entry ex_root ''b'' ex_f svn_node_dir ''t2'' ex_fs
   \<and> svn_fs__dag_get_node ex_fs ex_r0 = Inr ex_r0_node
   \<and> svn_fs__id_txn_id (dn_id ex_r0_node) = None
   \<and> svn_path_is_single_path_component ''b''
   \<and> dn_kind ex_r0_node = svn_node_dir
   \<and> \<not> svn_fs__dag_check_mutable ex_r0_node ''t1''
   \<and> svn_fs__dag_make_file ex_r0_node ''/'' ''b'' ''t1'' ex_fs = Inl SVN_ERR_FS_NOT_MUTABLE
   \<and> svn_fs__dag_make_dir ex_r0_node ''/'' ''b'' ''t1'' ex_fs = Inl SVN_ERR_FS_NOT_MUTABLE
   \<and> svn_fs__dag_clone_child ex_r0_node ''/'' ''a'' ''0'' ''t1'' ex_fs = Inl SVN_ERR_FS_NOT_MUTABLE
   \<and> isl (svn_fs__dag_set_entry ex_r0_node ''b'' ex_f ''t1'' ex_fs)
   \<and> svn_fs__dag_get_node ex_fs3 ex_g1 = Inr ex_g_node
   \<and> svn_fs__id_txn_id (dn_id ex_g_node) = None
   \<and> dn_kind ex_g_node = svn_node_file
   \<and> svn_fs__dag_get_edit_stream ex_g_node ''t1'' ex_fs3 = Inl SVN_ERR_FS_NOT_MUTABLE
   \<and> svn_fs__dag_finalize_edits ex_g_node ''c'' ''t1'' ex_fs3 = Inl SVN_ERR_FS_NOT_MUTABLE"
proof -
  have hf: "svn_fs__dag_get_node ex_fs ex_f = Inr ex_f_node"
    and hr: "svn_fs__dag_get_node ex_fs ex_r0 = Inr ex_r0_node"
    and hg: "svn_fs__dag_get_node ex_fs3 ex_g1 = Inr ex_g_node"
    by (simp_all add: ex_defs ex3_defs svn_fs__dag_get_node_def get_node_revision_def
        svn_fs__fs_get_node_revision_def)
  have tf: "svn_fs__id_txn_id (dn_id ex_f_node) = Some ''t1''"
    and tr: "svn_fs__id_txn_id (dn_id ex_root) = Some ''t1''"
    and t0: "svn_fs__id_txn_id (dn_id ex_r0_node) = None"
    and tg: "svn_fs__id_txn_id (dn_id ex_g_node) = None"
    by (simp_all add: ex_defs ex3_defs svn_fs__id_txn_id_def)
  have n: "svn_path_is_single_path_component ''b''"
    by (simp add: svn_path_is_single_path_component_def)
  have kr: "dn_kind ex_root = svn_node_dir" and k0: "dn_kind ex_r0_node = svn_node_dir"
    and kg: "dn_kind ex_g_node = svn_node_file"
    by (simp_all add: ex_defs ex3_defs)
  from tf tr have tf': "svn_fs__id_txn_id (dn_id ex_f_node) \<noteq> None"
    and tr': "svn_fs__id_txn_id (dn_id ex_root) \<noteq> None" by simp_all
  note F = mutating_ops_check_mutable [of ex_f_node "''t2''" ex_fs "''t1''" "''c''"]
  note R = mutating_ops_check_mutable [of ex_root "''t2''" ex_fs _ _ "''/''" _ "''0''" ex_f]
  note Z = mutating_ops_check_mutable [of ex_r0_node "''t1''" ex_fs _ _ "''/''" _ "''0''" ex_f]
  note G = mutating_ops_check_mutable [of ex_g_node "''t1''" ex_fs3 _ "''c''"]
  from F tf' have A: "svn_fs__dag_check_mutable ex_f_node ''t2''"
    "svn_fs__dag_finalize_edits ex_f_node ''c'' ''t2'' ex_fs
       = svn_fs__dag_finalize_edits ex_f_node ''c'' ''t1'' ex_fs"
    "svn_fs__dag_get_edit_stream ex_f_node ''t2'' ex_fs
       = svn_fs__dag_get_edit_stream ex_f_node ''t1'' ex_fs"
    "svn_fs__dag_finalize_edits ex_f_node ''c'' ''t2'' ex_fs \<noteq> Inl SVN_ERR_FS_NOT_MUTABLE"
    by blast+
  from R [of "''b''"] R [of "''a''"] tr' kr
  have B: "svn_fs__dag_make_file ex_root ''/'' ''b'' ''t2'' ex_fs \<noteq> Inl SVN_ERR_FS_NOT_MUTABLE"
    "svn_fs__dag_clone_child ex_root ''/'' ''a'' ''0'' ''t2'' ex_fs \<noteq> Inl SVN_ERR_FS_NOT_MUTABLE"
    "svn_fs__dag_set_entry ex_root ''b'' ex_f ''t2'' ex_fs
       = set_entry ex_root ''b'' ex_f svn_node_dir ''t2'' ex_fs"
    by blast+
  from Z [of "''b''"] Z [of "''a''"] t0 k0 n
  have C: "\<not> svn_fs__dag_check_mutable ex_r0_node ''t1''"
    "svn_fs__dag_make_file ex_r0_node ''/'' ''b'' ''t1'' ex_fs = Inl SVN_ERR_FS_NOT_MUTABLE"
    "svn_fs__dag_make_dir ex_r0_node ''/'' ''b'' ''t1'' ex_fs = Inl SVN_ERR_FS_NOT_MUTABLE"
    "svn_fs__dag_clone_child ex_r0_node ''/'' ''a'' ''0'' ''t1'' ex_fs = Inl SVN_ERR_FS_NOT_MUTABLE"
    "isl (svn_fs__dag_set_entry ex_r0_node ''b'' ex_f ''t1'' ex_fs)"
    by blast+
  from G tg kg
  have D: "svn_fs__dag_get_edit_stream ex_g_node ''t1'' ex_fs3 = Inl SVN_ERR_FS_NOT_MUTABLE"
    "svn_fs__dag_finalize_edits ex_g_node ''c'' ''t1'' ex_fs3 = Inl SVN_ERR_FS_NOT_MUTABLE"
    by blast+
  from hf tf A tr kr B hr t0 n k0 C hg tg kg D show ?thesis by blast
qed

section \<open>Theorems: creating and opening an entry\<close>



section \<open>Theorems: cloning a child\<close>




section \<open>Theorems: walking the predecessors\<close>

text \<open>Claim C7. Take the handle of a node of the store. When its predecessor chain ends
  within the store, the walk returns, and it is the walk of the specification on the
  handles of the successive predecessors followed by nil: the callback is invoked on each
  of them in turn, and the walk ends with the first invocation that fails or sets \<^verbatim>\<open>done\<close>,
  or else with the invocation on nil, which comes last and only there. In particular a
  callback that never fails and sets \<^verbatim>\<open>done\<close> on the arguments \<open>P\<close> is invoked on the arguments
  up to and including the first that satisfies \<open>P\<close>. In a store whose predecessor counts are
  consistent, a node whose predecessor count \<open>c\<close> is not negative has such a chain, and the
  callback is invoked at least once and at most \<open>c + 1\<close> times.\<close>

theorem walk_predecessors_bound:
  assumes n: "svn_fs__dag_get_node fs i = Inr node"
  shows "(chain_resolves fs k i \<longrightarrow>
            svn_fs__dag_walk_predecessors node (Some cb) baton fs
              = Some (walk_predecessors_spec cb baton (pred_args fs k i))
          \<and> last (pred_args fs k i) = None \<and> None \<notin> set (butlast (pred_args fs k i))
          \<and> map (map_option dn_id) (pred_args fs k i) = map Some (pred_ids fs (k - 1) i) @ [None]
          \<and> ((\<forall>b x. \<exists>b'. cb b x = Inr (b', P x)) \<longrightarrow>
               (\<exists>r. svn_fs__dag_walk_predecessors node (Some cb) baton fs = Some r
                  \<and> wr_err r = None
                  \<and> wr_calls r = takeWhile (\<lambda>x. \<not> P x) (pred_args fs k i)
                                 @ take 1 (dropWhile (\<lambda>x. \<not> P x) (pred_args fs k i)))))
       \<and> (counts_ok fs \<and> svn_fs__dag_get_predecessor_count node fs = Inr (c, node')
            \<and> 0 \<le> sint c \<longrightarrow>
            chain_resolves fs (nat (sint c) + 1) i
          \<and> (\<exists>r. svn_fs__dag_walk_predecessors node (Some cb) baton fs = Some r
                \<and> wr_calls r \<noteq> [] \<and> length (wr_calls r) \<le> nat (sint c) + 1))"
proof -
  from get_node_Inr [OF n] obtain nr where nr: "nodes fs i = Some nr"
    and N: "node = \<lparr>dn_id = i, dn_kind = kind nr, dn_node_revision = Some nr,
                   dn_created_path = created_path nr\<rparr>" by blast
  have W: "svn_fs__dag_walk_predecessors node (Some cb) baton fs
              = Some (walk_predecessors_spec cb baton (pred_args fs m i))"
    if cr: "chain_resolves fs m i" for m
    using walk_loop_spec [of fs m node nr cb baton "[]"] cr nr N
    by (simp add: svn_fs__dag_walk_predecessors_def)
  have A: "svn_fs__dag_walk_predecessors node (Some cb) baton fs
              = Some (walk_predecessors_spec cb baton (pred_args fs k i))
          \<and> last (pred_args fs k i) = None \<and> None \<notin> set (butlast (pred_args fs k i))
          \<and> map (map_option dn_id) (pred_args fs k i) = map Some (pred_ids fs (k - 1) i) @ [None]
          \<and> ((\<forall>b x. \<exists>b'. cb b x = Inr (b', P x)) \<longrightarrow>
               (\<exists>r. svn_fs__dag_walk_predecessors node (Some cb) baton fs = Some r
                  \<and> wr_err r = None
                  \<and> wr_calls r = takeWhile (\<lambda>x. \<not> P x) (pred_args fs k i)
                                 @ take 1 (dropWhile (\<lambda>x. \<not> P x) (pred_args fs k i))))"
    if cr: "chain_resolves fs k i"
  proof -
    note w = W [OF cr]
    from pred_args_resolved [OF cr] have p: "last (pred_args fs k i) = None"
      "None \<notin> set (butlast (pred_args fs k i))"
      "map (map_option dn_id) (pred_args fs k i) = map Some (pred_ids fs (k - 1) i) @ [None]"
      by simp_all
    have d: "\<exists>r. svn_fs__dag_walk_predecessors node (Some cb) baton fs = Some r
                  \<and> wr_err r = None
                  \<and> wr_calls r = takeWhile (\<lambda>x. \<not> P x) (pred_args fs k i)
                                 @ take 1 (dropWhile (\<lambda>x. \<not> P x) (pred_args fs k i))"
      if h: "\<forall>b x. \<exists>b'. cb b x = Inr (b', P x)"
      using walk_spec_done_on [of cb P baton "pred_args fs k i", OF h] w by simp
    from w p d show ?thesis by blast
  qed
  have B: "chain_resolves fs (nat (sint c) + 1) i
          \<and> (\<exists>r. svn_fs__dag_walk_predecessors node (Some cb) baton fs = Some r
                \<and> wr_calls r \<noteq> [] \<and> length (wr_calls r) \<le> nat (sint c) + 1)"
    if ok: "counts_ok fs" and c: "svn_fs__dag_get_predecessor_count node fs = Inr (c, node')"
      and c0: "0 \<le> sint c"
  proof -
    from c N have cc: "predecessor_count nr = c"
      by (simp add: svn_fs__dag_get_predecessor_count_def get_node_revision_def)
    from counts_chain_resolves [OF ok nr, of "nat (sint c)"] cc c0
    have cr: "chain_resolves fs (nat (sint c) + 1) i" by simp
    let ?args = "pred_args fs (nat (sint c) + 1) i"
    let ?r = "walk_predecessors_spec cb baton ?args"
    from pred_args_resolved [OF cr] have ne: "?args \<noteq> []" and le: "length ?args \<le> nat (sint c) + 1"
      by simp_all
    from walk_spec_calls [of cb baton ?args] ne have pf: "prefix (wr_calls ?r) ?args"
      and ne': "wr_calls ?r \<noteq> []" by simp_all
    from prefix_length_le [OF pf] le have "length (wr_calls ?r) \<le> nat (sint c) + 1" by simp
    with W [OF cr] ne' cr show ?thesis by blast
  qed
  from A B show ?thesis by blast
qed

theorem walk_predecessors_bound_witness:
  "svn_fs__dag_get_node ex_fs3 ex_rt3 = Inr ex_root3
   \<and> chain_resolves ex_fs3 3 ex_rt3
   \<and> pred_args ex_fs3 3 ex_rt3 = [Some ex_r1_node, Some ex_r0_node, None]
   \<and> counts_ok ex_fs3
   \<and> svn_fs__dag_get_predecessor_count ex_root3 ex_fs3 = Inr (2, ex_root3)
   \<and> 0 \<le> sint (2 :: 32 word)
   \<and> (\<forall>b x. \<exists>b'. (\<lambda>b x. Inr (Suc b, map_option dn_id x = Some ex_r0)) b x
                    = (Inr (b', map_option dn_id x = Some ex_r0) :: svn_err + nat \<times> bool))
   \<and> svn_fs__dag_walk_predecessors ex_root3
        (Some (\<lambda>b x. Inr (Suc b, map_option dn_id x = Some ex_r0))) (0::nat) ex_fs3
       = Some \<lparr>wr_err = None, wr_baton = 2, wr_calls = [Some ex_r1_node, Some ex_r0_node]\<rparr>
   \<and> svn_fs__dag_walk_predecessors ex_root3 (Some (\<lambda>b x. Inr (Suc b, False))) (0::nat) ex_fs3
       = Some \<lparr>wr_err = None, wr_baton = 3,
               wr_calls = [Some ex_r1_node, Some ex_r0_node, None]\<rparr>
   \<and> svn_fs__dag_walk_predecessors ex_root3 (Some (\<lambda>b x. Inr (Suc b, True))) (0::nat) ex_fs3
       = Some \<lparr>wr_err = None, wr_baton = 1, wr_calls = [Some ex_r1_node]\<rparr>
   \<and> (\<exists>r. svn_fs__dag_walk_predecessors ex_root3
              (Some (\<lambda>b x. Inl SVN_ERR_FS_NOT_FOUND)) (0::nat) ex_fs3 = Some r
          \<and> wr_calls r \<noteq> [] \<and> length (wr_calls r) \<le> 3)"
proof -
  have h: "svn_fs__dag_get_node ex_fs3 ex_rt3 = Inr ex_root3"
    by (simp add: ex_defs ex3_defs svn_fs__dag_get_node_def get_node_revision_def
        svn_fs__fs_get_node_revision_def)
  have cr: "chain_resolves ex_fs3 3 ex_rt3"
    by (simp add: ex_defs ex3_defs numeral_3_eq_3)
  have pa: "pred_args ex_fs3 3 ex_rt3 = [Some ex_r1_node, Some ex_r0_node, None]"
    by (simp add: ex_defs ex3_defs numeral_3_eq_3 svn_fs__dag_get_node_def get_node_revision_def
        svn_fs__fs_get_node_revision_def)
  have ok: "counts_ok ex_fs3"
    unfolding counts_ok_def by (auto simp: ex_defs ex3_defs split: if_splits)
  have c: "svn_fs__dag_get_predecessor_count ex_root3 ex_fs3 = Inr (2, ex_root3)"
    by (simp add: svn_fs__dag_get_predecessor_count_def get_node_revision_def ex_defs ex3_defs)
  have c0: "0 \<le> sint (2 :: 32 word)" by simp
  have d: "\<forall>b x. \<exists>b'. (\<lambda>b x. Inr (Suc b, map_option dn_id x = Some ex_r0)) b x
                    = (Inr (b', map_option dn_id x = Some ex_r0) :: svn_err + nat \<times> bool)"
    by simp
  have n0: "dn_id ex_r1_node \<noteq> ex_r0" "dn_id ex_r0_node = ex_r0"
    by (simp_all add: ex_defs ex3_defs)
  from walk_predecessors_bound [OF h, of 3
      "\<lambda>b x. Inr (Suc b, map_option dn_id x = Some ex_r0)" 0] cr
  have A: "svn_fs__dag_walk_predecessors ex_root3
        (Some (\<lambda>b x. Inr (Suc b, map_option dn_id x = Some ex_r0))) (0::nat) ex_fs3
       = Some \<lparr>wr_err = None, wr_baton = 2, wr_calls = [Some ex_r1_node, Some ex_r0_node]\<rparr>"
    by (simp add: pa n0)
  from walk_predecessors_bound [OF h, of 3 "\<lambda>b x. Inr (Suc b, False)" 0] cr
  have B: "svn_fs__dag_walk_predecessors ex_root3 (Some (\<lambda>b x. Inr (Suc b, False))) (0::nat) ex_fs3
       = Some \<lparr>wr_err = None, wr_baton = 3,
               wr_calls = [Some ex_r1_node, Some ex_r0_node, None]\<rparr>"
    by (simp add: pa)
  from walk_predecessors_bound [OF h, of 3 "\<lambda>b x. Inr (Suc b, True)" 0] cr
  have C: "svn_fs__dag_walk_predecessors ex_root3 (Some (\<lambda>b x. Inr (Suc b, True))) (0::nat) ex_fs3
       = Some \<lparr>wr_err = None, wr_baton = 1, wr_calls = [Some ex_r1_node]\<rparr>"
    by (simp add: pa)
  from walk_predecessors_bound [OF h, of 0 "\<lambda>b x. Inl SVN_ERR_FS_NOT_FOUND" "0::nat" _ 2 ex_root3] ok c c0
  have D: "\<exists>r. svn_fs__dag_walk_predecessors ex_root3
              (Some (\<lambda>b x. Inl SVN_ERR_FS_NOT_FOUND)) (0::nat) ex_fs3 = Some r
          \<and> wr_calls r \<noteq> [] \<and> length (wr_calls r) \<le> 3"
    by simp
  from h cr pa ok c c0 d A B C D show ?thesis by blast
qed

section \<open>Theorems: ancestry\<close>

text \<open>Claim C8. If is\_ancestor answers true, the two ids are related. If is\_parent answers
  true, then is\_ancestor answers true: whenever it returns an answer at all, and it does
  return one when the predecessor chain of the first node ends within the store.\<close>

theorem parent_implies_ancestor:
  "(svn_fs__dag_is_ancestor node1 node2 fs = Some (Inr True) \<longrightarrow>
      svn_fs_check_related (dn_id node1) (dn_id node2))
   \<and> (svn_fs__dag_is_parent node1 node2 fs = Some (Inr True)
        \<and> svn_fs__dag_is_ancestor node1 node2 fs = Some (Inr r) \<longrightarrow> r)
   \<and> (svn_fs__dag_is_parent node1 node2 fs = Some (Inr True)
        \<and> chain_resolves fs k (dn_id node1) \<longrightarrow>
      svn_fs__dag_is_ancestor node1 node2 fs = Some (Inr True))"
proof -
  have A: "svn_fs__dag_is_ancestor node1 node2 fs = Some (Inr True) \<longrightarrow>
      svn_fs_check_related (dn_id node1) (dn_id node2)"
    by (auto simp: svn_fs__dag_is_ancestor_def Let_def split: if_splits)
  have C: "r" if par: "svn_fs__dag_is_parent node1 node2 fs = Some (Inr True)"
      and anc: "svn_fs__dag_is_ancestor node1 node2 fs = Some (Inr r)"
  proof -
    from is_parent_True [OF par] obtain nr2 n2' pnr where
      rel: "svn_fs_check_related (dn_id node1) (dn_id node2)"
      and g: "get_node_revision node2 fs = Inr (nr2, n2')"
      and p: "predecessor_id nr2 = Some (dn_id node1)"
      and pnr: "nodes fs (dn_id node1) = Some pnr" by blast
    let ?nd = "\<lparr>dn_id = dn_id node1, dn_kind = kind pnr, dn_node_revision = Some pnr,
            dn_created_path = created_path pnr\<rparr>"
    let ?b = "\<lparr>node1_id = dn_id node1, is_ancestor = True, need_parent = False\<rparr>"
    from anc rel obtain w where
      w: "walk_loop (Some is_ancestor_callback) fs False (Some node2)
            \<lparr>node1_id = dn_id node1, is_ancestor = False, need_parent = False\<rparr> [] = Some w"
      and wr: "wr_err w = None" "r = is_ancestor (wr_baton w)"
      by (auto simp: svn_fs__dag_is_ancestor_def Let_def svn_fs__dag_walk_predecessors_def
          split: option.splits)
    from w have "walk_loop (Some is_ancestor_callback) fs False (Some ?nd) ?b [Some ?nd] = Some w"
      apply (subst (asm) walk_loop.simps)
      using g p pnr by (simp add: get_node_Some anc_cb_simps)
    from walk_anc_mono [OF this] wr show ?thesis by simp
  qed
  have B: "svn_fs__dag_is_ancestor node1 node2 fs = Some (Inr True)"
    if par: "svn_fs__dag_is_parent node1 node2 fs = Some (Inr True)"
      and cr: "chain_resolves fs k (dn_id node1)"
  proof -
    from is_parent_True [OF par] obtain nr2 n2' pnr where
      rel: "svn_fs_check_related (dn_id node1) (dn_id node2)"
      and g: "get_node_revision node2 fs = Inr (nr2, n2')"
      and p: "predecessor_id nr2 = Some (dn_id node1)"
      and pnr: "nodes fs (dn_id node1) = Some pnr" by blast
    let ?nd = "\<lparr>dn_id = dn_id node1, dn_kind = kind pnr, dn_node_revision = Some pnr,
            dn_created_path = created_path pnr\<rparr>"
    let ?b = "\<lparr>node1_id = dn_id node1, is_ancestor = True, need_parent = False\<rparr>"
    have "\<exists>r. walk_loop (Some is_ancestor_callback) fs False (Some ?nd) ?b ([] @ [Some ?nd]) = Some r
      \<and> wr_err r = None \<and> is_ancestor (wr_baton r)"
      by (rule walk_anc_total [of fs k ?nd pnr]) (use cr pnr in simp_all)
    then show ?thesis
      using rel g p pnr
      apply (simp add: svn_fs__dag_is_ancestor_def Let_def svn_fs__dag_walk_predecessors_def)
      apply (subst walk_loop.simps)
      apply (auto simp add: get_node_Some anc_cb_simps)
      done
  qed
  from A B C show ?thesis by blast
qed


theorem parent_implies_ancestor_witness:
  "svn_fs__dag_is_parent (ex_node ex_r0 svn_node_dir) ex_root ex_fs = Some (Inr True)
   \<and> chain_resolves ex_fs 1 (dn_id (ex_node ex_r0 svn_node_dir))
   \<and> svn_fs__dag_is_ancestor (ex_node ex_r0 svn_node_dir) ex_root ex_fs = Some (Inr True)
   \<and> svn_fs_check_related (dn_id (ex_node ex_r0 svn_node_dir)) (dn_id ex_root)"
proof -
  have par: "svn_fs__dag_is_parent (ex_node ex_r0 svn_node_dir) ex_root ex_fs = Some (Inr True)"
    apply (simp add: svn_fs__dag_is_parent_def svn_fs__dag_walk_predecessors_def Let_def)
    apply (subst walk_loop.simps)
    apply (simp add: ex_defs svn_fs_check_related_def get_node_revision_def
        svn_fs__dag_get_node_def svn_fs__fs_get_node_revision_def anc_cb_simps walk_loop_done)
    done
  have cr: "chain_resolves ex_fs 1 (dn_id (ex_node ex_r0 svn_node_dir))"
    by (simp add: ex_defs)
  from parent_implies_ancestor [of "ex_node ex_r0 svn_node_dir" ex_root ex_fs True 1] par cr
  show ?thesis by simp
qed

section \<open>Theorems: status of a conflicted entry\<close>

text \<open>Claim C5. Take an entry of a file or a directory whose conflicted flag is set, and let
  the two modification checks answer anything. Then the status is assembled, and each
  component whose reject file is named by the entry and still exists as a file in the
  entry's directory is reported as conflicted, whatever the checks and the schedule said.\<close>

theorem conflicted_wins_over_modified:
  assumes c: "conflicted entry"
    and k: "entry_kind entry = svn_node_file \<or> entry_kind entry = svn_node_dir"
    and pm: "svn_wc_props_modified_p q path = Inr prop_modified"
    and tm: "svn_wc_text_modified_p q path = Inr text_modified"
    and pd: "parent_dir = (if entry_kind entry = svn_node_file
                           then svn_path_remove_component path else path)"
  shows "\<exists>st. assemble_status q wc path (Some entry) = Inr st
     \<and> (\<forall>f. text_reject_file entry = Some f
             \<and> disk wc (svn_path_join parent_dir f) = Some svn_node_file
           \<longrightarrow> text_status st = svn_wc_status_conflicted)
     \<and> (\<forall>f. prop_reject_file entry = Some f
             \<and> disk wc (svn_path_join parent_dir f) = Some svn_node_file
           \<longrightarrow> prop_status st = svn_wc_status_conflicted)"
proof -
  obtain pk where pk: "svn_io_check_path wc
      (svn_path_join (svn_path_join (svn_path_remove_component path) ''adm/props'')
            (svn_path_last_component path)) = Inr pk"
    by (cases "disk wc (svn_path_join (svn_path_join (svn_path_remove_component path)
         ''adm/props'') (svn_path_last_component path))") (simp_all add: svn_io_check_path_def)
  have pm': "(if pk = svn_node_file then svn_wc_props_modified_p q path else Inr False)
      = Inr (pk = svn_node_file \<and> prop_modified)"
    using pm by simp
  have tm': "(if entry_kind entry = svn_node_file then svn_wc_text_modified_p q path
                   else Inr False) = Inr (entry_kind entry = svn_node_file \<and> text_modified)"
    using tm by simp
  have pd': "(if entry_kind entry = svn_node_file
                         then Inr (svn_path_remove_component path)
                         else if entry_kind entry = svn_node_dir then Inr path
                         else Inl ABORTED) = Inr parent_dir"
    using k pd by auto
  show ?thesis
    unfolding assemble_status_def svn_wc__prop_path_def Let_def
    apply (simp only: option.case sum.case pk pm' tm' c if_True pd' svn_wc_conflicted_p_def prod.case)
    apply (simp split: option.splits)
    done
qed

theorem conflicted_wins_over_modified_witness:
  "conflicted ex_foo_entry
   \<and> entry_kind ex_foo_entry = svn_node_file
   \<and> svn_wc_props_modified_p ex_questions ''wc/foo'' = Inr False
   \<and> svn_wc_text_modified_p ex_questions ''wc/foo'' = Inr True
   \<and> svn_path_remove_component ''wc/foo'' = ''wc''
   \<and> text_reject_file ex_foo_entry = Some ''foo.rej''
   \<and> disk ex_wc (svn_path_join ''wc'' ''foo.rej'') = Some svn_node_file
   \<and> (\<exists>st. assemble_status ex_questions ex_wc ''wc/foo'' (Some ex_foo_entry) = Inr st
          \<and> text_status st = svn_wc_status_conflicted)"
proof -
  have c: "conflicted ex_foo_entry"
    and k: "entry_kind ex_foo_entry = svn_node_file \<or> entry_kind ex_foo_entry = svn_node_dir"
    and k': "entry_kind ex_foo_entry = svn_node_file"
    and pm: "svn_wc_props_modified_p ex_questions ''wc/foo'' = Inr False"
    and tm: "svn_wc_text_modified_p ex_questions ''wc/foo'' = Inr True"
    and rc: "svn_path_remove_component ''wc/foo'' = ''wc''"
    and pd: "''wc'' = (if entry_kind ex_foo_entry = svn_node_file
                       then svn_path_remove_component ''wc/foo'' else ''wc/foo'')"
    and rf: "text_reject_file ex_foo_entry = Some ''foo.rej''"
    and dk: "disk ex_wc (svn_path_join ''wc'' ''foo.rej'') = Some svn_node_file"
    by (simp_all add: ex_wc_defs svn_path_remove_component_def svn_path_join_def)
  from conflicted_wins_over_modified [OF c k pm tm pd, of ex_wc] rf dk
  have "\<exists>st. assemble_status ex_questions ex_wc ''wc/foo'' (Some ex_foo_entry) = Inr st
          \<and> text_status st = svn_wc_status_conflicted"
    by blast
  with c k' pm tm rc rf dk show ?thesis by blast
qed

section \<open>Theorems: adding a directory\<close>

text \<open>Claim C6. Take a call on a parent baton of the editor. The cases are met in the
  order in which the claim gives them. If an object of that name exists on disk under the
  parent directory, the call fails with the obstructed-update error, whatever copyfrom
  arguments it is given, as long as they are legal: both given or both absent (a mixture is
  illegal, and the code aborts on it before any test). If no object exists and valid
  copyfrom arguments are given, it fails with the unsupported-feature error. If no object
  and no entries file exist there, no copyfrom is given and the parent directory has an
  entry, the call succeeds: the directory is created on disk and seeded as a working copy
  whose URL is the parent entry's URL plus the name, at the target revision.\<close>

theorem add_directory_checks:
  assumes pb: "dir_batons ed pa = Some pb"
    and lt: "pa < next_baton ed"
    and path: "path = svn_path_join (db_path pb) name"
  shows "(\<forall>k. (cf_path \<noteq> None) = SVN_IS_VALID_REVNUM cf_revision
              \<and> disk (ed_wc ed) path = Some k \<and> k \<noteq> svn_node_none \<longrightarrow>
            add_directory name pa cf_path cf_revision ed = Inl SVN_ERR_WC_OBSTRUCTED_UPDATE)
       \<and> (disk (ed_wc ed) path = None \<and> cf_path \<noteq> None \<and> SVN_IS_VALID_REVNUM cf_revision \<longrightarrow>
            add_directory name pa cf_path cf_revision ed = Inl SVN_ERR_UNSUPPORTED_FEATURE)
       \<and> (\<forall>parent_entry.
            disk (ed_wc ed) path = None \<and> entries_of (ed_wc ed) path = None
            \<and> cf_path = None \<and> \<not> SVN_IS_VALID_REVNUM cf_revision
            \<and> svn_wc_entry (ed_wc ed) (db_path pb) = Inr (Some parent_entry) \<longrightarrow>
            (\<exists>a ed' d e. add_directory name pa cf_path cf_revision ed = Inr (a, ed')
               \<and> dir_batons ed' a = Some d \<and> db_path d = path \<and> added d
               \<and> disk (ed_wc ed') path = Some svn_node_dir
               \<and> svn_wc_check_wc (ed_wc ed') path = Inr True
               \<and> svn_wc_entry (ed_wc ed') path = Inr (Some e)
               \<and> url e = svn_path_join (url parent_entry) name
               \<and> revision e = target_revision (eb ed)))"
proof -
  obtain this ed1 where m: "make_dir_baton (Some name) (Some pa) True ed = (this, ed1)"
    by (cases "make_dir_baton (Some name) (Some pa) True ed")
  from make_dir_baton_facts [OF pb lt m] path obtain d where
    w: "ed_wc ed1 = ed_wc ed" and e: "eb ed1 = eb ed"
    and d: "dir_batons ed1 this = Some d" "db_path d = path" "added d" by auto
  show ?thesis
    using pb m w e d
    by (auto simp: add_directory_def svn_io_check_path_def prep_directory_def
        svn_wc__ensure_directory_def svn_wc__ensure_wc_def svn_wc_entry_def svn_wc_check_wc_def
        Let_def)
qed

theorem add_directory_checks_witness:
  "dir_batons ex_ed 0 = Some ex_root_baton
   \<and> 0 < next_baton ex_ed
   \<and> disk (ed_wc ex_ed) (svn_path_join (db_path ex_root_baton) ''stray'') = Some svn_node_file
   \<and> (None \<noteq> (None :: string option)) = SVN_IS_VALID_REVNUM (- 1)
   \<and> add_directory ''stray'' 0 None (- 1) ex_ed = Inl SVN_ERR_WC_OBSTRUCTED_UPDATE
   \<and> (Some ''/trunk/x'' \<noteq> None) = SVN_IS_VALID_REVNUM 3
   \<and> add_directory ''stray'' 0 (Some ''/trunk/x'') 3 ex_ed = Inl SVN_ERR_WC_OBSTRUCTED_UPDATE
   \<and> disk (ed_wc ex_ed) (svn_path_join (db_path ex_root_baton) ''new'') = None
   \<and> add_directory ''new'' 0 (Some ''/trunk/x'') 3 ex_ed = Inl SVN_ERR_UNSUPPORTED_FEATURE
   \<and> entries_of (ed_wc ex_ed) (svn_path_join (db_path ex_root_baton) ''new'') = None
   \<and> svn_wc_entry (ed_wc ex_ed) (db_path ex_root_baton) = Inr (Some ex_dir_entry)
   \<and> (\<exists>a ed' e. add_directory ''new'' 0 None (- 1) ex_ed = Inr (a, ed')
          \<and> disk (ed_wc ed') ''wc/new'' = Some svn_node_dir
          \<and> svn_wc_check_wc (ed_wc ed') ''wc/new'' = Inr True
          \<and> svn_wc_entry (ed_wc ed') ''wc/new'' = Inr (Some e)
          \<and> url e = ''http://host/repo/new'' \<and> revision e = 7)"
proof -
  have pb: "dir_batons ex_ed 0 = Some ex_root_baton" and lt: "0 < next_baton ex_ed"
    by (simp_all add: ex_ed_defs)
  have w1: "(None \<noteq> (None :: string option)) = SVN_IS_VALID_REVNUM (- 1)"
    and w2: "(Some ''/trunk/x'' \<noteq> None) = SVN_IS_VALID_REVNUM 3"
    and v1: "\<not> SVN_IS_VALID_REVNUM (- 1)" and v2: "SVN_IS_VALID_REVNUM 3"
    by (simp_all add: SVN_IS_VALID_REVNUM_def)
  have d1: "disk (ed_wc ex_ed) (svn_path_join (db_path ex_root_baton) ''stray'')
              = Some svn_node_file"
    and d2: "disk (ed_wc ex_ed) (svn_path_join (db_path ex_root_baton) ''new'') = None"
    and d3: "entries_of (ed_wc ex_ed) (svn_path_join (db_path ex_root_baton) ''new'') = None"
    and pe: "svn_wc_entry (ed_wc ex_ed) (db_path ex_root_baton) = Inr (Some ex_dir_entry)"
    and p: "svn_path_join (db_path ex_root_baton) ''new'' = ''wc/new''"
    and u: "svn_path_join (url ex_dir_entry) ''new'' = ''http://host/repo/new''"
    and r: "target_revision (eb ex_ed) = 7"
    by (simp_all add: ex_ed_defs ex_wc_defs svn_path_join_def svn_wc_entry_def)
  from add_directory_checks [OF pb lt refl, of None "- 1" "''stray''"] d1 w1
  have A: "add_directory ''stray'' 0 None (- 1) ex_ed = Inl SVN_ERR_WC_OBSTRUCTED_UPDATE"
    by simp
  from add_directory_checks [OF pb lt refl, of "Some ''/trunk/x''" 3 "''stray''"] d1 w2
  have A2: "add_directory ''stray'' 0 (Some ''/trunk/x'') 3 ex_ed = Inl SVN_ERR_WC_OBSTRUCTED_UPDATE"
    by simp
  from add_directory_checks [OF pb lt refl, of "Some ''/trunk/x''" 3 "''new''"] d2 v2
  have B: "add_directory ''new'' 0 (Some ''/trunk/x'') 3 ex_ed = Inl SVN_ERR_UNSUPPORTED_FEATURE"
    by simp
  from add_directory_checks [OF pb lt refl, of None "- 1" "''new''"] d2 d3 pe v1
  obtain a ed' e where "add_directory ''new'' 0 None (- 1) ex_ed = Inr (a, ed')"
    "disk (ed_wc ed') (svn_path_join (db_path ex_root_baton) ''new'') = Some svn_node_dir"
    "svn_wc_check_wc (ed_wc ed') (svn_path_join (db_path ex_root_baton) ''new'') = Inr True"
    "svn_wc_entry (ed_wc ed') (svn_path_join (db_path ex_root_baton) ''new'') = Inr (Some e)"
    "url e = svn_path_join (url ex_dir_entry) ''new''"
    "revision e = target_revision (eb ex_ed)"
    by blast
  then have C: "\<exists>a ed' e. add_directory ''new'' 0 None (- 1) ex_ed = Inr (a, ed')
          \<and> disk (ed_wc ed') ''wc/new'' = Some svn_node_dir
          \<and> svn_wc_check_wc (ed_wc ed') ''wc/new'' = Inr True
          \<and> svn_wc_entry (ed_wc ed') ''wc/new'' = Inr (Some e)
          \<and> url e = ''http://host/repo/new'' \<and> revision e = 7"
    unfolding p u r by blast
  from pb lt d1 w1 A w2 A2 d2 B d3 pe C show ?thesis by blast
qed

section \<open>Theorems: a directory entry-prop with no value\<close>

text \<open>Claim C9. For a directory baton of the editor whose directory is a working copy and
  a property name in the entry-prop namespace, change\_dir\_prop with no value succeeds, and
  afterwards the directory's own entry has the attribute (the name without the prefix) set
  to the empty string: the attribute is present, not deleted.\<close>

theorem change_dir_prop_null_entry_prop:
  assumes db: "dir_batons ed da = Some db"
    and ep: "svn_wc_is_entry_prop name"
    and es: "entries_of (ed_wc ed) (db_path db) = Some es"
  shows "\<exists>ed' e. change_dir_prop da name None ed = Inr ed'
           \<and> svn_wc_entry (ed_wc ed') (db_path db) = Inr (Some e)
           \<and> attributes e (svn_wc__strip_entry_prefix name) = Some []
           \<and> attributes e (drop (length ''svn:entry:'') name) = Some []"
  using db es ep entry_prop_not_wc_prop [OF ep]
  by (simp add: change_dir_prop_def Let_def svn_wc__entry_modify_def svn_wc_entry_def
      svn_wc__strip_entry_prefix_def svn_wc_is_entry_prop_def SVN_PROP_ENTRY_PREFIX_def)

theorem change_dir_prop_null_entry_prop_witness:
  "dir_batons ex_ed 0 = Some ex_root_baton
   \<and> svn_wc_is_entry_prop ''svn:entry:last-author''
   \<and> entries_of (ed_wc ex_ed) (db_path ex_root_baton) = Some ex_wc_entries
   \<and> (\<exists>ed' e. change_dir_prop 0 ''svn:entry:last-author'' None ex_ed = Inr ed'
          \<and> svn_wc_entry (ed_wc ed') ''wc'' = Inr (Some e)
          \<and> attributes e ''last-author'' = Some [])"
proof -
  have ep: "svn_wc_is_entry_prop ''svn:entry:last-author''"
    by (simp add: svn_wc_is_entry_prop_def has_prefix_def SVN_PROP_ENTRY_PREFIX_def)
  have p: "db_path ex_root_baton = ''wc''" by (simp add: ex_ed_defs)
  from change_dir_prop_null_entry_prop [OF ex_ed_root ep ex_ed_entries]
  have "\<exists>ed' e. change_dir_prop 0 ''svn:entry:last-author'' None ex_ed = Inr ed'
          \<and> svn_wc_entry (ed_wc ed') ''wc'' = Inr (Some e)
          \<and> attributes e ''last-author'' = Some []"
    unfolding p by auto
  with ex_ed_root ep ex_ed_entries show ?thesis by blast
qed

section \<open>Theorems: opening and adding files\<close>

text \<open>Claim C10, as stated, fails on the code: adding a name that has no object on disk
  fails with the obstructed-update error when the parent directory, though its entries can
  be read, is not taken for a working copy by \<^verbatim>\<open>svn_wc_check_wc\<close>.\<close>

theorem add_file_not_wc_counterexample:
  "dir_batons ex_ed_broken 0 = Some ex_root_baton
   \<and> svn_wc_entries_read (ed_wc ex_ed_broken) (db_path ex_root_baton) = Inr ex_wc_entries
   \<and> disk (ed_wc ex_ed_broken) (svn_path_join (db_path ex_root_baton) ''gone'') = None
   \<and> svn_wc_check_wc (ed_wc ex_ed_broken) (db_path ex_root_baton) = Inr False
   \<and> add_file ''gone'' 0 None (- 1) ex_ed_broken = Inl SVN_ERR_WC_OBSTRUCTED_UPDATE"
  by (simp add: ex_ed_broken_def ex_wc_broken_def ex_ed_defs ex_wc_def add_file_def
      add_or_open_file_def make_file_baton_def Let_def svn_io_get_dirents_def
      svn_wc_entries_read_def svn_wc_check_wc_def svn_path_join_def ex_wc_entries_def)

text \<open>Claim C10, amended. Take a parent baton of the editor whose directory exists on disk
  and has a readable entries file. Opening a name that has no record in the directory's
  entries fails with the entry-not-found error. Adding a name that has a record but no
  object on disk succeeds when the directory is a working copy, and leaves the working copy
  as it is. Adding fails with the obstructed-update error exactly when an object of that
  name exists on disk in the directory or the directory is not a working copy.\<close>

theorem file_interface_errors:
  assumes pb: "dir_batons ed pa = Some pb"
    and dir: "disk (ed_wc ed) (db_path pb) = Some svn_node_dir"
    and es: "svn_wc_entries_read (ed_wc ed) (db_path pb) = Inr es"
  shows "(es name = None \<longrightarrow> open_file name pa base_revision ed = Inl SVN_ERR_ENTRY_NOT_FOUND)
       \<and> (es name \<noteq> None \<and> disk (ed_wc ed) (svn_path_join (db_path pb) name) = None
            \<and> svn_wc_check_wc (ed_wc ed) (db_path pb) = Inr True \<longrightarrow>
             (\<exists>fb ed'. add_file name pa cf_path cf_revision ed = Inr (fb, ed')
                 \<and> fb_path fb = svn_path_join (db_path pb) name \<and> ed_wc ed' = ed_wc ed))
       \<and> (add_file name pa cf_path cf_revision ed = Inl SVN_ERR_WC_OBSTRUCTED_UPDATE
            \<longleftrightarrow> disk (ed_wc ed) (svn_path_join (db_path pb) name) \<noteq> None
                \<or> svn_wc_check_wc (ed_wc ed) (db_path pb) = Inr False)"
  using pb dir es
  by (auto simp: open_file_def add_file_def add_or_open_file_def make_file_baton_def Let_def
      svn_io_get_dirents_def svn_wc_entries_read_def svn_wc_check_wc_def
      split: prod.splits option.splits)

theorem file_interface_errors_witness:
  "dir_batons ex_ed 0 = Some ex_root_baton
   \<and> disk (ed_wc ex_ed) (db_path ex_root_baton) = Some svn_node_dir
   \<and> svn_wc_entries_read (ed_wc ex_ed) (db_path ex_root_baton) = Inr ex_wc_entries
   \<and> ex_wc_entries ''nothere'' = None
   \<and> open_file ''nothere'' 0 5 ex_ed = Inl SVN_ERR_ENTRY_NOT_FOUND
   \<and> ex_wc_entries ''gone'' \<noteq> None
   \<and> disk (ed_wc ex_ed) (svn_path_join (db_path ex_root_baton) ''gone'') = None
   \<and> svn_wc_check_wc (ed_wc ex_ed) (db_path ex_root_baton) = Inr True
   \<and> (\<exists>fb ed'. add_file ''gone'' 0 None (- 1) ex_ed = Inr (fb, ed'))
   \<and> disk (ed_wc ex_ed) (svn_path_join (db_path ex_root_baton) ''stray'') \<noteq> None
   \<and> add_file ''stray'' 0 None (- 1) ex_ed = Inl SVN_ERR_WC_OBSTRUCTED_UPDATE
   \<and> dir_batons ex_ed_broken 0 = Some ex_root_baton
   \<and> disk (ed_wc ex_ed_broken) (db_path ex_root_baton) = Some svn_node_dir
   \<and> svn_wc_entries_read (ed_wc ex_ed_broken) (db_path ex_root_baton) = Inr ex_wc_entries
   \<and> svn_wc_check_wc (ed_wc ex_ed_broken) (db_path ex_root_baton) = Inr False
   \<and> add_file ''nothere'' 0 None (- 1) ex_ed_broken = Inl SVN_ERR_WC_OBSTRUCTED_UPDATE"
proof -
  have dir: "disk (ed_wc ex_ed) (db_path ex_root_baton) = Some svn_node_dir"
    and er: "svn_wc_entries_read (ed_wc ex_ed) (db_path ex_root_baton) = Inr ex_wc_entries"
    and n: "ex_wc_entries ''nothere'' = None"
    and g: "ex_wc_entries ''gone'' \<noteq> None"
    and dg: "disk (ed_wc ex_ed) (svn_path_join (db_path ex_root_baton) ''gone'') = None"
    and ds: "disk (ed_wc ex_ed) (svn_path_join (db_path ex_root_baton) ''stray'') \<noteq> None"
    and cw: "svn_wc_check_wc (ed_wc ex_ed) (db_path ex_root_baton) = Inr True"
    and pb2: "dir_batons ex_ed_broken 0 = Some ex_root_baton"
    and dir2: "disk (ed_wc ex_ed_broken) (db_path ex_root_baton) = Some svn_node_dir"
    and er2: "svn_wc_entries_read (ed_wc ex_ed_broken) (db_path ex_root_baton) = Inr ex_wc_entries"
    and cw2: "svn_wc_check_wc (ed_wc ex_ed_broken) (db_path ex_root_baton) = Inr False"
    by (simp_all add: ex_ed_broken_def ex_wc_broken_def ex_ed_defs ex_wc_defs svn_path_join_def
        svn_wc_entries_read_def svn_wc_check_wc_def)
  from file_interface_errors [OF ex_ed_root dir er, of "''nothere''" 5] n
  have A: "open_file ''nothere'' 0 5 ex_ed = Inl SVN_ERR_ENTRY_NOT_FOUND" by blast
  from file_interface_errors [OF ex_ed_root dir er, of "''gone''" _ None "- 1"] g dg cw
  have B: "\<exists>fb ed'. add_file ''gone'' 0 None (- 1) ex_ed = Inr (fb, ed')" by blast
  from file_interface_errors [OF ex_ed_root dir er, of "''stray''" _ None "- 1"] ds
  have C: "add_file ''stray'' 0 None (- 1) ex_ed = Inl SVN_ERR_WC_OBSTRUCTED_UPDATE" by blast
  from file_interface_errors [OF pb2 dir2 er2, of "''nothere''" _ None "- 1"] cw2
  have D: "add_file ''nothere'' 0 None (- 1) ex_ed_broken = Inl SVN_ERR_WC_OBSTRUCTED_UPDATE"
    by blast
  from ex_ed_root dir er n A g dg cw B ds C pb2 dir2 er2 cw2 D show ?thesis by blast
qed

section \<open>Theorems: the log of a file installation\<close>

text \<open>Claim C2. Whenever \<^verbatim>\<open>svn_wc_install_file\<close> comes to write its log, the log ends as
  follows: a \<^verbatim>\<open>MODIFY_ENTRY\<close> command for the file's basename setting kind to file and
  revision to the new revision; directly after it, exactly when a new text was given and the
  working file has no local changes, a \<^verbatim>\<open>MODIFY_ENTRY\<close> command setting the text time to
  the working file's; then only the property-time command (when properties were given and
  are not locally modified) and the URL command (when a new URL was given).\<close>

theorem install_file_log:
  assumes "ir_log (svn_wc_install_file io q w file_path new_revision new_text_path props
                     is_full_proplist new_URL) = Some log"
  shows "\<exists>pre. log =
      pre
      @ [LogCmd SVN_WC__LOG_MODIFY_ENTRY
           [(SVN_WC__LOG_ATTR_NAME, svn_path_last_component file_path),
            (SVN_WC_ENTRY_ATTR_KIND, SVN_WC__ENTRIES_ATTR_FILE_STR),
            (SVN_WC_ENTRY_ATTR_REVISION, ld_string new_revision)]]
      @ (if new_text_path \<noteq> None \<and> svn_wc_text_modified_p q file_path = Inr False
         then [LogCmd SVN_WC__LOG_MODIFY_ENTRY
                 [(SVN_WC__LOG_ATTR_NAME, svn_path_last_component file_path),
                  (SVN_WC_ENTRY_ATTR_TEXT_TIME, SVN_WC_TIMESTAMP_WC)]]
         else [])
      @ (if props \<noteq> None \<and> svn_wc_props_modified_p q file_path = Inr False
         then [LogCmd SVN_WC__LOG_MODIFY_ENTRY
                 [(SVN_WC__LOG_ATTR_NAME, svn_path_last_component file_path),
                  (SVN_WC_ENTRY_ATTR_PROP_TIME, SVN_WC_TIMESTAMP_WC)]]
         else [])
      @ (case new_URL of
           Some u \<Rightarrow> [LogCmd SVN_WC__LOG_MODIFY_ENTRY
                        [(SVN_WC__LOG_ATTR_NAME, svn_path_last_component file_path),
                         (SVN_WC_ENTRY_ATTR_URL, u)]]
         | None \<Rightarrow> [])"
proof -
  from assms obtain wc_props where
    "install_log io q w file_path (svn_path_remove_component file_path)
       (svn_path_last_component file_path) new_revision new_text_path props is_full_proplist
       new_URL = Inr (log, wc_props)"
    by (auto simp: svn_wc_install_file_def svn_path_split_def
        split: option.splits sum.splits prod.splits)
  from install_log_tail [OF this] show ?thesis .
qed

theorem install_file_log_witness:
  "svn_wc_text_modified_p ex_questions_clean ''wc/foo'' = Inr False
   \<and> (\<exists>log pre.
         ir_log (svn_wc_install_file ex_io ex_questions_clean ex_wc ''wc/foo'' 7
                   (Some ''wc/adm/tmp/text-base/foo.base'') None False None) = Some log
       \<and> log = pre
           @ [LogCmd SVN_WC__LOG_MODIFY_ENTRY
                [(SVN_WC__LOG_ATTR_NAME, ''foo''),
                 (SVN_WC_ENTRY_ATTR_KIND, SVN_WC__ENTRIES_ATTR_FILE_STR),
                 (SVN_WC_ENTRY_ATTR_REVISION, ld_string 7)],
              LogCmd SVN_WC__LOG_MODIFY_ENTRY
                [(SVN_WC__LOG_ATTR_NAME, ''foo''),
                 (SVN_WC_ENTRY_ATTR_TEXT_TIME, SVN_WC_TIMESTAMP_WC)]])
   \<and> svn_wc_text_modified_p ex_questions ''wc/foo'' = Inr True
   \<and> (\<exists>log pre.
         ir_log (svn_wc_install_file ex_io ex_questions ex_wc ''wc/foo'' 7
                   (Some ''wc/adm/tmp/text-base/foo.base'') None False None) = Some log
       \<and> log = pre
           @ [LogCmd SVN_WC__LOG_MODIFY_ENTRY
                [(SVN_WC__LOG_ATTR_NAME, ''foo''),
                 (SVN_WC_ENTRY_ATTR_KIND, SVN_WC__ENTRIES_ATTR_FILE_STR),
                 (SVN_WC_ENTRY_ATTR_REVISION, ld_string 7)]])"
proof -
  have c: "svn_wc_text_modified_p ex_questions_clean ''wc/foo'' = Inr False"
    and m: "svn_wc_text_modified_p ex_questions ''wc/foo'' = Inr True"
    and b: "svn_path_last_component ''wc/foo'' = ''foo''"
    by (simp_all add: ex_questions_clean_def ex_questions_def svn_path_last_component_def)
  have "ir_log (svn_wc_install_file ex_io ex_questions_clean ex_wc ''wc/foo'' 7
                  (Some ''wc/adm/tmp/text-base/foo.base'') None False None) \<noteq> None"
    by (simp add: install_defs ex_io_def ex_questions_clean_def ex_questions_def ex_wc_def)
  then obtain log1 where
    l1: "ir_log (svn_wc_install_file ex_io ex_questions_clean ex_wc ''wc/foo'' 7
                   (Some ''wc/adm/tmp/text-base/foo.base'') None False None) = Some log1"
    by blast
  have "ir_log (svn_wc_install_file ex_io ex_questions ex_wc ''wc/foo'' 7
                  (Some ''wc/adm/tmp/text-base/foo.base'') None False None) \<noteq> None"
    by (simp add: install_defs ex_io_def ex_questions_def ex_wc_def)
  then obtain log2 where
    l2: "ir_log (svn_wc_install_file ex_io ex_questions ex_wc ''wc/foo'' 7
                   (Some ''wc/adm/tmp/text-base/foo.base'') None False None) = Some log2"
    by blast
  from install_file_log [OF l1] c b
  have A: "\<exists>pre. log1 = pre
           @ [LogCmd SVN_WC__LOG_MODIFY_ENTRY
                [(SVN_WC__LOG_ATTR_NAME, ''foo''),
                 (SVN_WC_ENTRY_ATTR_KIND, SVN_WC__ENTRIES_ATTR_FILE_STR),
                 (SVN_WC_ENTRY_ATTR_REVISION, ld_string 7)],
              LogCmd SVN_WC__LOG_MODIFY_ENTRY
                [(SVN_WC__LOG_ATTR_NAME, ''foo''),
                 (SVN_WC_ENTRY_ATTR_TEXT_TIME, SVN_WC_TIMESTAMP_WC)]]"
    by simp
  from install_file_log [OF l2] m b
  have B: "\<exists>pre. log2 = pre
           @ [LogCmd SVN_WC__LOG_MODIFY_ENTRY
                [(SVN_WC__LOG_ATTR_NAME, ''foo''),
                 (SVN_WC_ENTRY_ATTR_KIND, SVN_WC__ENTRIES_ATTR_FILE_STR),
                 (SVN_WC_ENTRY_ATTR_REVISION, ld_string 7)]]"
    by simp
  from c m l1 l2 A B show ?thesis by blast
qed

end
